theory Spec2Isabelle
  imports Complex_Main
begin

section \<open>Python values\<close>

text \<open>
  A Python \<open>str\<close> is a sequence of Unicode code points. Isabelle's \<open>char\<close> has eight
  bits only, and the prompt templates of \<open>main.py\<close> hold code points above 255, so a
  string is modelled as the list of its code points; \<open>ustr\<close> turns an ASCII literal
  into that form.
\<close>

type_synonym pystr = "nat list"

definition ustr :: "string \<Rightarrow> pystr" where
  "ustr s = map of_char s"

text \<open>The two characters the response parser looks for: \<open>{\<close> is U+007B, \<open>}\<close> is U+007D.\<close>

definition lbrace :: nat where
  "lbrace = 123"

definition rbrace :: nat where
  "rbrace = 125"

text \<open>
  Exceptions. Only instances of Python's \<open>Exception\<close> are modelled (asynchronous
  \<open>BaseException\<close>s such as \<open>KeyboardInterrupt\<close> are not), so \<open>except Exception\<close>
  catches every value of this type. \<open>GatewayError\<close> stands for whatever the
  \<open>openai\<close> client raises.
\<close>

datatype exn =
    ValueError
  | JSONDecodeError
  | RecursionError
  | TypeError
  | AttributeError
  | EOFError
  | GatewayError

text \<open>
  A Python \<open>float\<close>: the finite doubles are rationals; negative zero, the infinities
  and NaN are values of their own.
\<close>

datatype pyfloat = Finite rat | NegZero | PosInf | NegInf | NaN

text \<open>
  The values \<open>json.loads\<close> produces: \<open>None\<close>, \<open>bool\<close>, \<open>int\<close>, \<open>float\<close>, \<open>str\<close>,
  \<open>list\<close> and \<open>dict\<close> (keys in insertion order). The program handles no other kind of
  value apart from plain strings and integers.
\<close>

datatype json =
    JNull
  | JBool bool
  | JInt int
  | JFloat pyfloat
  | JStr pystr
  | JArr "json list"
  | JObj "(pystr \<times> json) list"

text \<open>
  Library functions the program calls that are not part of the repository:
  \<open>json.loads\<close> (it returns the decoded value or raises) and \<open>repr\<close> for the values
  whose printed form is not fixed below (floats, lists and dicts).
\<close>

record pylib =
  json_loads :: "pystr \<Rightarrow> exn + json"
  py_repr :: "json \<Rightarrow> pystr"

section \<open>String operations\<close>

text \<open>\<open>s.index(c)\<close> for a one-character \<open>c\<close>: the first position, or \<open>ValueError\<close>.\<close>

primrec str_find :: "pystr \<Rightarrow> nat \<Rightarrow> nat option" where
  "str_find [] c = None"
| "str_find (x # xs) c = (if x = c then Some 0 else map_option Suc (str_find xs c))"

definition str_index :: "pystr \<Rightarrow> nat \<Rightarrow> exn + nat" where
  "str_index s c = (case str_find s c of None \<Rightarrow> Inl ValueError | Some i \<Rightarrow> Inr i)"

text \<open>\<open>s.rfind(c)\<close> for a one-character \<open>c\<close>: the last position, or \<open>-1\<close>.\<close>

primrec str_rfind :: "pystr \<Rightarrow> nat \<Rightarrow> int" where
  "str_rfind [] c = - 1"
| "str_rfind (x # xs) c =
     (let r = str_rfind xs c
      in if 0 \<le> r then r + 1 else if x = c then 0 else - 1)"

text \<open>
  \<open>s[i:j]\<close>: a negative bound counts from the end, and every bound is clamped to
  the string.
\<close>

definition slice_bound :: "nat \<Rightarrow> int \<Rightarrow> nat" where
  "slice_bound n i = (if i < 0 then nat (max 0 (int n + i)) else min n (nat i))"

definition str_slice :: "pystr \<Rightarrow> int \<Rightarrow> int \<Rightarrow> pystr" where
  "str_slice s i j =
     (let a = slice_bound (length s) i; b = slice_bound (length s) j
      in take (b - a) (drop a s))"

section \<open>The response parser\<close>

text \<open>The record \<open>parse_judge_response\<close> returns from its \<open>except\<close> branch.\<close>

definition judge_fallback :: json where
  "judge_fallback = JObj
     [(ustr ''clarity'', JInt 0),
      (ustr ''age_appropriateness'', JInt 0),
      (ustr ''emotional_safety'', JInt 0),
      (ustr ''creativity'', JInt 0),
      (ustr ''narrative_structure'', JInt 0),
      (ustr ''total_score'', JInt 0),
      (ustr ''issues'', JArr [JStr (ustr ''Could not parse judge response as JSON.'')]),
      (ustr ''suggested_fixes'',
         JArr [JStr (ustr
           ''Regenerate the story with clearer structure, simpler language, and explicit moral.'')])]"

text \<open>
  The local variable \<open>json_str\<close> of \<open>parse_judge_response\<close>:
  \<open>start = raw.index("{"); end = raw.rfind("}"); json_str = raw[start:end + 1]\<close>.
\<close>

definition json_str :: "pystr \<Rightarrow> exn + pystr" where
  "json_str raw =
     (case str_index raw lbrace of
        Inl e \<Rightarrow> Inl e
      | Inr start \<Rightarrow>
          (let end = str_rfind raw rbrace
           in Inr (str_slice raw (int start) (end + 1))))"

text \<open>
  \<open>parse_judge_response\<close>: the \<open>try\<close> body computes \<open>json_str\<close> and decodes it; the
  handler \<open>except Exception\<close> replaces whatever either step raised by the fallback.
\<close>

definition parse_judge_response :: "pylib \<Rightarrow> pystr \<Rightarrow> exn + json" where
  "parse_judge_response L raw =
     (case json_str raw of
        Inl e \<Rightarrow> Inr judge_fallback
      | Inr s \<Rightarrow>
          (case json_loads L s of
             Inl e \<Rightarrow> Inr judge_fallback
           | Inr v \<Rightarrow> Inr v))"

text \<open>
  There is no \<open>{\<close> that a \<open>}\<close> follows: after the first \<open>{\<close> (if any) no \<open>}\<close> occurs.
\<close>

definition no_brace_pair :: "pystr \<Rightarrow> bool" where
  "no_brace_pair raw = (rbrace \<notin> set (dropWhile (\<lambda>c. c \<noteq> lbrace) raw))"

section \<open>The text-generation gateway and the console\<close>

text \<open>
  \<open>call_model\<close> sends one prompt to the chat service and returns the text of its reply.
  The service is outside the program: a run is modelled against the replies the service
  will give, in the order of the calls (\<open>replies\<close>). When none is left the call raises,
  as a transport, authentication or quota failure does. Every call is logged with its
  arguments and its outcome (\<open>calls\<close>); the model name and \<open>stream=False\<close> are the same
  in every call and left out. \<open>stdout\<close> holds what was written to the console,
  one entry for each \<open>print\<close> or \<open>input\<close> prompt.
\<close>

record exchange =
  prompt :: pystr
  max_tokens :: int
  temperature :: rat
  reply :: "exn + pystr"

record world =
  replies :: "pystr list"
  calls :: "exchange list"
  stdout :: "pystr list"

definition call_model :: "pystr \<Rightarrow> int \<Rightarrow> rat \<Rightarrow> world \<Rightarrow> (exn + pystr) \<times> world" where
  "call_model p mt t w =
     (case replies w of
        [] \<Rightarrow>
          (Inl GatewayError,
           w\<lparr>calls := calls w @
             [\<lparr>prompt = p, max_tokens = mt, temperature = t, reply = Inl GatewayError\<rparr>]\<rparr>)
      | r # rs \<Rightarrow>
          (Inr r,
           w\<lparr>replies := rs,
             calls := calls w @
               [\<lparr>prompt = p, max_tokens = mt, temperature = t, reply = Inr r\<rparr>]\<rparr>))"

text \<open>\<open>sep.join(xs)\<close> for a list of strings.\<close>

fun str_join :: "pystr \<Rightarrow> pystr list \<Rightarrow> pystr" where
  "str_join sep [] = []"
| "str_join sep [x] = x"
| "str_join sep (x # y # ys) = x @ sep @ str_join sep (y # ys)"

text \<open>\<open>print(a, b, ...)\<close>: the arguments, already strings, with spaces and a newline.\<close>

definition py_print :: "pystr list \<Rightarrow> world \<Rightarrow> world" where
  "py_print args w = w\<lparr>stdout := stdout w @ [str_join [32] args @ [10]]\<rparr>"

section \<open>Prompt templates\<close>

text \<open>
  Each template is given with its \<open>format\<close> arguments filled in (\<open>{{\<close> and \<open>}}\<close> of
  the judge template are the braces \<open>format\<close> turns them into). \<open>[10]\<close> is a newline,
  \<open>[39]\<close> an apostrophe, and \<open>[226, 8364, 8220]\<close> are the three code points the source
  file holds where a dash was meant.
\<close>

definition STORY_WRITER_PROMPT :: "pystr \<Rightarrow> pystr" where
  \<open>STORY_WRITER_PROMPT user_request = concat
     [[10],
      ustr ''You are an expert children'' @ [39] @ ustr ''s author.'' @ [10],
      [10],
      ustr ''Write a bedtime story for a child aged between 5 and 10 years old.'' @ [10],
      [10],
      ustr ''Requirements:'' @ [10],
      ustr ''- The story must be gentle, kind, and emotionally safe.'' @ [10],
      ustr ''- Use simple, concrete language that a 2nd'' @ [226, 8364, 8220] @ ustr ''4th grader can understand.'' @ [10],
      ustr ''- Length: about 350'' @ [226, 8364, 8220] @ ustr ''600 words.'' @ [10],
      ustr ''- Clear beginning, middle, and end.'' @ [10],
      ustr ''- A small, non-scary problem that gets resolved positively.'' @ [10],
      ustr ''- Include a short 1'' @ [226, 8364, 8220] @ ustr ''2 sentence moral at the end starting with "Moral:".'' @ [10],
      [10],
      ustr ''The child'' @ [39] @ ustr ''s story request is:'' @ [10],
      ustr ''"'',
      user_request,
      ustr ''"'' @ [10],
      [10],
      ustr ''Now write ONLY the story. Do not add any explanation or commentary.'' @ [10]]\<close>

definition JUDGE_PROMPT :: "pystr \<Rightarrow> pystr" where
  \<open>JUDGE_PROMPT story = concat
     [[10],
      ustr ''You are a strict but kind editorial judge for children'' @ [39] @ ustr ''s bedtime stories (ages 5'' @ [226, 8364, 8220] @ ustr ''10).'' @ [10],
      [10],
      ustr ''Your job is to review the story below and return a JSON object ONLY, with no extra text.'' @ [10],
      [10],
      ustr ''Evaluate the story on:'' @ [10],
      ustr ''- clarity (0'' @ [226, 8364, 8220] @ ustr ''10)'' @ [10],
      ustr ''- age_appropriateness (0'' @ [226, 8364, 8220] @ ustr ''10)'' @ [10],
      ustr ''- emotional_safety (0'' @ [226, 8364, 8220] @ ustr ''10)'' @ [10],
      ustr ''- creativity (0'' @ [226, 8364, 8220] @ ustr ''10)'' @ [10],
      ustr ''- narrative_structure (0'' @ [226, 8364, 8220] @ ustr ''10)'' @ [10],
      [10],
      ustr ''Also include:'' @ [10],
      ustr ''- total_score: sum of the five scores'' @ [10],
      ustr ''- issues: a short list of strings describing concrete problems'' @ [10],
      ustr ''- suggested_fixes: a short list of specific, actionable improvements'' @ [10],
      [10],
      ustr ''Return JSON in this format ONLY:'' @ [10],
      ustr ''{'' @ [10],
      ustr ''  "clarity": 9,'' @ [10],
      ustr ''  "age_appropriateness": 10,'' @ [10],
      ustr ''  "emotional_safety": 9,'' @ [10],
      ustr ''  "creativity": 8,'' @ [10],
      ustr ''  "narrative_structure": 9,'' @ [10],
      ustr ''  "total_score": 45,'' @ [10],
      ustr ''  "issues": ["issue 1", "issue 2"],'' @ [10],
      ustr ''  "suggested_fixes": ["fix 1", "fix 2"]'' @ [10],
      ustr ''}'' @ [10],
      [10],
      ustr ''Here is the story to judge:'' @ [10],
      ustr ''"""'',
      story,
      ustr ''"""'' @ [10]]\<close>

definition REVISION_PROMPT :: "pystr \<Rightarrow> pystr \<Rightarrow> pystr \<Rightarrow> pystr" where
  \<open>REVISION_PROMPT story issues fixes = concat
     [[10],
      ustr ''You are revising a children'' @ [39] @ ustr ''s bedtime story for ages 5'' @ [226, 8364, 8220] @ ustr ''10.'' @ [10],
      [10],
      ustr ''Original story:'' @ [10],
      ustr ''"""'',
      story,
      ustr ''"""'' @ [10],
      [10],
      ustr ''Feedback from a quality judge:'' @ [10],
      [10],
      ustr ''Issues:'' @ [10],
      issues,
      [10],
      [10],
      ustr ''Suggested fixes:'' @ [10],
      fixes,
      [10],
      [10],
      ustr ''Rewrite the story to address this feedback while:'' @ [10],
      ustr ''- Keeping it between 350'' @ [226, 8364, 8220] @ ustr ''600 words'' @ [10],
      ustr ''- Preserving the core theme and characters'' @ [10],
      ustr ''- Making it even clearer, kinder, and more engaging'' @ [10],
      ustr ''- Ending with a short moral that starts with "Moral:"'' @ [10],
      [10],
      ustr ''Return ONLY the improved story, with no explanation or comments.'' @ [10]]\<close>

definition USER_FEEDBACK_PROMPT :: "pystr \<Rightarrow> pystr \<Rightarrow> pystr" where
  \<open>USER_FEEDBACK_PROMPT story feedback = concat
     [[10],
      ustr ''You are a children'' @ [39] @ ustr ''s story rewriter.'' @ [10],
      [10],
      ustr ''Here is the current story:'' @ [10],
      ustr ''"""'',
      story,
      ustr ''"""'' @ [10],
      [10],
      ustr ''Here is additional feedback from the human reader:'' @ [10],
      ustr ''"""'',
      feedback,
      ustr ''"""'' @ [10],
      [10],
      ustr ''Rewrite the story to incorporate this feedback while:'' @ [10],
      ustr ''- Keeping it appropriate and emotionally safe for ages 5'' @ [226, 8364, 8220] @ ustr ''10'' @ [10],
      ustr ''- Keeping roughly the same length'' @ [10],
      ustr ''- Keeping a clear beginning, middle, and end'' @ [10],
      ustr ''- Ending with a moral starting with "Moral:"'' @ [10],
      [10],
      ustr ''Return ONLY the new story.'' @ [10]]\<close>


section \<open>Reading evaluation records\<close>

text \<open>\<open>d.get(k, default)\<close>; only a \<open>dict\<close> has the method.\<close>

fun dict_get :: "json \<Rightarrow> pystr \<Rightarrow> json \<Rightarrow> exn + json" where
  "dict_get (JObj kvs) k d = Inr (case map_of kvs k of None \<Rightarrow> d | Some v \<Rightarrow> v)"
| "dict_get _ k d = Inl AttributeError"

text \<open>
  Iterating a value: a list gives its items, a string its characters, a dict its keys;
  nothing else is iterable.
\<close>

fun py_iter :: "json \<Rightarrow> exn + json list" where
  "py_iter (JArr xs) = Inr xs"
| "py_iter (JStr s) = Inr (map (\<lambda>c. JStr [c]) s)"
| "py_iter (JObj kvs) = Inr (map (\<lambda>kv. JStr (fst kv)) kvs)"
| "py_iter _ = Inl TypeError"

text \<open>Decimal digits of a natural number; \<open>str\<close> of an integer.\<close>

fun digits :: "nat \<Rightarrow> pystr" where
  "digits n = (if n < 10 then [48 + n] else digits (n div 10) @ [48 + n mod 10])"

definition str_int :: "int \<Rightarrow> pystr" where
  "str_int i = (if i < 0 then 45 # digits (nat (- i)) else digits (nat i))"

text \<open>
  \<open>str(v)\<close>, which \<open>print\<close> and f-strings apply: a string is itself; floats, lists and
  dicts print as the library's \<open>repr\<close>.
\<close>

fun py_str :: "pylib \<Rightarrow> json \<Rightarrow> pystr" where
  "py_str L (JStr s) = s"
| "py_str L JNull = ustr ''None''"
| "py_str L (JBool b) = (if b then ustr ''True'' else ustr ''False'')"
| "py_str L (JInt i) = str_int i"
| "py_str L v = py_repr L v"

text \<open>
  \<open>v < m\<close> for an integer \<open>m\<close>: defined on numbers (\<open>bool\<close> is a kind of \<open>int\<close>; a float
  is compared by its exact value, NaN is below nothing), \<open>TypeError\<close> otherwise.
\<close>

fun float_lt_int :: "pyfloat \<Rightarrow> int \<Rightarrow> bool" where
  "float_lt_int (Finite q) m = (q < of_int m)"
| "float_lt_int NegZero m = (0 < m)"
| "float_lt_int PosInf m = False"
| "float_lt_int NegInf m = True"
| "float_lt_int NaN m = False"

fun py_lt_int :: "json \<Rightarrow> int \<Rightarrow> exn + bool" where
  "py_lt_int (JInt i) m = Inr (i < m)"
| "py_lt_int (JBool b) m = Inr ((if b then 1 else 0) < m)"
| "py_lt_int (JFloat f) m = Inr (float_lt_int f m)"
| "py_lt_int _ m = Inl TypeError"

section \<open>The agents\<close>

definition generate_initial_story :: "pystr \<Rightarrow> world \<Rightarrow> (exn + pystr) \<times> world" where
  "generate_initial_story user_request w =
     call_model (STORY_WRITER_PROMPT user_request) 900 (8 / 10) w"

definition judge_story :: "pylib \<Rightarrow> pystr \<Rightarrow> world \<Rightarrow> (exn + json) \<times> world" where
  "judge_story L story w =
     (case call_model (JUDGE_PROMPT story) 600 (2 / 10) w of
        (Inl e, w') \<Rightarrow> (Inl e, w')
      | (Inr raw, w') \<Rightarrow> (parse_judge_response L raw, w'))"

text \<open>\<open>"\n".join(f"- {i}" for i in v)\<close>, the expression \<open>revise_story\<close> uses twice.\<close>

definition bullets :: "pylib \<Rightarrow> json \<Rightarrow> exn + pystr" where
  "bullets L v =
     (case py_iter v of
        Inl e \<Rightarrow> Inl e
      | Inr xs \<Rightarrow> Inr (str_join [10] (map (\<lambda>i. ustr ''- '' @ py_str L i) xs)))"

text \<open>\<open>a or b\<close> for strings: \<open>b\<close> when \<open>a\<close> is empty.\<close>

definition py_or :: "pystr \<Rightarrow> pystr \<Rightarrow> pystr" where
  "py_or a b = (if a = [] then b else a)"

definition revise_story :: "pylib \<Rightarrow> pystr \<Rightarrow> json \<Rightarrow> world \<Rightarrow> (exn + pystr) \<times> world" where
  "revise_story L story judge_data w =
     (case dict_get judge_data (ustr ''issues'') (JArr []) of
        Inl e \<Rightarrow> (Inl e, w)
      | Inr iv \<Rightarrow>
     (case bullets L iv of
        Inl e \<Rightarrow> (Inl e, w)
      | Inr issues_text \<Rightarrow>
     (case dict_get judge_data (ustr ''suggested_fixes'') (JArr []) of
        Inl e \<Rightarrow> (Inl e, w)
      | Inr fv \<Rightarrow>
     (case bullets L fv of
        Inl e \<Rightarrow> (Inl e, w)
      | Inr fixes_text \<Rightarrow>
          call_model
            (REVISION_PROMPT story
               (py_or issues_text (ustr ''- (no issues listed)''))
               (py_or fixes_text (ustr ''- (no fixes listed)'')))
            900 (7 / 10) w))))"

section \<open>The refinement controller\<close>

text \<open>
  The three \<open>print\<close> calls under \<open>if verbose\<close>, after the header line \<open>header\<close>:
  \<open>get\<close> without a default gives \<open>None\<close> for a missing key.
\<close>

definition report_round :: "pylib \<Rightarrow> pystr \<Rightarrow> json \<Rightarrow> world \<Rightarrow> (exn + unit) \<times> world" where
  "report_round L header judge_data w =
     (let w1 = py_print [header] w
      in case dict_get judge_data (ustr ''total_score'') JNull of
           Inl e \<Rightarrow> (Inl e, w1)
         | Inr sc \<Rightarrow>
             (let w2 = py_print [ustr ''Score:'', py_str L sc] w1
              in case dict_get judge_data (ustr ''issues'') JNull of
                   Inl e \<Rightarrow> (Inl e, w2)
                 | Inr iv \<Rightarrow> (Inr (), py_print [ustr ''Issues:'', py_str L iv, [10]] w2)))"

text \<open>\<open>judge_data.get("total_score", 0) < min_score\<close>, the first conjunct of the loop test.\<close>

definition score_below :: "json \<Rightarrow> int \<Rightarrow> exn + bool" where
  "score_below judge_data min_score =
     (case dict_get judge_data (ustr ''total_score'') (JInt 0) of
        Inl e \<Rightarrow> Inl e
      | Inr sc \<Rightarrow> py_lt_int sc min_score)"

text \<open>
  The \<open>while\<close> loop of \<open>story_pipeline\<close>, from the state \<open>(round_idx, story, judge_data)\<close>;
  it returns the state it ends in. The score comparison is evaluated first (and may
  raise), then \<open>round_idx < max_rounds\<close>.
\<close>

function refine_loop ::
  "pylib \<Rightarrow> int \<Rightarrow> int \<Rightarrow> bool \<Rightarrow> int \<Rightarrow> pystr \<Rightarrow> json \<Rightarrow> world
     \<Rightarrow> (exn + int \<times> pystr \<times> json) \<times> world" where
  "refine_loop L min_score max_rounds verbose round_idx story judge_data w =
     (case score_below judge_data min_score of
        Inl e \<Rightarrow> (Inl e, w)
      | Inr below \<Rightarrow>
          if below \<and> round_idx < max_rounds then
            (case revise_story L story judge_data w of
               (Inl e, w1) \<Rightarrow> (Inl e, w1)
             | (Inr story', w1) \<Rightarrow>
            (case judge_story L story' w1 of
               (Inl e, w2) \<Rightarrow> (Inl e, w2)
             | (Inr judge_data', w2) \<Rightarrow>
            (case (if verbose
                   then report_round L
                          (ustr ''--- Judge evaluation: round '' @ str_int (round_idx + 1)
                             @ ustr '' ---'')
                          judge_data' w2
                   else (Inr (), w2)) of
               (Inl e, w3) \<Rightarrow> (Inl e, w3)
             | (Inr u, w3) \<Rightarrow>
                 refine_loop L min_score max_rounds verbose (round_idx + 1) story' judge_data' w3)))
          else (Inr (round_idx, story, judge_data), w))"
  by pat_completeness auto
termination
  by (relation "measure (\<lambda>(L, min_score, max_rounds, verbose, round_idx, story, judge_data, w).
        nat (max_rounds - round_idx))") auto

declare refine_loop.simps [simp del]

definition story_pipeline ::
  "pylib \<Rightarrow> pystr \<Rightarrow> int \<Rightarrow> int \<Rightarrow> bool \<Rightarrow> world \<Rightarrow> (exn + pystr \<times> json) \<times> world" where
  "story_pipeline L user_request min_score max_rounds verbose w =
     (case generate_initial_story user_request w of
        (Inl e, w1) \<Rightarrow> (Inl e, w1)
      | (Inr story, w1) \<Rightarrow>
     (case judge_story L story w1 of
        (Inl e, w2) \<Rightarrow> (Inl e, w2)
      | (Inr judge_data, w2) \<Rightarrow>
     (case (if verbose
            then report_round L ([10] @ ustr ''--- Judge evaluation: round 1 ---'') judge_data w2
            else (Inr (), w2)) of
        (Inl e, w3) \<Rightarrow> (Inl e, w3)
      | (Inr u, w3) \<Rightarrow>
     (case refine_loop L min_score max_rounds verbose 1 story judge_data w3 of
        (Inl e, w4) \<Rightarrow> (Inl e, w4)
      | (Inr (round_idx, story', judge_data'), w4) \<Rightarrow> (Inr (story', judge_data'), w4)))))"

section \<open>The console session\<close>

text \<open>Truth value of a Python value, as \<open>if v:\<close> takes it.\<close>

fun py_truthy :: "json \<Rightarrow> bool" where
  "py_truthy JNull = False"
| "py_truthy (JBool b) = b"
| "py_truthy (JInt i) = (i \<noteq> 0)"
| "py_truthy (JFloat f) = (f \<noteq> Finite 0 \<and> f \<noteq> NegZero)"
| "py_truthy (JStr s) = (s \<noteq> [])"
| "py_truthy (JArr xs) = (xs \<noteq> [])"
| "py_truthy (JObj kvs) = (kvs \<noteq> [])"

text \<open>\<open>sep.join(v)\<close>: \<open>v\<close> must be iterable and every item a string.\<close>

fun str_items :: "json list \<Rightarrow> exn + pystr list" where
  "str_items [] = Inr []"
| "str_items (JStr s # xs) = (case str_items xs of Inl e \<Rightarrow> Inl e | Inr ss \<Rightarrow> Inr (s # ss))"
| "str_items (v # xs) = Inl TypeError"

definition join_strs :: "pystr \<Rightarrow> json \<Rightarrow> exn + pystr" where
  "join_strs sep v =
     (case py_iter v of
        Inl e \<Rightarrow> Inl e
      | Inr xs \<Rightarrow> (case str_items xs of Inl e \<Rightarrow> Inl e | Inr ss \<Rightarrow> Inr (str_join sep ss)))"

text \<open>
  The \<open>if issues: ... else: ...\<close> block that \<open>main\<close> has three times, with the headings
  \<open>Internal judge issues for this story:\<close>, \<open>Final judge issues:\<close> and \<open>Issues:\<close>.
\<close>

definition print_issues :: "pystr \<Rightarrow> json \<Rightarrow> world \<Rightarrow> (exn + unit) \<times> world" where
  "print_issues heading issues w =
     (if py_truthy issues then
        (let w1 = py_print [heading] w
         in case join_strs ([10] @ ustr ''- '') issues of
              Inl e \<Rightarrow> (Inl e, w1)
            | Inr t \<Rightarrow> (Inr (), py_print [ustr ''- '' @ t] w1))
      else (Inr (), py_print [heading @ ustr '' (none reported)''] w))"

text \<open>\<open>str.isspace\<close> of one character, and \<open>str.strip()\<close>.\<close>

definition py_isspace :: "nat \<Rightarrow> bool" where
  "py_isspace c =
     ((9 \<le> c \<and> c \<le> 13) \<or> (28 \<le> c \<and> c \<le> 32) \<or> c = 133 \<or> c = 160 \<or> c = 5760
      \<or> (8192 \<le> c \<and> c \<le> 8202) \<or> c = 8232 \<or> c = 8233 \<or> c = 8239 \<or> c = 8287
      \<or> c = 12288)"

definition py_strip :: "pystr \<Rightarrow> pystr" where
  "py_strip s = rev (dropWhile py_isspace (rev (dropWhile py_isspace s)))"

text \<open>The texts \<open>main\<close> passes to \<open>input\<close>.\<close>

definition REQUEST_QUESTION :: pystr where
  \<open>REQUEST_QUESTION = ustr ''What kind of story would you like?'' @ [10] @ ustr ''(For example: '' @ [39] @ ustr ''A dragon who is afraid of the dark but learns to be brave'' @ [39] @ ustr '')'' @ [10] @ ustr ''> ''\<close>

definition FEEDBACK_QUESTION :: pystr where
  \<open>FEEDBACK_QUESTION = ustr ''Optional: Would you like to tweak the story again?'' @ [10] @ ustr ''Type feedback like '' @ [39] @ ustr ''shorter'' @ [39] @ ustr '', '' @ [39] @ ustr ''more funny'' @ [39] @ ustr '', '' @ [39] @ ustr ''add a talking cat'' @ [39] @ ustr '', or press Enter with no text to finish.'' @ [10] @ ustr ''> ''\<close>

text \<open>
  One pass of the feedback loop for a non-empty \<open>user_feedback\<close>: rewrite, judge, show.
  It returns the new \<open>(current_story, current_judge_data)\<close>.
\<close>

definition feedback_cycle ::
  "pylib \<Rightarrow> pystr \<Rightarrow> pystr \<Rightarrow> world \<Rightarrow> (exn + pystr \<times> json) \<times> world" where
  "feedback_cycle L user_feedback current_story w =
     (case call_model (USER_FEEDBACK_PROMPT current_story user_feedback) 900 (7 / 10) w of
        (Inl e, w1) \<Rightarrow> (Inl e, w1)
      | (Inr updated_story, w1) \<Rightarrow>
     (case judge_story L updated_story w1 of
        (Inl e, w2) \<Rightarrow> (Inl e, w2)
      | (Inr updated_judge_data, w2) \<Rightarrow>
          (let w3 = py_print [[10] @ ustr ''========= UPDATED STORY ========='' @ [10]] w2;
               w4 = py_print [updated_story] w3;
               w5 = py_print [[10] @ ustr ''================================='' @ [10]] w4;
               w6 = py_print [ustr ''--- Judge evaluation for updated story ---''] w5
           in case dict_get updated_judge_data (ustr ''total_score'') JNull of
                Inl e \<Rightarrow> (Inl e, w6)
              | Inr sc \<Rightarrow>
                  (let w7 = py_print [ustr ''Total score:'', py_str L sc] w6
                   in case dict_get updated_judge_data (ustr ''issues'') (JArr []) of
                        Inl e \<Rightarrow> (Inl e, w7)
                      | Inr issues \<Rightarrow>
                          (case print_issues (ustr ''Issues:'') issues w7 of
                             (Inl e, w8) \<Rightarrow> (Inl e, w8)
                           | (Inr u, w8) \<Rightarrow>
                               (Inr (updated_story, updated_judge_data), py_print [] w8))))))"

text \<open>The \<open>if not user_feedback:\<close> branch: the final report, then \<open>break\<close>.\<close>

definition final_report :: "pylib \<Rightarrow> json \<Rightarrow> world \<Rightarrow> (exn + unit) \<times> world" where
  "final_report L current_judge_data w =
     (let w1 = py_print [[10] @ ustr ''No more changes requested.''] w
      in case dict_get current_judge_data (ustr ''total_score'') JNull of
           Inl e \<Rightarrow> (Inl e, w1)
         | Inr sc \<Rightarrow>
             (let w2 = py_print [ustr ''Final internal judge score:'', py_str L sc] w1
              in case dict_get current_judge_data (ustr ''issues'') (JArr []) of
                   Inl e \<Rightarrow> (Inl e, w2)
                 | Inr final_issues \<Rightarrow>
                     (case print_issues (ustr ''Final judge issues:'') final_issues w2 of
                        (Inl e, w3) \<Rightarrow> (Inl e, w3)
                      | (Inr u, w3) \<Rightarrow> (Inr (), py_print [ustr ''Goodnight! '' @ [240, 376, 338, 8482]] w3))))"

text \<open>
  The \<open>while True\<close> loop of \<open>main\<close>. \<open>lines\<close> are the lines the console will supply to
  \<open>input\<close>, which raises \<open>EOFError\<close> when there is none left. The loop returns the pair
  \<open>(current_story, current_judge_data)\<close> it ends with.
\<close>

fun feedback_loop ::
  "pylib \<Rightarrow> pystr list \<Rightarrow> pystr \<Rightarrow> json \<Rightarrow> world \<Rightarrow> (exn + pystr \<times> json) \<times> world" where
  "feedback_loop L [] current_story current_judge_data w =
     (Inl EOFError, w\<lparr>stdout := stdout w @ [FEEDBACK_QUESTION]\<rparr>)"
| "feedback_loop L (line # lines) current_story current_judge_data w =
     (let w0 = w\<lparr>stdout := stdout w @ [FEEDBACK_QUESTION]\<rparr>;
          user_feedback = py_strip line
      in if user_feedback = [] then
           (case final_report L current_judge_data w0 of
              (Inl e, w1) \<Rightarrow> (Inl e, w1)
            | (Inr u, w1) \<Rightarrow> (Inr (current_story, current_judge_data), w1))
         else
           (case feedback_cycle L user_feedback current_story w0 of
              (Inl e, w1) \<Rightarrow> (Inl e, w1)
            | (Inr (updated_story, updated_judge_data), w1) \<Rightarrow>
                feedback_loop L lines updated_story updated_judge_data w1))"

text \<open>
  \<open>main\<close>, against the lines the console will supply. It starts by printing the welcome
  line and writing the question of the first \<open>input\<close> (\<open>greeting\<close>).
\<close>

definition greeting :: "world \<Rightarrow> world" where
  "greeting w =
     (let w0 = py_print [ustr ''Welcome to the Bedtime Story Maker (ages 5'' @ [226, 8364, 8220]
                           @ ustr ''10) '' @ [240, 376, 338, 8482, 10]] w
      in w0\<lparr>stdout := stdout w0 @ [REQUEST_QUESTION]\<rparr>)"

definition main :: "pylib \<Rightarrow> pystr list \<Rightarrow> world \<Rightarrow> (exn + unit) \<times> world" where
  "main L lines w =
     (let w1 = greeting w
      in case lines of
           [] \<Rightarrow> (Inl EOFError, w1)
         | user_request # lines' \<Rightarrow>
      (case story_pipeline L user_request 40 3 True w1 of
         (Inl e, w2) \<Rightarrow> (Inl e, w2)
       | (Inr (final_story, final_judge_data), w2) \<Rightarrow>
           (let w3 = py_print [[10] @ ustr ''================= YOUR BEDTIME STORY ================='' @ [10]] w2;
                w4 = py_print [final_story] w3;
                w5 = py_print [[10] @ ustr ''======================================================''] w4
            in case dict_get final_judge_data (ustr ''total_score'') JNull of
                 Inl e \<Rightarrow> (Inl e, w5)
               | Inr sc \<Rightarrow>
                   (let w6 = py_print [ustr ''(Internal judge total score: '' @ py_str L sc @ ustr '')''] w5
                    in case dict_get final_judge_data (ustr ''issues'') (JArr []) of
                         Inl e \<Rightarrow> (Inl e, w6)
                       | Inr original_issues \<Rightarrow>
                           (case print_issues (ustr ''Internal judge issues for this story:'')
                                   original_issues w6 of
                              (Inl e, w7) \<Rightarrow> (Inl e, w7)
                            | (Inr u, w7) \<Rightarrow>
                                (case feedback_loop L lines' final_story final_judge_data
                                        (py_print [] w7) of
                                   (Inl e, w8) \<Rightarrow> (Inl e, w8)
                                 | (Inr r, w8) \<Rightarrow> (Inr (), w8)))))))"

section \<open>Evaluation records and the call log\<close>

text \<open>
  An evaluation record as the data model has it, each field optional: a dict whose
  \<open>total_score\<close> is an \<open>int\<close>, and whose \<open>issues\<close> and \<open>suggested_fixes\<close> are lists of
  strings.
\<close>

fun is_int :: "json \<Rightarrow> bool" where
  "is_int (JInt i) = True"
| "is_int v = False"

fun is_str :: "json \<Rightarrow> bool" where
  "is_str (JStr s) = True"
| "is_str v = False"

fun is_str_list :: "json \<Rightarrow> bool" where
  "is_str_list (JArr xs) = list_all is_str xs"
| "is_str_list v = False"

fun field_ok :: "(json \<Rightarrow> bool) \<Rightarrow> json option \<Rightarrow> bool" where
  "field_ok P None = True"
| "field_ok P (Some v) = P v"

fun evaluation_record :: "json \<Rightarrow> bool" where
  "evaluation_record (JObj kvs) =
     (field_ok is_int (map_of kvs (ustr ''total_score''))
      \<and> field_ok is_str_list (map_of kvs (ustr ''issues''))
      \<and> field_ok is_str_list (map_of kvs (ustr ''suggested_fixes'')))"
| "evaluation_record v = False"

text \<open>
  What the code needs of a record, field by field. The loop test can compare a
  \<open>total_score\<close> that is missing or a number (\<open>scored\<close>; NaN is left out because it is
  neither below nor at least any threshold). \<open>revise_story\<close> can iterate \<open>issues\<close> and
  \<open>suggested_fixes\<close> that are missing or a list, a string or a dict (\<open>revisable\<close>). The
  issue reports of \<open>main\<close> can print \<open>issues\<close> that are missing, false as a truth value,
  or made of strings: a list of strings, a string or a dict (\<open>printable\<close>).
\<close>

fun is_number :: "json \<Rightarrow> bool" where
  "is_number (JInt i) = True"
| "is_number (JBool b) = True"
| "is_number (JFloat f) = (f \<noteq> NaN)"
| "is_number v = False"

fun iterable :: "json \<Rightarrow> bool" where
  "iterable (JArr xs) = True"
| "iterable (JStr s) = True"
| "iterable (JObj kvs) = True"
| "iterable v = False"

fun joinable :: "json \<Rightarrow> bool" where
  "joinable (JArr xs) = list_all is_str xs"
| "joinable (JStr s) = True"
| "joinable (JObj kvs) = True"
| "joinable v = False"

definition issues_ok :: "json \<Rightarrow> bool" where
  "issues_ok v = (if py_truthy v then joinable v else True)"

fun scored :: "json \<Rightarrow> bool" where
  "scored (JObj kvs) = field_ok is_number (map_of kvs (ustr ''total_score''))"
| "scored v = False"

fun revisable :: "json \<Rightarrow> bool" where
  "revisable (JObj kvs) =
     (field_ok iterable (map_of kvs (ustr ''issues''))
      \<and> field_ok iterable (map_of kvs (ustr ''suggested_fixes'')))"
| "revisable v = False"

fun printable :: "json \<Rightarrow> bool" where
  "printable (JObj kvs) = field_ok issues_ok (map_of kvs (ustr ''issues''))"
| "printable v = False"

text \<open>
  \<open>total_score >= min_score\<close> as the specification words the stopping rule, on the
  value the controller reads (0 for a missing key): true of no value that is not a
  number, and of no NaN.
\<close>

fun float_ge_int :: "pyfloat \<Rightarrow> int \<Rightarrow> bool" where
  "float_ge_int (Finite q) m = (of_int m \<le> q)"
| "float_ge_int NegZero m = (m \<le> 0)"
| "float_ge_int PosInf m = True"
| "float_ge_int NegInf m = False"
| "float_ge_int NaN m = False"

fun num_ge :: "json \<Rightarrow> int \<Rightarrow> bool" where
  "num_ge (JInt i) m = (m \<le> i)"
| "num_ge (JBool b) m = (m \<le> (if b then 1 else 0))"
| "num_ge (JFloat f) m = float_ge_int f m"
| "num_ge v m = False"

definition score_ge :: "json \<Rightarrow> int \<Rightarrow> bool" where
  "score_ge judge_data min_score =
     (case dict_get judge_data (ustr ''total_score'') (JInt 0) of
        Inl e \<Rightarrow> False
      | Inr sc \<Rightarrow> num_ge sc min_score)"

text \<open>The score the controller reads from a record: the field, or 0 when it is missing.\<close>

fun total_score_of :: "json \<Rightarrow> int" where
  "total_score_of (JObj kvs) =
     (case map_of kvs (ustr ''total_score'') of Some (JInt i) \<Rightarrow> i | _ \<Rightarrow> 0)"
| "total_score_of v = 0"

text \<open>
  The callers of \<open>call_model\<close> differ in their sampling parameters: \<open>judge_story\<close> alone
  asks for 600 tokens at temperature 0.2, \<open>generate_initial_story\<close> alone for temperature
  0.8, and the two rewriting calls (\<open>revise_story\<close>, the feedback rewrite) for 900 tokens
  at 0.7. The log is counted by them.
\<close>

definition is_judge_call :: "exchange \<Rightarrow> bool" where
  "is_judge_call c = (max_tokens c = 600 \<and> temperature c = 2 / 10)"

definition is_rewrite_call :: "exchange \<Rightarrow> bool" where
  "is_rewrite_call c = (max_tokens c = 900 \<and> temperature c = 7 / 10)"

definition judge_calls :: "world \<Rightarrow> nat" where
  "judge_calls w = length (filter is_judge_call (calls w))"

definition rewrite_calls :: "world \<Rightarrow> nat" where
  "rewrite_calls w = length (filter is_rewrite_call (calls w))"

text \<open>
  The replies of the gateway for a run of rounds, each round a story followed by the
  judge's raw answer to it.
\<close>

fun script :: "(pystr \<times> pystr) list \<Rightarrow> pystr list" where
  "script [] = []"
| "script ((story, raw) # rounds) = story # raw # script rounds"

text \<open>
  The round count as the specification words it, over the evaluation records of the
  successive rounds: \<open>first_passing_round\<close> is the first 1-based index of a record whose
  \<open>total_score\<close> is at least \<open>min_score\<close> (one past the end when there is none), and
  \<open>claimed_evaluations\<close> is its minimum with \<open>max_rounds\<close>.
\<close>

definition first_passing_round :: "int \<Rightarrow> json list \<Rightarrow> nat" where
  "first_passing_round min_score jds =
     Suc (length (takeWhile (\<lambda>jd. \<not> score_ge jd min_score) jds))"

definition claimed_evaluations :: "int \<Rightarrow> int \<Rightarrow> json list \<Rightarrow> int" where
  "claimed_evaluations min_score max_rounds jds =
     min (int (first_passing_round min_score jds)) max_rounds"

text \<open>
  The evaluation \<open>judge_data\<close> is what \<open>judge_story\<close> made of \<open>story\<close>: the last exchange
  with the gateway is the judge's call on that story, and its reply parses to the record.
\<close>

definition judged_pair :: "pylib \<Rightarrow> world \<Rightarrow> pystr \<Rightarrow> json \<Rightarrow> bool" where
  "judged_pair L w story judge_data =
     (case rev (calls w) of
        [] \<Rightarrow> False
      | c # cs \<Rightarrow>
          prompt c = JUDGE_PROMPT story \<and> is_judge_call c
          \<and> (case reply c of
                Inl e \<Rightarrow> False
              | Inr raw \<Rightarrow> parse_judge_response L raw = Inr judge_data))"

text \<open>
  \<open>story\<close> is the last story the gateway produced: the reply of the exchange just before
  the last one, which is a judge call.
\<close>

definition latest_story :: "world \<Rightarrow> pystr \<Rightarrow> bool" where
  "latest_story w story =
     (case rev (calls w) of
        c2 # c1 # cs \<Rightarrow> is_judge_call c2 \<and> \<not> is_judge_call c1 \<and> reply c1 = Inr story
      | _ \<Rightarrow> False)"


text \<open>\<open>str(judge_data.get("total_score"))\<close>, as the reports print it.\<close>

definition score_text :: "pylib \<Rightarrow> json \<Rightarrow> pystr" where
  "score_text L judge_data =
     (case dict_get judge_data (ustr ''total_score'') JNull of
        Inl e \<Rightarrow> []
      | Inr sc \<Rightarrow> py_str L sc)"


text \<open>
  The exchanges the feedback loop is expected to make for the feedback texts \<open>fs\<close>: for
  each, one rewrite of the current story followed by one evaluation of the result.
\<close>

fun feedback_calls :: "pystr \<Rightarrow> pystr list \<Rightarrow> (pystr \<times> pystr) list \<Rightarrow> exchange list" where
  "feedback_calls current (f # fs) ((story, raw) # rounds) =
     \<lparr>prompt = USER_FEEDBACK_PROMPT current f, max_tokens = 900, temperature = 7 / 10,
      reply = Inr story\<rparr>
     # \<lparr>prompt = JUDGE_PROMPT story, max_tokens = 600, temperature = 2 / 10,
        reply = Inr raw\<rparr>
     # feedback_calls story fs rounds"
| "feedback_calls current fs rounds = []"

section \<open>A stub library for the worked examples\<close>

text \<open>
  The theorems below hold for every decoder. Their worked examples run with this one,
  which decodes the documents \<open>{"total_score": N}\<close> (\<open>N\<close> a run of decimal digits) and
  \<open>{}\<close>, and raises on everything else, the empty string included.
\<close>

definition stub_loads :: "pystr \<Rightarrow> exn + json" where
  \<open>stub_loads s =
     (let p = ustr ''{"total_score": ''; d = drop (length p) (butlast s)
      in if s = ustr ''{}'' then Inr (JObj [])
         else if take (length p) s = p \<and> last s = rbrace \<and> d \<noteq> []
                 \<and> list_all (\<lambda>c. 48 \<le> c \<and> c \<le> 57) d
         then Inr (JObj [(ustr ''total_score'',
                          JInt (int (foldl (\<lambda>a c. 10 * a + (c - 48)) 0 d)))])
         else Inl JSONDecodeError)\<close>

definition stub_lib :: pylib where
  "stub_lib = \<lparr>json_loads = stub_loads, py_repr = (\<lambda>v. ustr ''<value>'')\<rparr>"

text \<open>
  A second library for worked examples, which decodes a few more documents by table
  and prints the empty list as \<open>[]\<close>.
\<close>

definition table_docs :: "(pystr \<times> json) list" where
  \<open>table_docs =
     [(ustr ''{}'', JObj []),
      (ustr ''{"total_score": 50}'', JObj [(ustr ''total_score'', JInt 50)]),
      (ustr ''{"total_score": 10, "issues": null}'',
         JObj [(ustr ''total_score'', JInt 10), (ustr ''issues'', JNull)]),
      (ustr ''{"total_score": NaN}'', JObj [(ustr ''total_score'', JFloat NaN)]),
      (ustr ''{"total_score": null}'', JObj [(ustr ''total_score'', JNull)]),
      (ustr ''{"issues": [{}]}'', JObj [(ustr ''issues'', JArr [JObj []])])]\<close>

definition table_lib :: pylib where
  "table_lib =
     \<lparr>json_loads = (\<lambda>s. case map_of table_docs s of
                           None \<Rightarrow> Inl JSONDecodeError
                         | Some v \<Rightarrow> Inr v),
      py_repr = (\<lambda>v. if v = JArr [] then ustr ''[]'' else ustr ''<value>'')\<rparr>"

section \<open>Properties of the string operations\<close>

lemma str_find_None: "str_find s c = None \<longleftrightarrow> c \<notin> set s"
  by (induction s) auto

lemma str_find_append:
  "c \<notin> set pre \<Longrightarrow> str_find (pre @ c # rest) c = Some (length pre)"
  by (induction pre) auto

lemma str_index_absent: "c \<notin> set s \<Longrightarrow> str_index s c = Inl ValueError"
  by (simp add: str_index_def str_find_None [THEN iffD2])

lemma str_index_first:
  "c \<notin> set pre \<Longrightarrow> str_index (pre @ c # rest) c = Inr (length pre)"
  by (simp add: str_index_def str_find_append)

lemma str_rfind_absent: "c \<notin> set s \<Longrightarrow> str_rfind s c = - 1"
  by (induction s) (auto simp: Let_def)

lemma str_rfind_upper: "str_rfind s c < int (length s)"
  by (induction s) (auto simp: Let_def)

lemma str_rfind_last:
  "c \<notin> set suf \<Longrightarrow> str_rfind (pre @ c # suf) c = int (length pre)"
  by (induction pre) (auto simp: Let_def str_rfind_absent)

lemma str_rfind_prefix:
  "c \<notin> set suf \<Longrightarrow> str_rfind (pre @ suf) c = str_rfind pre c"
  by (induction pre) (auto simp: Let_def str_rfind_absent)

lemma first_lbrace_split:
  assumes "c \<in> set raw"
  shows "\<exists>pre rest. raw = pre @ c # rest \<and> c \<notin> set pre
           \<and> dropWhile (\<lambda>x. x \<noteq> c) raw = c # rest"
proof -
  from assms obtain pre rest where r: "raw = pre @ c # rest" and p: "c \<notin> set pre"
    by (meson split_list_first)
  from p have "dropWhile (\<lambda>x. x \<noteq> c) (pre @ c # rest) = c # rest"
    by (induction pre) auto
  with r p show ?thesis by blast
qed

lemma str_slice_empty: "j \<le> i \<Longrightarrow> 0 \<le> j \<Longrightarrow> str_slice s i j = []"
  by (simp add: str_slice_def slice_bound_def Let_def)

lemma str_slice_middle:
  "str_slice (pre @ mid @ suf) (int (length pre)) (int (length pre + length mid)) = mid"
  by (simp add: str_slice_def slice_bound_def Let_def)

lemma json_str_no_lbrace: "lbrace \<notin> set raw \<Longrightarrow> json_str raw = Inl ValueError"
  by (simp add: json_str_def str_index_absent)

lemma json_str_no_pair:
  assumes "lbrace \<in> set raw" and "no_brace_pair raw"
  shows "json_str raw = Inr []"
proof -
  from first_lbrace_split [OF assms(1)] obtain pre rest
    where r: "raw = pre @ lbrace # rest" and p: "lbrace \<notin> set pre"
      and d: "dropWhile (\<lambda>x. x \<noteq> lbrace) raw = lbrace # rest"
    by blast
  from assms(2) d have nr: "rbrace \<notin> set (lbrace # rest)"
    by (simp add: no_brace_pair_def)
  have i: "str_index raw lbrace = Inr (length pre)"
    using p r by (simp add: str_index_first)
  have "str_rfind raw rbrace = str_rfind pre rbrace"
    using nr r str_rfind_prefix [of rbrace "lbrace # rest" pre] by simp
  then have "str_rfind raw rbrace + 1 \<le> int (length pre)"
    using str_rfind_upper [of pre rbrace] by simp
  moreover have "- 1 \<le> str_rfind raw rbrace"
    by (induction raw) (auto simp: Let_def)
  ultimately have "str_slice raw (int (length pre)) (str_rfind raw rbrace + 1) = []"
    by (intro str_slice_empty) auto
  with i show ?thesis by (simp add: json_str_def Let_def)
qed

lemma json_str_span:
  assumes "lbrace \<notin> set prefix" and "rbrace \<notin> set suffix"
  shows "json_str (prefix @ lbrace # body @ rbrace # suffix) = Inr (lbrace # body @ [rbrace])"
proof -
  let ?raw = "prefix @ lbrace # body @ rbrace # suffix"
  have i: "str_index ?raw lbrace = Inr (length prefix)"
    using assms(1) by (simp add: str_index_first)
  have "str_rfind ((prefix @ lbrace # body) @ rbrace # suffix) rbrace
          = int (length (prefix @ lbrace # body))"
    using assms(2) by (rule str_rfind_last)
  then have e: "str_rfind ?raw rbrace + 1 = int (length prefix + length (lbrace # body @ [rbrace]))"
    by simp
  have "str_slice (prefix @ (lbrace # body @ [rbrace]) @ suffix) (int (length prefix))
          (int (length prefix + length (lbrace # body @ [rbrace]))) = lbrace # body @ [rbrace]"
    by (rule str_slice_middle)
  then have "str_slice ?raw (int (length prefix)) (str_rfind ?raw rbrace + 1)
          = lbrace # body @ [rbrace]"
    using e by simp
  with i show ?thesis by (simp add: json_str_def Let_def)
qed


section \<open>The response parser: theorems\<close>

lemma parse_judge_response_cases:
  "parse_judge_response L raw = Inr judge_fallback
   \<or> (\<exists>s v. json_str raw = Inr s \<and> json_loads L s = Inr v
          \<and> parse_judge_response L raw = Inr v)"
  by (auto simp: parse_judge_response_def split: sum.splits)

lemma parse_judge_response_failure:
  "json_str raw = Inl e \<or> (\<exists>s. json_str raw = Inr s \<and> json_loads L s = Inl e)
   \<Longrightarrow> parse_judge_response L raw = Inr judge_fallback"
  by (auto simp: parse_judge_response_def)

lemma no_brace_pair_json_str:
  "no_brace_pair raw \<Longrightarrow> json_str raw = Inl ValueError \<or> json_str raw = Inr []"
  using json_str_no_lbrace json_str_no_pair by blast

lemma stub_loads_empty: "json_loads stub_lib [] = Inl JSONDecodeError"
  by (simp add: stub_lib_def stub_loads_def ustr_def Let_def)

lemma stub_loads_25:
  \<open>json_loads stub_lib (ustr ''{"total_score": 25}'')
     = Inr (JObj [(ustr ''total_score'', JInt 25)])\<close>
  by (simp add: stub_lib_def stub_loads_def ustr_def Let_def rbrace_def)

text \<open>
  C3. Whenever parsing fails, \<open>parse_judge_response\<close> returns exactly the fallback
  record, with the five sub-scores and \<open>total_score\<close> 0, the one issue
  \<open>Could not parse judge response as JSON.\<close> and the one suggested fix: when the text
  has no \<open>{\<close> that a \<open>}\<close> follows (\<open>json.loads\<close> rejects the empty document the slice then
  is), and when \<open>json.loads\<close> raises any exception on the text between the braces.
\<close>

theorem parse_failure_returns_fallback:
  assumes "json_loads L [] = Inl e0"
    and "no_brace_pair raw \<or> (\<exists>s e. json_str raw = Inr s \<and> json_loads L s = Inl e)"
  shows "parse_judge_response L raw
    = Inr (JObj
           [(ustr ''clarity'', JInt 0),
            (ustr ''age_appropriateness'', JInt 0),
            (ustr ''emotional_safety'', JInt 0),
            (ustr ''creativity'', JInt 0),
            (ustr ''narrative_structure'', JInt 0),
            (ustr ''total_score'', JInt 0),
            (ustr ''issues'', JArr [JStr (ustr ''Could not parse judge response as JSON.'')]),
            (ustr ''suggested_fixes'',
               JArr [JStr (ustr
                 ''Regenerate the story with clearer structure, simpler language, and explicit moral.'')])])"
proof -
  from assms(2) consider "json_str raw = Inl ValueError" | "json_str raw = Inr []"
    | s e where "json_str raw = Inr s" "json_loads L s = Inl e"
    using no_brace_pair_json_str by blast
  then have "parse_judge_response L raw = Inr judge_fallback"
  proof cases
    case 1
    then show ?thesis by (simp add: parse_judge_response_def)
  next
    case 2
    with assms(1) show ?thesis by (simp add: parse_judge_response_def)
  next
    case 3
    then show ?thesis by (simp add: parse_judge_response_def)
  qed
  then show ?thesis by (simp only: judge_fallback_def)
qed

theorem parse_failure_returns_fallback_witness:
  \<open>json_loads stub_lib [] = Inl JSONDecodeError
   \<and> no_brace_pair (ustr ''I give it 9 } out of { 10'')
   \<and> parse_judge_response stub_lib (ustr ''I give it 9 } out of { 10'')
       = Inr (JObj
           [(ustr ''clarity'', JInt 0),
            (ustr ''age_appropriateness'', JInt 0),
            (ustr ''emotional_safety'', JInt 0),
            (ustr ''creativity'', JInt 0),
            (ustr ''narrative_structure'', JInt 0),
            (ustr ''total_score'', JInt 0),
            (ustr ''issues'', JArr [JStr (ustr ''Could not parse judge response as JSON.'')]),
            (ustr ''suggested_fixes'',
               JArr [JStr (ustr
                 ''Regenerate the story with clearer structure, simpler language, and explicit moral.'')])])
   \<and> json_str (ustr ''{"total_score": }'') = Inr (ustr ''{"total_score": }'')
   \<and> json_loads stub_lib (ustr ''{"total_score": }'') = Inl JSONDecodeError
   \<and> parse_judge_response stub_lib (ustr ''{"total_score": }'')
       = Inr (JObj
           [(ustr ''clarity'', JInt 0),
            (ustr ''age_appropriateness'', JInt 0),
            (ustr ''emotional_safety'', JInt 0),
            (ustr ''creativity'', JInt 0),
            (ustr ''narrative_structure'', JInt 0),
            (ustr ''total_score'', JInt 0),
            (ustr ''issues'', JArr [JStr (ustr ''Could not parse judge response as JSON.'')]),
            (ustr ''suggested_fixes'',
               JArr [JStr (ustr
                 ''Regenerate the story with clearer structure, simpler language, and explicit moral.'')])])\<close>
proof -
  have a: "json_loads stub_lib [] = Inl JSONDecodeError"
    by (rule stub_loads_empty)
  have b: "no_brace_pair (ustr ''I give it 9 } out of { 10'')"
    by (simp add: no_brace_pair_def ustr_def lbrace_def rbrace_def)
  have c: \<open>json_str (ustr ''{"total_score": }'') = Inr (ustr ''{"total_score": }'')\<close>
    by (simp add: json_str_def str_index_def str_slice_def slice_bound_def ustr_def
        lbrace_def rbrace_def Let_def)
  have d: \<open>json_loads stub_lib (ustr ''{"total_score": }'') = Inl JSONDecodeError\<close>
    by (simp add: stub_lib_def stub_loads_def ustr_def Let_def rbrace_def)
  from a b c d
    parse_failure_returns_fallback [of stub_lib JSONDecodeError "ustr ''I give it 9 } out of { 10''"]
    parse_failure_returns_fallback [of stub_lib JSONDecodeError \<open>ustr ''{"total_score": }''\<close>]
  show ?thesis by blast
qed

text \<open>
  C4. For a text \<open>prefix + "{" + body + "}" + suffix\<close> with no \<open>{\<close> in the prefix and no
  \<open>}\<close> in the suffix, where the braces enclose a document \<open>json.loads\<close> accepts, the
  parser returns the value decoded from \<open>"{" + body + "}"\<close> alone, unchanged; it is also
  what the parser returns on that document without prefix and suffix.
\<close>

theorem parse_embedded_object:
  assumes "lbrace \<notin> set prefix" and "rbrace \<notin> set suffix"
    and "json_loads L (lbrace # body @ [rbrace]) = Inr v"
  shows "parse_judge_response L (prefix @ lbrace # body @ rbrace # suffix) = Inr v
         \<and> parse_judge_response L (lbrace # body @ [rbrace]) = Inr v"
proof -
  have "json_str (prefix @ lbrace # body @ rbrace # suffix) = Inr (lbrace # body @ [rbrace])"
    using assms(1,2) by (rule json_str_span)
  moreover have "json_str ([] @ lbrace # body @ rbrace # []) = Inr (lbrace # body @ [rbrace])"
    by (rule json_str_span) simp_all
  ultimately show ?thesis
    using assms(3) by (simp add: parse_judge_response_def)
qed

theorem parse_embedded_object_witness:
  \<open>lbrace \<notin> set (ustr ''Here is my verdict: '')
   \<and> rbrace \<notin> set (ustr '' Hope this helps!'')
   \<and> json_loads stub_lib (lbrace # ustr ''"total_score": 25'' @ [rbrace])
        = Inr (JObj [(ustr ''total_score'', JInt 25)])
   \<and> parse_judge_response stub_lib
        (ustr ''Here is my verdict: '' @ lbrace # ustr ''"total_score": 25'' @ rbrace
           # ustr '' Hope this helps!'')
        = Inr (JObj [(ustr ''total_score'', JInt 25)])\<close>
proof -
  have a: "lbrace \<notin> set (ustr ''Here is my verdict: '')"
    by (simp add: ustr_def lbrace_def)
  have b: "rbrace \<notin> set (ustr '' Hope this helps!'')"
    by (simp add: ustr_def rbrace_def)
  have c: \<open>json_loads stub_lib (lbrace # ustr ''"total_score": 25'' @ [rbrace])
        = Inr (JObj [(ustr ''total_score'', JInt 25)])\<close>
    using stub_loads_25 by (simp add: ustr_def lbrace_def rbrace_def)
  from a b c parse_embedded_object [OF a b c] show ?thesis by blast
qed

text \<open>
  C8. The issue string of the fallback record holds no brace, so parsing it gives the
  fallback record again.
\<close>

theorem parse_fallback_issue_idempotent:
  "map_of (case judge_fallback of JObj kvs \<Rightarrow> kvs) (ustr ''issues'')
     = Some (JArr [JStr (ustr ''Could not parse judge response as JSON.'')])
   \<and> parse_judge_response L (ustr ''Could not parse judge response as JSON.'')
     = Inr judge_fallback"
proof -
  have "lbrace \<notin> set (ustr ''Could not parse judge response as JSON.'')"
    by (simp add: ustr_def lbrace_def)
  then have "json_str (ustr ''Could not parse judge response as JSON.'') = Inl ValueError"
    by (rule json_str_no_lbrace)
  then have "parse_judge_response L (ustr ''Could not parse judge response as JSON.'')
     = Inr judge_fallback"
    by (simp add: parse_judge_response_def)
  moreover have "map_of (case judge_fallback of JObj kvs \<Rightarrow> kvs) (ustr ''issues'')
     = Some (JArr [JStr (ustr ''Could not parse judge response as JSON.'')])"
    by (simp add: judge_fallback_def ustr_def)
  ultimately show ?thesis by blast
qed

text \<open>
  C9. \<open>parse_judge_response\<close> returns a value on every input and never raises: the
  result is the fallback record or the value \<open>json.loads\<close> decoded from the slice. When
  the last \<open>}\<close> lies before the first \<open>{\<close> (or there is no \<open>}\<close>, so that \<open>rfind\<close> gives
  \<open>-1\<close>) the slice is empty. Whatever exception the \<open>try\<close> body raises, from \<open>index\<close> or
  from \<open>json.loads\<close>, of any kind, the result is the fallback record.
\<close>

theorem parse_judge_response_total:
  "(\<exists>v. parse_judge_response L raw = Inr v
        \<and> (v = judge_fallback \<or> (\<exists>s. json_str raw = Inr s \<and> json_loads L s = Inr v)))
   \<and> (\<forall>start. str_index raw lbrace = Inr start \<and> str_rfind raw rbrace < int start
         \<longrightarrow> json_str raw = Inr [])
   \<and> (\<forall>e. json_str raw = Inl e \<or> (\<exists>s. json_str raw = Inr s \<and> json_loads L s = Inl e)
         \<longrightarrow> parse_judge_response L raw = Inr judge_fallback)"
proof (intro conjI allI impI)
  show "\<exists>v. parse_judge_response L raw = Inr v
        \<and> (v = judge_fallback \<or> (\<exists>s. json_str raw = Inr s \<and> json_loads L s = Inr v))"
    using parse_judge_response_cases [of L raw] by auto
next
  fix start
  assume a: "str_index raw lbrace = Inr start \<and> str_rfind raw rbrace < int start"
  have "- 1 \<le> str_rfind raw rbrace"
    by (induction raw) (auto simp: Let_def)
  with a have "str_slice raw (int start) (str_rfind raw rbrace + 1) = []"
    by (intro str_slice_empty) auto
  with a show "json_str raw = Inr []"
    by (simp add: json_str_def Let_def)
next
  fix e
  assume "json_str raw = Inl e \<or> (\<exists>s. json_str raw = Inr s \<and> json_loads L s = Inl e)"
  then show "parse_judge_response L raw = Inr judge_fallback"
    by (rule parse_judge_response_failure)
qed

theorem parse_judge_response_total_witness:
  "str_index (ustr ''} then {'') lbrace = Inr 7
   \<and> str_rfind (ustr ''} then {'') rbrace < int 7
   \<and> json_str (ustr ''} then {'') = Inr []
   \<and> json_loads stub_lib [] = Inl JSONDecodeError
   \<and> parse_judge_response stub_lib (ustr ''} then {'') = Inr judge_fallback"
proof -
  have a: "str_index (ustr ''} then {'') lbrace = Inr 7"
    by (simp add: str_index_def ustr_def lbrace_def)
  have b: "str_rfind (ustr ''} then {'') rbrace < int 7"
    by (simp add: ustr_def rbrace_def Let_def)
  have c: "json_loads stub_lib [] = Inl JSONDecodeError"
    by (rule stub_loads_empty)
  from parse_judge_response_total [of stub_lib "ustr ''} then {''"] a b
  have d: "json_str (ustr ''} then {'') = Inr []" by blast
  from parse_judge_response_total [of stub_lib "ustr ''} then {''"] c d
  have "parse_judge_response stub_lib (ustr ''} then {'') = Inr judge_fallback" by blast
  with a b c d show ?thesis by blast
qed


section \<open>Running the controller against the gateway\<close>

lemma call_model_reply:
  "replies w = r # rs \<Longrightarrow>
   call_model p mt t w =
     (Inr r, w\<lparr>replies := rs,
               calls := calls w @ [\<lparr>prompt = p, max_tokens = mt, temperature = t, reply = Inr r\<rparr>]\<rparr>)"
  by (simp add: call_model_def)

lemma judge_story_reply:
  "replies w = r # rs \<Longrightarrow>
   judge_story L story w =
     (parse_judge_response L r,
      w\<lparr>replies := rs,
        calls := calls w @ [\<lparr>prompt = JUDGE_PROMPT story, max_tokens = 600,
                              temperature = 2 / 10, reply = Inr r\<rparr>]\<rparr>)"
  by (simp add: judge_story_def call_model_reply)

lemma score_below_record:
  "evaluation_record jd \<Longrightarrow> score_below jd m = Inr (total_score_of jd < m)"
proof (cases jd)
  case (JObj kvs)
  assume "evaluation_record jd"
  with JObj have "field_ok is_int (map_of kvs (ustr ''total_score''))" by simp
  then show ?thesis
    using JObj
    by (cases "map_of kvs (ustr ''total_score'')")
       (auto simp: score_below_def elim: is_int.elims)
qed auto

lemma bullets_str_list:
  "is_str_list v \<Longrightarrow> \<exists>xs. v = JArr xs \<and> bullets L v = Inr (str_join [10] (map (\<lambda>i. ustr ''- '' @ py_str L i) xs))"
  by (cases v) (auto simp: bullets_def)

lemma dict_get_record:
  "field_ok P (map_of kvs k) \<Longrightarrow> P d \<Longrightarrow> \<exists>v. dict_get (JObj kvs) k d = Inr v \<and> P v"
  by (cases "map_of kvs k") auto

lemma revise_story_record:
  assumes "evaluation_record jd"
  shows "\<exists>p. revise_story L story jd w = call_model p 900 (7 / 10) w"
proof -
  from assms obtain kvs where jd: "jd = JObj kvs"
    and i: "field_ok is_str_list (map_of kvs (ustr ''issues''))"
    and f: "field_ok is_str_list (map_of kvs (ustr ''suggested_fixes''))"
    by (cases jd) auto
  from dict_get_record [OF i, of "JArr []"] obtain iv
    where iv: "dict_get jd (ustr ''issues'') (JArr []) = Inr iv" "is_str_list iv"
    using jd by auto
  from dict_get_record [OF f, of "JArr []"] obtain fv
    where fv: "dict_get jd (ustr ''suggested_fixes'') (JArr []) = Inr fv" "is_str_list fv"
    using jd by auto
  from bullets_str_list [OF iv(2), of L] obtain it where it: "bullets L iv = Inr it" by blast
  from bullets_str_list [OF fv(2), of L] obtain ft where ft: "bullets L fv = Inr ft" by blast
  have "revise_story L story jd w = call_model
            (REVISION_PROMPT story
               (py_or it (ustr ''- (no issues listed)''))
               (py_or ft (ustr ''- (no fixes listed)'')))
            900 (7 / 10) w"
    using iv(1) fv(1) it ft by (simp add: revise_story_def)
  then show ?thesis by blast
qed

lemma report_round_dict:
  "fst (report_round L h (JObj kvs) w) = Inr ()
   \<and> replies (snd (report_round L h (JObj kvs) w)) = replies w
   \<and> calls (snd (report_round L h (JObj kvs) w)) = calls w"
  by (simp add: report_round_def py_print_def Let_def)

lemma report_if_record:
  assumes "evaluation_record jd"
  obtains w' where "(if verbose then report_round L h jd w else (Inr (), w)) = (Inr (), w')"
    and "replies w' = replies w" and "calls w' = calls w"
proof -
  from assms obtain kvs where jd: "jd = JObj kvs" by (cases jd) auto
  show ?thesis
  proof (cases verbose)
    case True
    with report_round_dict [of L h kvs w] jd that [of "snd (report_round L h jd w)"]
    show ?thesis by (metis prod.collapse)
  next
    case False
    with that [of w] show ?thesis by simp
  qed
qed

lemma judge_calls_append:
  "calls w' = calls w @ cs \<Longrightarrow> judge_calls w' = judge_calls w + length (filter is_judge_call cs)"
  by (simp add: judge_calls_def)

lemma rewrite_calls_append:
  "calls w' = calls w @ cs \<Longrightarrow> rewrite_calls w' = rewrite_calls w + length (filter is_rewrite_call cs)"
  by (simp add: rewrite_calls_def)

text \<open>One pass of the loop body.\<close>

lemma refine_loop_stop:
  assumes "evaluation_record jd"
    and "\<not> (total_score_of jd < min_score \<and> round_idx < max_rounds)"
  shows "refine_loop L min_score max_rounds verbose round_idx story jd w
           = (Inr (round_idx, story, jd), w)"
  using assms by (subst refine_loop.simps) (auto simp: score_below_record)

lemma refine_loop_step:
  assumes rec: "evaluation_record jd" and rec': "evaluation_record jd'"
    and go: "total_score_of jd < min_score" "round_idx < max_rounds"
    and rs: "replies w = story' # raw # rest"
    and p: "parse_judge_response L raw = Inr jd'"
  obtains w' where
    "refine_loop L min_score max_rounds verbose round_idx story jd w
       = refine_loop L min_score max_rounds verbose (round_idx + 1) story' jd' w'"
    and "replies w' = rest"
    and "judge_calls w' = judge_calls w + 1"
    and "rewrite_calls w' = rewrite_calls w + 1"
    and "length (calls w') = length (calls w) + 2"
proof -
  from revise_story_record [OF rec, of L story w] obtain pr
    where "revise_story L story jd w = call_model pr 900 (7 / 10) w" by blast
  let ?c1 = "\<lparr>prompt = pr, max_tokens = 900, temperature = 7 / 10, reply = Inr story'\<rparr>"
  let ?w1 = "w\<lparr>replies := raw # rest, calls := calls w @ [?c1]\<rparr>"
  have r1: "revise_story L story jd w = (Inr story', ?w1)"
    using \<open>revise_story L story jd w = call_model pr 900 (7 / 10) w\<close> rs
    by (simp add: call_model_reply)
  let ?c2 = "\<lparr>prompt = JUDGE_PROMPT story', max_tokens = 600, temperature = 2 / 10, reply = Inr raw\<rparr>"
  let ?w2 = "?w1\<lparr>replies := rest, calls := calls ?w1 @ [?c2]\<rparr>"
  have r2: "judge_story L story' ?w1 = (Inr jd', ?w2)"
    using judge_story_reply [of ?w1 raw rest L story'] p by simp
  let ?h = "ustr ''--- Judge evaluation: round '' @ str_int (round_idx + 1) @ ustr '' ---''"
  from report_if_record [OF rec', of verbose L ?h ?w2] obtain w3
    where r3: "(if verbose then report_round L ?h jd' ?w2 else (Inr (), ?w2)) = (Inr (), w3)"
      and w3: "replies w3 = replies ?w2" "calls w3 = calls ?w2"
    by blast
  have "refine_loop L min_score max_rounds verbose round_idx story jd w
       = refine_loop L min_score max_rounds verbose (round_idx + 1) story' jd' w3"
    apply (subst refine_loop.simps)
    apply (simp only: score_below_record [OF rec] go r1 r2 r3 sum.case prod.case if_True simp_thms)
    done
  moreover have "replies w3 = rest" using w3 by simp
  moreover have c: "calls w3 = calls w @ [?c1, ?c2]" using w3 by simp
  moreover have "judge_calls w3 = judge_calls w + 1"
    using judge_calls_append [OF c] by (simp add: is_judge_call_def)
  moreover have "rewrite_calls w3 = rewrite_calls w + 1"
    using rewrite_calls_append [OF c] by (simp add: is_rewrite_call_def)
  moreover have "length (calls w3) = length (calls w) + 2" using c by simp
  ultimately show ?thesis using that by blast
qed

lemma refine_loop_script:
  assumes "replies w = script rounds @ rest"
    and "map (\<lambda>r. parse_judge_response L (snd r)) rounds = map Inr jds"
    and "evaluation_record jd" and "list_all evaluation_record jds"
    and "list_all (\<lambda>x. total_score_of x < min_score) (butlast (jd # jds))"
    and "rounds \<noteq> [] \<longrightarrow> round_idx + int (length rounds) \<le> max_rounds"
    and "\<not> (total_score_of (last (jd # jds)) < min_score
            \<and> round_idx + int (length rounds) < max_rounds)"
  shows "\<exists>w'. refine_loop L min_score max_rounds verbose round_idx story jd w
                 = (Inr (round_idx + int (length rounds), last (story # map fst rounds),
                         last (jd # jds)), w')
              \<and> replies w' = rest
              \<and> judge_calls w' = judge_calls w + length rounds
              \<and> rewrite_calls w' = rewrite_calls w + length rounds
              \<and> length (calls w') = length (calls w) + 2 * length rounds"
  using assms
proof (induction rounds arbitrary: round_idx story jd w jds)
  case Nil
  then have "jds = []" by simp
  with Nil show ?case
    using refine_loop_stop [of jd min_score round_idx max_rounds L verbose story w] by simp
next
  case (Cons r rounds)
  obtain story' raw where r: "r = (story', raw)" by (cases r)
  from Cons.prems(2) r obtain jd' jds' where jds: "jds = jd' # jds'"
    and p: "parse_judge_response L raw = Inr jd'"
    and ps: "map (\<lambda>r. parse_judge_response L (snd r)) rounds = map Inr jds'"
    by (cases jds) auto
  from Cons.prems(4) jds have rec': "evaluation_record jd'" and recs: "list_all evaluation_record jds'"
    by simp_all
  from Cons.prems(5) jds have below: "total_score_of jd < min_score"
    and belows: "list_all (\<lambda>x. total_score_of x < min_score) (butlast (jd' # jds'))"
    by simp_all
  from Cons.prems(6) have lt: "round_idx < max_rounds" by simp
  from Cons.prems(1) r have rs: "replies w = story' # raw # (script rounds @ rest)" by simp
  from refine_loop_step [OF Cons.prems(3) rec' below lt rs p, of verbose story] obtain w1
    where step: "refine_loop L min_score max_rounds verbose round_idx story jd w
       = refine_loop L min_score max_rounds verbose (round_idx + 1) story' jd' w1"
      and w1: "replies w1 = script rounds @ rest" "judge_calls w1 = judge_calls w + 1"
        "rewrite_calls w1 = rewrite_calls w + 1" "length (calls w1) = length (calls w) + 2"
    by blast
  have budget: "rounds \<noteq> [] \<longrightarrow> round_idx + 1 + int (length rounds) \<le> max_rounds"
    using Cons.prems(6) by simp
  have stop: "\<not> (total_score_of (last (jd' # jds')) < min_score
            \<and> round_idx + 1 + int (length rounds) < max_rounds)"
    using Cons.prems(7) jds by (auto simp: algebra_simps)
  from Cons.IH [OF w1(1) ps rec' recs belows budget stop, of story'] obtain w'
    where "refine_loop L min_score max_rounds verbose (round_idx + 1) story' jd' w1
                 = (Inr (round_idx + 1 + int (length rounds), last (story' # map fst rounds),
                         last (jd' # jds')), w')"
      and "replies w' = rest"
      and "judge_calls w' = judge_calls w1 + length rounds"
      and "rewrite_calls w' = rewrite_calls w1 + length rounds"
      and "length (calls w') = length (calls w1) + 2 * length rounds"
    by blast
  with step w1 r jds show ?case by simp
qed

lemma story_pipeline_script:
  assumes rs: "replies w = script ((draft, raw1) # rounds) @ rest"
    and p: "map (\<lambda>r. parse_judge_response L (snd r)) ((draft, raw1) # rounds) = map Inr (jd1 # jds)"
    and rec: "list_all evaluation_record (jd1 # jds)"
    and below: "list_all (\<lambda>x. total_score_of x < min_score) (butlast (jd1 # jds))"
    and budget: "rounds \<noteq> [] \<longrightarrow> 1 + int (length rounds) \<le> max_rounds"
    and stop: "\<not> (total_score_of (last (jd1 # jds)) < min_score
            \<and> 1 + int (length rounds) < max_rounds)"
  shows "\<exists>w'. story_pipeline L user_request min_score max_rounds verbose w
                 = (Inr (last (draft # map fst rounds), last (jd1 # jds)), w')
              \<and> (\<exists>w3. refine_loop L min_score max_rounds verbose 1 draft jd1 w3
                      = (Inr (1 + int (length rounds), last (draft # map fst rounds),
                              last (jd1 # jds)), w'))
              \<and> replies w' = rest
              \<and> judge_calls w' = judge_calls w + Suc (length rounds)
              \<and> rewrite_calls w' = rewrite_calls w + length rounds
              \<and> length (calls w') = length (calls w) + 2 * Suc (length rounds)"
proof -
  let ?c1 = "\<lparr>prompt = STORY_WRITER_PROMPT user_request, max_tokens = 900,
               temperature = 8 / 10, reply = Inr draft\<rparr>"
  let ?w1 = "w\<lparr>replies := raw1 # script rounds @ rest, calls := calls w @ [?c1]\<rparr>"
  have g: "generate_initial_story user_request w = (Inr draft, ?w1)"
    using rs by (simp add: generate_initial_story_def call_model_reply)
  let ?c2 = "\<lparr>prompt = JUDGE_PROMPT draft, max_tokens = 600, temperature = 2 / 10,
               reply = Inr raw1\<rparr>"
  let ?w2 = "?w1\<lparr>replies := script rounds @ rest, calls := calls ?w1 @ [?c2]\<rparr>"
  from p have p1: "parse_judge_response L raw1 = Inr jd1"
    and ps: "map (\<lambda>r. parse_judge_response L (snd r)) rounds = map Inr jds"
    by simp_all
  have j: "judge_story L draft ?w1 = (Inr jd1, ?w2)"
    using judge_story_reply [of ?w1 raw1 "script rounds @ rest" L draft] p1 by simp
  from rec have rec1: "evaluation_record jd1" and recs: "list_all evaluation_record jds"
    by simp_all
  let ?h = "[10] @ ustr ''--- Judge evaluation: round 1 ---''"
  from report_if_record [OF rec1, of verbose L ?h ?w2] obtain w3
    where r3: "(if verbose then report_round L ?h jd1 ?w2 else (Inr (), ?w2)) = (Inr (), w3)"
      and w3: "replies w3 = replies ?w2" "calls w3 = calls ?w2"
    by blast
  have c3: "calls w3 = calls w @ [?c1, ?c2]" using w3 by simp
  have rs3: "replies w3 = script rounds @ rest" using w3 by simp
  from refine_loop_script [OF rs3 ps rec1 recs below budget stop, of verbose draft] obtain w'
    where l: "refine_loop L min_score max_rounds verbose 1 draft jd1 w3
                 = (Inr (1 + int (length rounds), last (draft # map fst rounds),
                         last (jd1 # jds)), w')"
      and w': "replies w' = rest" "judge_calls w' = judge_calls w3 + length rounds"
        "rewrite_calls w' = rewrite_calls w3 + length rounds"
        "length (calls w') = length (calls w3) + 2 * length rounds"
    by blast
  have "story_pipeline L user_request min_score max_rounds verbose w
          = (Inr (last (draft # map fst rounds), last (jd1 # jds)), w')"
    unfolding story_pipeline_def
    by (simp only: g j r3 l sum.case prod.case)
  moreover have "judge_calls w3 = judge_calls w + 1"
    using judge_calls_append [OF c3] by (simp add: is_judge_call_def is_rewrite_call_def)
  moreover have "rewrite_calls w3 = rewrite_calls w"
    using rewrite_calls_append [OF c3] by (simp add: is_judge_call_def is_rewrite_call_def)
  moreover have "length (calls w3) = length (calls w) + 2" using c3 by simp
  ultimately show ?thesis using w' l by auto
qed

section \<open>The number of evaluations\<close>

lemma script_append: "script (a @ b) = script a @ script b"
  by (induction a rule: script.induct) auto

lemma takeWhile_prefix_all:
  assumes "j \<le> length (takeWhile P xs)"
  shows "list_all P (take j xs)"
proof -
  have "take j xs = take j (takeWhile P xs)"
    using assms by (metis min.absorb1 take_take takeWhile_eq_take)
  then have "set (take j xs) \<subseteq> set (takeWhile P xs)"
    by (simp add: set_take_subset)
  then show ?thesis
    by (auto simp: list_all_iff dest: set_takeWhileD)
qed

lemma last_take:
  assumes "1 \<le> k" and "k \<le> length xs"
  shows "last (take k xs) = xs ! (k - 1)"
proof -
  have "take k xs \<noteq> []" using assms by auto
  then have "last (take k xs) = take k xs ! (length (take k xs) - 1)"
    by (rule last_conv_nth)
  also have "\<dots> = xs ! (k - 1)" using assms by simp
  finally show ?thesis .
qed

lemma ustr_eq_iff: "ustr a = ustr b \<longleftrightarrow> a = b"
proof -
  have "inj (of_char :: char \<Rightarrow> nat)" by (simp add: inj_on_def)
  then show ?thesis by (simp add: ustr_def inj_map_eq_map)
qed

lemma stub_parse_score:
  \<open>parse_judge_response stub_lib (ustr ''{"total_score": 25}'')
     = Inr (JObj [(ustr ''total_score'', JInt 25)])\<close>
  \<open>parse_judge_response stub_lib (ustr ''{"total_score": 30}'')
     = Inr (JObj [(ustr ''total_score'', JInt 30)])\<close>
  \<open>parse_judge_response stub_lib (ustr ''{"total_score": 20}'')
     = Inr (JObj [(ustr ''total_score'', JInt 20)])\<close>
  \<open>parse_judge_response stub_lib (ustr ''{"total_score": 44}'')
     = Inr (JObj [(ustr ''total_score'', JInt 44)])\<close>
  \<open>parse_judge_response stub_lib (ustr ''{}'') = Inr (JObj [])\<close>
  by (simp_all add: parse_judge_response_def json_str_def str_index_def str_slice_def
      slice_bound_def stub_lib_def stub_loads_def ustr_def lbrace_def rbrace_def Let_def)

lemma score_record:
  "evaluation_record (JObj [(ustr ''total_score'', JInt i)])"
  "total_score_of (JObj [(ustr ''total_score'', JInt i)]) = i"
  "evaluation_record (JObj [])"
  "total_score_of (JObj []) = 0"
  by (simp_all add: ustr_eq_iff)

lemma float_lt_ge: "f \<noteq> NaN \<Longrightarrow> float_lt_int f m = (\<not> float_ge_int f m)"
  by (cases f) auto

lemma num_lt_ge: "is_number v \<Longrightarrow> py_lt_int v m = Inr (\<not> num_ge v m)"
  by (cases v) (auto simp: float_lt_ge)

lemma score_below_scored:
  assumes "scored jd"
  shows "score_below jd m = Inr (\<not> score_ge jd m)"
proof -
  from assms obtain kvs where jd: "jd = JObj kvs"
    and f: "field_ok is_number (map_of kvs (ustr ''total_score''))"
    by (cases jd) auto
  show ?thesis
  proof (cases "map_of kvs (ustr ''total_score'')")
    case None
    with jd show ?thesis by (auto simp: score_below_def score_ge_def)
  next
    case (Some v)
    with f have "is_number v" by simp
    from num_lt_ge [OF this, of m] Some jd show ?thesis
      by (simp add: score_below_def score_ge_def)
  qed
qed

lemma bullets_iterable: "iterable v \<Longrightarrow> \<exists>t. bullets L v = Inr t"
  by (cases v) (auto simp: bullets_def)

lemma revise_story_revisable:
  assumes "revisable jd"
  shows "\<exists>p. revise_story L story jd w = call_model p 900 (7 / 10) w"
proof -
  from assms obtain kvs where jd: "jd = JObj kvs"
    and i: "field_ok iterable (map_of kvs (ustr ''issues''))"
    and f: "field_ok iterable (map_of kvs (ustr ''suggested_fixes''))"
    by (cases jd) auto
  from dict_get_record [OF i, of "JArr []"] obtain iv
    where iv: "dict_get jd (ustr ''issues'') (JArr []) = Inr iv" "iterable iv"
    using jd by auto
  from dict_get_record [OF f, of "JArr []"] obtain fv
    where fv: "dict_get jd (ustr ''suggested_fixes'') (JArr []) = Inr fv" "iterable fv"
    using jd by auto
  from bullets_iterable [OF iv(2), of L] obtain it where it: "bullets L iv = Inr it" by blast
  from bullets_iterable [OF fv(2), of L] obtain ft where ft: "bullets L fv = Inr ft" by blast
  have "revise_story L story jd w = call_model
            (REVISION_PROMPT story
               (py_or it (ustr ''- (no issues listed)''))
               (py_or ft (ustr ''- (no fixes listed)'')))
            900 (7 / 10) w"
    using iv(1) fv(1) it ft by (simp add: revise_story_def)
  then show ?thesis by blast
qed

lemma report_if_scored:
  assumes "scored jd"
  obtains w' where "(if verbose then report_round L h jd w else (Inr (), w)) = (Inr (), w')"
    and "replies w' = replies w" and "calls w' = calls w"
proof -
  from assms obtain kvs where jd: "jd = JObj kvs" by (cases jd) auto
  show ?thesis
  proof (cases verbose)
    case True
    with report_round_dict [of L h kvs w] jd that [of "snd (report_round L h jd w)"]
    show ?thesis by (metis prod.collapse)
  next
    case False
    with that [of w] show ?thesis by simp
  qed
qed

lemma refine_loop_halt:
  assumes "scored jd"
    and "\<not> (\<not> score_ge jd min_score \<and> round_idx < max_rounds)"
  shows "refine_loop L min_score max_rounds verbose round_idx story jd w
           = (Inr (round_idx, story, jd), w)"
  using assms by (subst refine_loop.simps) (auto simp: score_below_scored)

lemma refine_loop_advance:
  assumes sc: "scored jd" and rv: "revisable jd" and sc': "scored jd'"
    and go: "\<not> score_ge jd min_score" "round_idx < max_rounds"
    and rs: "replies w = story' # raw # rest"
    and p: "parse_judge_response L raw = Inr jd'"
  obtains w' where
    "refine_loop L min_score max_rounds verbose round_idx story jd w
       = refine_loop L min_score max_rounds verbose (round_idx + 1) story' jd' w'"
    and "replies w' = rest"
    and "judge_calls w' = judge_calls w + 1"
    and "rewrite_calls w' = rewrite_calls w + 1"
    and "length (calls w') = length (calls w) + 2"
proof -
  from revise_story_revisable [OF rv, of L story w] obtain pr
    where "revise_story L story jd w = call_model pr 900 (7 / 10) w" by blast
  let ?c1 = "\<lparr>prompt = pr, max_tokens = 900, temperature = 7 / 10, reply = Inr story'\<rparr>"
  let ?w1 = "w\<lparr>replies := raw # rest, calls := calls w @ [?c1]\<rparr>"
  have r1: "revise_story L story jd w = (Inr story', ?w1)"
    using \<open>revise_story L story jd w = call_model pr 900 (7 / 10) w\<close> rs
    by (simp add: call_model_reply)
  let ?c2 = "\<lparr>prompt = JUDGE_PROMPT story', max_tokens = 600, temperature = 2 / 10, reply = Inr raw\<rparr>"
  let ?w2 = "?w1\<lparr>replies := rest, calls := calls ?w1 @ [?c2]\<rparr>"
  have r2: "judge_story L story' ?w1 = (Inr jd', ?w2)"
    using judge_story_reply [of ?w1 raw rest L story'] p by simp
  let ?h = "ustr ''--- Judge evaluation: round '' @ str_int (round_idx + 1) @ ustr '' ---''"
  from report_if_scored [OF sc', of verbose L ?h ?w2] obtain w3
    where r3: "(if verbose then report_round L ?h jd' ?w2 else (Inr (), ?w2)) = (Inr (), w3)"
      and w3: "replies w3 = replies ?w2" "calls w3 = calls ?w2"
    by blast
  have sb: "score_below jd min_score = Inr True"
    using score_below_scored [OF sc, of min_score] go(1) by simp
  have "refine_loop L min_score max_rounds verbose round_idx story jd w
       = refine_loop L min_score max_rounds verbose (round_idx + 1) story' jd' w3"
    apply (subst refine_loop.simps)
    apply (simp only: sb go r1 r2 r3 sum.case prod.case if_True simp_thms)
    done
  moreover have "replies w3 = rest" using w3 by simp
  moreover have c: "calls w3 = calls w @ [?c1, ?c2]" using w3 by simp
  moreover have "judge_calls w3 = judge_calls w + 1"
    using judge_calls_append [OF c] by (simp add: is_judge_call_def)
  moreover have "rewrite_calls w3 = rewrite_calls w + 1"
    using rewrite_calls_append [OF c] by (simp add: is_rewrite_call_def)
  moreover have "length (calls w3) = length (calls w) + 2" using c by simp
  ultimately show ?thesis using that by blast
qed

lemma refine_loop_run:
  assumes "replies w = script rounds @ rest"
    and "map (\<lambda>r. parse_judge_response L (snd r)) rounds = map Inr jds"
    and "list_all scored (jd # jds)"
    and "list_all revisable (butlast (jd # jds))"
    and "list_all (\<lambda>x. \<not> score_ge x min_score) (butlast (jd # jds))"
    and "rounds \<noteq> [] \<longrightarrow> round_idx + int (length rounds) \<le> max_rounds"
    and "\<not> (\<not> score_ge (last (jd # jds)) min_score
            \<and> round_idx + int (length rounds) < max_rounds)"
  shows "\<exists>w'. refine_loop L min_score max_rounds verbose round_idx story jd w
                 = (Inr (round_idx + int (length rounds), last (story # map fst rounds),
                         last (jd # jds)), w')
              \<and> replies w' = rest
              \<and> judge_calls w' = judge_calls w + length rounds
              \<and> rewrite_calls w' = rewrite_calls w + length rounds
              \<and> length (calls w') = length (calls w) + 2 * length rounds"
  using assms
proof (induction rounds arbitrary: round_idx story jd w jds)
  case Nil
  then have "jds = []" by simp
  with Nil show ?case
    using refine_loop_halt [of jd min_score round_idx max_rounds L verbose story w] by simp
next
  case (Cons r rounds)
  obtain story' raw where r: "r = (story', raw)" by (cases r)
  from Cons.prems(2) r obtain jd' jds' where jds: "jds = jd' # jds'"
    and p: "parse_judge_response L raw = Inr jd'"
    and ps: "map (\<lambda>r. parse_judge_response L (snd r)) rounds = map Inr jds'"
    by (cases jds) auto
  from Cons.prems(3) jds have sc: "scored jd" and sc': "scored jd'"
    and scs: "list_all scored (jd' # jds')"
    by simp_all
  from Cons.prems(4) jds have rv: "revisable jd"
    and rvs: "list_all revisable (butlast (jd' # jds'))"
    by simp_all
  from Cons.prems(5) jds have below: "\<not> score_ge jd min_score"
    and belows: "list_all (\<lambda>x. \<not> score_ge x min_score) (butlast (jd' # jds'))"
    by simp_all
  from Cons.prems(6) have lt: "round_idx < max_rounds" by simp
  from Cons.prems(1) r have rs: "replies w = story' # raw # (script rounds @ rest)" by simp
  from refine_loop_advance [OF sc rv sc' below lt rs p, of verbose story] obtain w1
    where step: "refine_loop L min_score max_rounds verbose round_idx story jd w
       = refine_loop L min_score max_rounds verbose (round_idx + 1) story' jd' w1"
      and w1: "replies w1 = script rounds @ rest" "judge_calls w1 = judge_calls w + 1"
        "rewrite_calls w1 = rewrite_calls w + 1" "length (calls w1) = length (calls w) + 2"
    by blast
  have budget: "rounds \<noteq> [] \<longrightarrow> round_idx + 1 + int (length rounds) \<le> max_rounds"
    using Cons.prems(6) by simp
  have stop: "\<not> (\<not> score_ge (last (jd' # jds')) min_score
            \<and> round_idx + 1 + int (length rounds) < max_rounds)"
    using Cons.prems(7) jds by (auto simp: algebra_simps)
  from Cons.IH [OF w1(1) ps scs rvs belows budget stop, of story'] obtain w'
    where "refine_loop L min_score max_rounds verbose (round_idx + 1) story' jd' w1
                 = (Inr (round_idx + 1 + int (length rounds), last (story' # map fst rounds),
                         last (jd' # jds')), w')"
      and "replies w' = rest"
      and "judge_calls w' = judge_calls w1 + length rounds"
      and "rewrite_calls w' = rewrite_calls w1 + length rounds"
      and "length (calls w') = length (calls w1) + 2 * length rounds"
    by blast
  with step w1 r jds show ?case by simp
qed

lemma story_pipeline_run:
  assumes rs: "replies w = script ((draft, raw1) # rounds) @ rest"
    and p: "map (\<lambda>r. parse_judge_response L (snd r)) ((draft, raw1) # rounds) = map Inr (jd1 # jds)"
    and sc: "list_all scored (jd1 # jds)"
    and rv: "list_all revisable (butlast (jd1 # jds))"
    and below: "list_all (\<lambda>x. \<not> score_ge x min_score) (butlast (jd1 # jds))"
    and budget: "rounds \<noteq> [] \<longrightarrow> 1 + int (length rounds) \<le> max_rounds"
    and stop: "\<not> (\<not> score_ge (last (jd1 # jds)) min_score
            \<and> 1 + int (length rounds) < max_rounds)"
  shows "\<exists>w'. story_pipeline L user_request min_score max_rounds verbose w
                 = (Inr (last (draft # map fst rounds), last (jd1 # jds)), w')
              \<and> (\<exists>w3. refine_loop L min_score max_rounds verbose 1 draft jd1 w3
                      = (Inr (1 + int (length rounds), last (draft # map fst rounds),
                              last (jd1 # jds)), w'))
              \<and> replies w' = rest
              \<and> judge_calls w' = judge_calls w + Suc (length rounds)
              \<and> rewrite_calls w' = rewrite_calls w + length rounds
              \<and> length (calls w') = length (calls w) + 2 * Suc (length rounds)"
proof -
  let ?c1 = "\<lparr>prompt = STORY_WRITER_PROMPT user_request, max_tokens = 900,
               temperature = 8 / 10, reply = Inr draft\<rparr>"
  let ?w1 = "w\<lparr>replies := raw1 # script rounds @ rest, calls := calls w @ [?c1]\<rparr>"
  have g: "generate_initial_story user_request w = (Inr draft, ?w1)"
    using rs by (simp add: generate_initial_story_def call_model_reply)
  let ?c2 = "\<lparr>prompt = JUDGE_PROMPT draft, max_tokens = 600, temperature = 2 / 10,
               reply = Inr raw1\<rparr>"
  let ?w2 = "?w1\<lparr>replies := script rounds @ rest, calls := calls ?w1 @ [?c2]\<rparr>"
  from p have p1: "parse_judge_response L raw1 = Inr jd1"
    and ps: "map (\<lambda>r. parse_judge_response L (snd r)) rounds = map Inr jds"
    by simp_all
  have j: "judge_story L draft ?w1 = (Inr jd1, ?w2)"
    using judge_story_reply [of ?w1 raw1 "script rounds @ rest" L draft] p1 by simp
  from sc have sc1: "scored jd1" by simp
  let ?h = "[10] @ ustr ''--- Judge evaluation: round 1 ---''"
  from report_if_scored [OF sc1, of verbose L ?h ?w2] obtain w3
    where r3: "(if verbose then report_round L ?h jd1 ?w2 else (Inr (), ?w2)) = (Inr (), w3)"
      and w3: "replies w3 = replies ?w2" "calls w3 = calls ?w2"
    by blast
  have c3: "calls w3 = calls w @ [?c1, ?c2]" using w3 by simp
  have rs3: "replies w3 = script rounds @ rest" using w3 by simp
  from refine_loop_run [OF rs3 ps sc rv below budget stop, of verbose draft] obtain w'
    where l: "refine_loop L min_score max_rounds verbose 1 draft jd1 w3
                 = (Inr (1 + int (length rounds), last (draft # map fst rounds),
                         last (jd1 # jds)), w')"
      and w': "replies w' = rest" "judge_calls w' = judge_calls w3 + length rounds"
        "rewrite_calls w' = rewrite_calls w3 + length rounds"
        "length (calls w') = length (calls w3) + 2 * length rounds"
    by blast
  have "story_pipeline L user_request min_score max_rounds verbose w
          = (Inr (last (draft # map fst rounds), last (jd1 # jds)), w')"
    unfolding story_pipeline_def
    by (simp only: g j r3 l sum.case prod.case)
  moreover have "judge_calls w3 = judge_calls w + 1"
    using judge_calls_append [OF c3] by (simp add: is_judge_call_def is_rewrite_call_def)
  moreover have "rewrite_calls w3 = rewrite_calls w"
    using rewrite_calls_append [OF c3] by (simp add: is_judge_call_def is_rewrite_call_def)
  moreover have "length (calls w3) = length (calls w) + 2" using c3 by simp
  ultimately show ?thesis using w' l by auto
qed

lemma first_passing_stop:
  assumes "first_passing_round m jds \<le> length jds"
  shows "score_ge (jds ! (first_passing_round m jds - 1)) m"
  using assms nth_length_takeWhile [of "\<lambda>jd. \<not> score_ge jd m" jds]
  by (simp add: first_passing_round_def)

lemma claimed_evaluations_nat:
  "max 1 (claimed_evaluations m r jds) = int (max 1 (min (first_passing_round m jds) (nat r)))"
  by (auto simp: claimed_evaluations_def first_passing_round_def max_def min_def)

lemma story_pipeline_count:
  assumes rs: "replies w = script rs @ rest"
    and p: "map (\<lambda>r. parse_judge_response L (snd r)) rs = map Inr jds"
    and k: "k = max 1 (min (first_passing_round min_score jds) (nat max_rounds))"
    and len: "k \<le> length rs"
    and sc: "list_all scored (take k jds)"
    and rv: "list_all revisable (take (k - 1) jds)"
  shows "\<exists>w'. story_pipeline L user_request min_score max_rounds verbose w
                 = (Inr (fst (rs ! (k - 1)), jds ! (k - 1)), w')
              \<and> (\<exists>w3. refine_loop L min_score max_rounds verbose 1 (fst (rs ! 0)) (jds ! 0) w3
                      = (Inr (int k, fst (rs ! (k - 1)), jds ! (k - 1)), w'))
              \<and> replies w' = script (drop k rs) @ rest
              \<and> judge_calls w' = judge_calls w + k
              \<and> rewrite_calls w' = rewrite_calls w + (k - 1)
              \<and> length (calls w') = length (calls w) + 2 * k"
proof -
  let ?P = "\<lambda>x. \<not> score_ge x min_score"
  let ?fp = "first_passing_round min_score jds"
  have k1: "1 \<le> k" using k by simp
  have lj: "length jds = length rs"
    using p by (metis length_map)
  obtain draft raw1 rounds where tk: "take k rs = (draft, raw1) # rounds"
    using k1 len by (cases "take k rs") auto
  obtain jd1 jds' where tj: "take k jds = jd1 # jds'"
    using k1 len lj by (cases "take k jds") auto
  have lr: "length rounds = k - 1"
    using tk len by (metis length_Cons length_take min.absorb2 diff_Suc_1)
  have "script rs = script (take k rs @ drop k rs)" by simp
  also have "\<dots> = script (take k rs) @ script (drop k rs)" by (rule script_append)
  finally have "script rs = script ((draft, raw1) # rounds) @ script (drop k rs)"
    using tk by simp
  then have a1: "replies w = script ((draft, raw1) # rounds) @ (script (drop k rs) @ rest)"
    using rs by simp
  have a2: "map (\<lambda>r. parse_judge_response L (snd r)) ((draft, raw1) # rounds) = map Inr (jd1 # jds')"
    using p tk tj by (metis take_map)
  have a3: "list_all scored (jd1 # jds')" using sc tj by simp
  have bl: "butlast (take k jds) = take (k - 1) jds"
    using len lj by (simp add: butlast_take)
  have a3': "list_all revisable (butlast (jd1 # jds'))"
    using rv bl tj by simp
  have kfp: "k - 1 \<le> length (takeWhile ?P jds)"
    using k by (auto simp: first_passing_round_def)
  have "list_all ?P (take (k - 1) jds)"
    using kfp by (rule takeWhile_prefix_all)
  then have a4: "list_all ?P (butlast (jd1 # jds'))"
    using bl tj by simp
  have a5: "rounds \<noteq> [] \<longrightarrow> 1 + int (length rounds) \<le> max_rounds"
    using lr k by (auto simp: max_def min_def split: if_splits)
  have last_eq: "last (jd1 # jds') = jds ! (k - 1)"
    using last_take [of k jds] tj k1 len lj by simp
  have a6: "\<not> (?P (last (jd1 # jds')) \<and> 1 + int (length rounds) < max_rounds)"
  proof
    assume h: "?P (last (jd1 # jds')) \<and> 1 + int (length rounds) < max_rounds"
    then have "int k < max_rounds" using lr k1 by simp
    then have kf: "k = ?fp" using k by (auto simp: max_def min_def first_passing_round_def split: if_splits)
    then have "?fp \<le> length jds" using len lj by simp
    from first_passing_stop [OF this] kf have "score_ge (jds ! (k - 1)) min_score" by simp
    with h last_eq show False by simp
  qed
  have story_eq: "last (draft # map fst rounds) = fst (rs ! (k - 1))"
  proof -
    have "last (take k (map fst rs)) = map fst rs ! (k - 1)"
      using k1 len by (intro last_take) simp_all
    then have "last (map fst (take k rs)) = fst (rs ! (k - 1))"
      using k1 len by (simp add: take_map)
    then show ?thesis using tk by simp
  qed
  have d0: "fst (rs ! 0) = draft"
    using tk k1 by (metis fst_conv nth_Cons_0 nth_take zero_less_one order.strict_trans2)
  have j0: "jds ! 0 = jd1"
    using tj k1 by (metis nth_Cons_0 nth_take zero_less_one order.strict_trans2)
  have ik: "1 + int (length rounds) = int k" using lr k1 by simp
  from story_pipeline_run [OF a1 a2 a3 a3' a4 a5 a6, of user_request verbose]
  show ?thesis unfolding ik using lr k1 last_eq story_eq d0 j0 by auto
qed

lemma story_pipeline_quiet_start:
  assumes rs: "replies w = draft # raw1 # rest"
    and p: "parse_judge_response L raw1 = Inr jd1"
  shows "story_pipeline L user_request m r False w
          = (case refine_loop L m r False 1 draft jd1
                    (w\<lparr>replies := rest,
                       calls := calls w @
                         [\<lparr>prompt = STORY_WRITER_PROMPT user_request, max_tokens = 900,
                           temperature = 8 / 10, reply = Inr draft\<rparr>,
                          \<lparr>prompt = JUDGE_PROMPT draft, max_tokens = 600,
                           temperature = 2 / 10, reply = Inr raw1\<rparr>]\<rparr>) of
               (Inl e, w4) \<Rightarrow> (Inl e, w4)
             | (Inr (round_idx, story', judge_data'), w4) \<Rightarrow> (Inr (story', judge_data'), w4))"
proof -
  let ?c1 = "\<lparr>prompt = STORY_WRITER_PROMPT user_request, max_tokens = 900,
               temperature = 8 / 10, reply = Inr draft\<rparr>"
  let ?w1 = "w\<lparr>replies := raw1 # rest, calls := calls w @ [?c1]\<rparr>"
  have g: "generate_initial_story user_request w = (Inr draft, ?w1)"
    using rs by (simp add: generate_initial_story_def call_model_reply)
  let ?c2 = "\<lparr>prompt = JUDGE_PROMPT draft, max_tokens = 600, temperature = 2 / 10,
               reply = Inr raw1\<rparr>"
  let ?w2 = "?w1\<lparr>replies := rest, calls := calls ?w1 @ [?c2]\<rparr>"
  have j: "judge_story L draft ?w1 = (Inr jd1, ?w2)"
    using judge_story_reply [of ?w1 raw1 rest L draft] p by simp
  have e: "?w2 = w\<lparr>replies := rest, calls := calls w @ [?c1, ?c2]\<rparr>" by simp
  show ?thesis
    unfolding story_pipeline_def
    by (simp only: g j e if_False sum.case prod.case)
qed

lemma refine_loop_stops_at:
  "score_below jd m = Inr b \<Longrightarrow> \<not> (b \<and> i < r) \<Longrightarrow>
   refine_loop L m r v i story jd w = (Inr (i, story, jd), w)"
  by (subst refine_loop.simps) auto

lemma refine_loop_revise_raises:
  "score_below jd m = Inr True \<Longrightarrow> i < r \<Longrightarrow> revise_story L story jd w = (Inl e, w') \<Longrightarrow>
   refine_loop L m r v i story jd w = (Inl e, w')"
  by (subst refine_loop.simps) auto

lemma refine_loop_compare_raises:
  "score_below jd m = Inl e \<Longrightarrow> refine_loop L m r v i story jd w = (Inl e, w)"
  by (subst refine_loop.simps) auto

lemma table_parse:
  \<open>parse_judge_response table_lib (ustr ''{}'') = Inr (JObj [])\<close>
  \<open>parse_judge_response table_lib (ustr ''{"total_score": 50}'')
     = Inr (JObj [(ustr ''total_score'', JInt 50)])\<close>
  \<open>parse_judge_response table_lib (ustr ''{"total_score": 10, "issues": null}'')
     = Inr (JObj [(ustr ''total_score'', JInt 10), (ustr ''issues'', JNull)])\<close>
  \<open>parse_judge_response table_lib (ustr ''{"total_score": NaN}'')
     = Inr (JObj [(ustr ''total_score'', JFloat NaN)])\<close>
  \<open>parse_judge_response table_lib (ustr ''{"issues": [{}]}'')
     = Inr (JObj [(ustr ''issues'', JArr [JObj []])])\<close>
  \<open>parse_judge_response table_lib (ustr ''{"total_score": null}'')
     = Inr (JObj [(ustr ''total_score'', JNull)])\<close>
  by (simp_all add: parse_judge_response_def json_str_def str_index_def str_slice_def
      slice_bound_def table_lib_def table_docs_def ustr_def lbrace_def rbrace_def Let_def)

text \<open>
  C1. Let the gateway answer the calls of the first \<open>k\<close> rounds (\<open>rs\<close>, one story and one
  raw evaluation for each round) and let \<open>jds\<close> be the records parsed from these
  evaluations. Let \<open>k\<close> be the larger of 1 and the count the specification gives,
  \<open>claimed_evaluations\<close>: the smaller of \<open>max_rounds\<close> and the first 1-based round
  whose record has \<open>total_score >= min_score\<close> (one past the last round when there is
  none). Let each of the first \<open>k\<close> records be a dict whose \<open>total_score\<close> is missing or
  a number other than NaN (\<open>scored\<close>), and each of the first \<open>k - 1\<close> a record whose
  \<open>issues\<close> and \<open>suggested_fixes\<close> are missing or iterable (\<open>revisable\<close>). Then
  \<open>story_pipeline\<close> returns the story of round \<open>k\<close> with its record, the round counter
  going from 1 to \<open>k\<close>, after exactly \<open>k\<close> evaluation calls and \<open>k - 1\<close> rewrite calls,
  \<open>2 * k\<close> gateway calls in all. For \<open>max_rounds >= 1\<close>, \<open>k\<close> is the count the
  specification gives and the \<open>k - 1\<close> revision cycles are at most \<open>max_rounds - 1\<close>.
\<close>

theorem story_pipeline_evaluation_count:
  assumes "replies w = script rs @ rest"
    and "map (\<lambda>r. parse_judge_response L (snd r)) rs = map Inr jds"
    and "k = nat (max 1 (claimed_evaluations min_score max_rounds jds))"
    and "k \<le> length rs"
    and "list_all scored (take k jds)"
    and "list_all revisable (take (k - 1) jds)"
  shows "\<exists>w'. story_pipeline L user_request min_score max_rounds verbose w
                 = (Inr (fst (rs ! (k - 1)), jds ! (k - 1)), w')
              \<and> (\<exists>w3. refine_loop L min_score max_rounds verbose 1 (fst (rs ! 0)) (jds ! 0) w3
                      = (Inr (int k, fst (rs ! (k - 1)), jds ! (k - 1)), w'))
              \<and> judge_calls w' = judge_calls w + k
              \<and> rewrite_calls w' = rewrite_calls w + (k - 1)
              \<and> length (calls w') = length (calls w) + 2 * k
              \<and> (1 \<le> max_rounds \<longrightarrow>
                   int k = claimed_evaluations min_score max_rounds jds
                   \<and> int (k - 1) \<le> max_rounds - 1)"
proof -
  have k: "k = max 1 (min (first_passing_round min_score jds) (nat max_rounds))"
    using assms(3) claimed_evaluations_nat [of min_score max_rounds jds]
    by simp
  have "1 \<le> max_rounds \<longrightarrow>
          int k = claimed_evaluations min_score max_rounds jds
          \<and> int (k - 1) \<le> max_rounds - 1"
    using k by (auto simp: claimed_evaluations_def first_passing_round_def max_def min_def)
  with story_pipeline_count [OF assms(1,2) k assms(4,5,6), of user_request verbose]
  show ?thesis by blast
qed

theorem story_pipeline_evaluation_count_witness:
  \<open>fst (story_pipeline stub_lib (ustr ''a cat'') 40 3 True
      \<lparr>replies = [ustr ''Draft.'', ustr ''{"total_score": 25}'',
                  ustr ''Better.'', ustr ''{"total_score": 44}'', ustr ''unused''],
       calls = [], stdout = []\<rparr>)
     = Inr (ustr ''Better.'', JObj [(ustr ''total_score'', JInt 44)])
   \<and> judge_calls (snd (story_pipeline stub_lib (ustr ''a cat'') 40 3 True
      \<lparr>replies = [ustr ''Draft.'', ustr ''{"total_score": 25}'',
                  ustr ''Better.'', ustr ''{"total_score": 44}'', ustr ''unused''],
       calls = [], stdout = []\<rparr>)) = 2
   \<and> claimed_evaluations 40 3
        [JObj [(ustr ''total_score'', JInt 25)], JObj [(ustr ''total_score'', JInt 44)]] = 2\<close>
proof -
  let ?w = \<open>\<lparr>replies = [ustr ''Draft.'', ustr ''{"total_score": 25}'',
                  ustr ''Better.'', ustr ''{"total_score": 44}'', ustr ''unused''],
       calls = [], stdout = []\<rparr>\<close>
  let ?rs = \<open>[(ustr ''Draft.'', ustr ''{"total_score": 25}''),
              (ustr ''Better.'', ustr ''{"total_score": 44}'')]\<close>
  let ?jds = "[JObj [(ustr ''total_score'', JInt 25)], JObj [(ustr ''total_score'', JInt 44)]]"
  have a1: "replies ?w = script ?rs @ [ustr ''unused'']" by simp
  have a2: "map (\<lambda>r. parse_judge_response stub_lib (snd r)) ?rs = map Inr ?jds"
    by (simp add: stub_parse_score)
  have c: "claimed_evaluations 40 3 ?jds = 2"
    by (simp add: claimed_evaluations_def first_passing_round_def score_ge_def)
  have a3: "2 = nat (max 1 (claimed_evaluations 40 3 ?jds))"
    by (simp add: c)
  have a4: "(2::nat) \<le> length ?rs" by simp
  have a5: "list_all scored (take 2 ?jds)" by (simp add: ustr_eq_iff)
  have a6: "list_all revisable (take (2 - 1) ?jds)" by (simp add: ustr_eq_iff)
  from story_pipeline_evaluation_count [OF a1 a2 a3 a4 a5 a6, of "ustr ''a cat''" True]
  obtain w' where "story_pipeline stub_lib (ustr ''a cat'') 40 3 True ?w
      = (Inr (fst (?rs ! (2 - 1)), ?jds ! (2 - 1)), w')"
    and "judge_calls w' = judge_calls ?w + 2" by blast
  then show ?thesis using c by (simp add: judge_calls_def ustr_eq_iff)
qed

text \<open>
  Where the count differs. With \<open>max_rounds = 0\<close> the first draft is still judged: one
  evaluation, where the specification counts 0. With \<open>issues\<close> set to \<open>null\<close> in a
  failing record, \<open>revise_story\<close> raises \<open>TypeError\<close> after one evaluation, where the
  specification counts 2. A \<open>total_score\<close> of NaN is not below the threshold, so the
  loop ends after one evaluation although the score does not reach the threshold. A
  \<open>total_score\<close> of \<open>null\<close> makes the comparison raise \<open>TypeError\<close> after one
  evaluation. And when the gateway has no reply left for the rewrite, the run ends with
  the gateway's error after one evaluation.
\<close>

theorem story_pipeline_evaluation_count_counterexample:
  \<open>judge_calls (snd (story_pipeline stub_lib (ustr ''a cat'') 40 0 False
      \<lparr>replies = [ustr ''Draft.'', ustr ''{"total_score": 44}''], calls = [], stdout = []\<rparr>)) = 1
   \<and> claimed_evaluations 40 0 [JObj [(ustr ''total_score'', JInt 44)]] = 0
   \<and> parse_judge_response table_lib (ustr ''{"total_score": 10, "issues": null}'')
       = Inr (JObj [(ustr ''total_score'', JInt 10), (ustr ''issues'', JNull)])
   \<and> parse_judge_response table_lib (ustr ''{"total_score": 50}'')
       = Inr (JObj [(ustr ''total_score'', JInt 50)])
   \<and> fst (story_pipeline table_lib (ustr ''a cat'') 40 3 False
        \<lparr>replies = [ustr ''Draft.'', ustr ''{"total_score": 10, "issues": null}'',
                    ustr ''Better.'', ustr ''{"total_score": 50}''],
         calls = [], stdout = []\<rparr>) = Inl TypeError
   \<and> judge_calls (snd (story_pipeline table_lib (ustr ''a cat'') 40 3 False
        \<lparr>replies = [ustr ''Draft.'', ustr ''{"total_score": 10, "issues": null}'',
                    ustr ''Better.'', ustr ''{"total_score": 50}''],
         calls = [], stdout = []\<rparr>)) = 1
   \<and> claimed_evaluations 40 3
        [JObj [(ustr ''total_score'', JInt 10), (ustr ''issues'', JNull)],
         JObj [(ustr ''total_score'', JInt 50)]] = 2
   \<and> parse_judge_response table_lib (ustr ''{"total_score": NaN}'')
       = Inr (JObj [(ustr ''total_score'', JFloat NaN)])
   \<and> fst (story_pipeline table_lib (ustr ''a cat'') 40 3 False
        \<lparr>replies = [ustr ''Draft.'', ustr ''{"total_score": NaN}'',
                    ustr ''Better.'', ustr ''{"total_score": 50}''],
         calls = [], stdout = []\<rparr>)
       = Inr (ustr ''Draft.'', JObj [(ustr ''total_score'', JFloat NaN)])
   \<and> judge_calls (snd (story_pipeline table_lib (ustr ''a cat'') 40 3 False
        \<lparr>replies = [ustr ''Draft.'', ustr ''{"total_score": NaN}'',
                    ustr ''Better.'', ustr ''{"total_score": 50}''],
         calls = [], stdout = []\<rparr>)) = 1
   \<and> claimed_evaluations 40 3
        [JObj [(ustr ''total_score'', JFloat NaN)], JObj [(ustr ''total_score'', JInt 50)]] = 2
   \<and> parse_judge_response table_lib (ustr ''{"total_score": null}'')
       = Inr (JObj [(ustr ''total_score'', JNull)])
   \<and> fst (story_pipeline table_lib (ustr ''a cat'') 40 3 False
        \<lparr>replies = [ustr ''Draft.'', ustr ''{"total_score": null}'',
                    ustr ''Better.'', ustr ''{"total_score": 50}''],
         calls = [], stdout = []\<rparr>) = Inl TypeError
   \<and> judge_calls (snd (story_pipeline table_lib (ustr ''a cat'') 40 3 False
        \<lparr>replies = [ustr ''Draft.'', ustr ''{"total_score": null}'',
                    ustr ''Better.'', ustr ''{"total_score": 50}''],
         calls = [], stdout = []\<rparr>)) = 1
   \<and> claimed_evaluations 40 3
        [JObj [(ustr ''total_score'', JNull)], JObj [(ustr ''total_score'', JInt 50)]] = 2
   \<and> parse_judge_response stub_lib (ustr ''{"total_score": 25}'')
       = Inr (JObj [(ustr ''total_score'', JInt 25)])
   \<and> fst (story_pipeline stub_lib (ustr ''a cat'') 40 3 False
        \<lparr>replies = [ustr ''Draft.'', ustr ''{"total_score": 25}''], calls = [], stdout = []\<rparr>)
       = Inl GatewayError
   \<and> judge_calls (snd (story_pipeline stub_lib (ustr ''a cat'') 40 3 False
        \<lparr>replies = [ustr ''Draft.'', ustr ''{"total_score": 25}''], calls = [], stdout = []\<rparr>))
       = 1
   \<and> claimed_evaluations 40 3 [JObj [(ustr ''total_score'', JInt 25)]] = 2\<close>
proof -
  let ?w = \<open>\<lparr>replies = [ustr ''Draft.'', ustr ''{"total_score": 44}''], calls = [], stdout = []\<rparr>\<close>
  let ?j44 = "JObj [(ustr ''total_score'', JInt 44)]"
  have s44: "score_below ?j44 40 = Inr False" by (simp add: score_below_def)
  have r: \<open>replies ?w = ustr ''Draft.'' # ustr ''{"total_score": 44}'' # []\<close> by simp
  have A: "judge_calls (snd (story_pipeline stub_lib (ustr ''a cat'') 40 0 False ?w)) = 1"
    by (simp add: story_pipeline_quiet_start [OF r stub_parse_score(4)]
        refine_loop_stops_at [OF s44] judge_calls_def is_judge_call_def)
  have A': "claimed_evaluations 40 0 [?j44] = 0"
    by (simp add: claimed_evaluations_def first_passing_round_def)
  let ?w2 = \<open>\<lparr>replies = [ustr ''Draft.'', ustr ''{"total_score": 10, "issues": null}'',
                    ustr ''Better.'', ustr ''{"total_score": 50}''],
         calls = [], stdout = []\<rparr>\<close>
  let ?j10 = "JObj [(ustr ''total_score'', JInt 10), (ustr ''issues'', JNull)]"
  let ?j50 = "JObj [(ustr ''total_score'', JInt 50)]"
  have s10: "score_below ?j10 40 = Inr True" by (simp add: score_below_def)
  have rv: "revise_story table_lib (ustr ''Draft.'') ?j10 w = (Inl TypeError, w)" for w
    by (simp add: revise_story_def bullets_def ustr_eq_iff)
  have r2: \<open>replies ?w2 = ustr ''Draft.'' # ustr ''{"total_score": 10, "issues": null}''
              # [ustr ''Better.'', ustr ''{"total_score": 50}'']\<close> by simp
  have lt: "(1::int) < 3" by simp
  have B: "fst (story_pipeline table_lib (ustr ''a cat'') 40 3 False ?w2) = Inl TypeError"
      "judge_calls (snd (story_pipeline table_lib (ustr ''a cat'') 40 3 False ?w2)) = 1"
    by (simp_all add: story_pipeline_quiet_start [OF r2 table_parse(3)]
        refine_loop_revise_raises [OF s10 lt rv] judge_calls_def is_judge_call_def)
  have B': "claimed_evaluations 40 3 [?j10, ?j50] = 2"
    by (simp add: claimed_evaluations_def first_passing_round_def score_ge_def)
  let ?w3 = \<open>\<lparr>replies = [ustr ''Draft.'', ustr ''{"total_score": NaN}'',
                    ustr ''Better.'', ustr ''{"total_score": 50}''],
         calls = [], stdout = []\<rparr>\<close>
  let ?jn = "JObj [(ustr ''total_score'', JFloat NaN)]"
  have sn: "score_below ?jn 40 = Inr False" by (simp add: score_below_def)
  have r3: \<open>replies ?w3 = ustr ''Draft.'' # ustr ''{"total_score": NaN}''
              # [ustr ''Better.'', ustr ''{"total_score": 50}'']\<close> by simp
  have C: "fst (story_pipeline table_lib (ustr ''a cat'') 40 3 False ?w3)
             = Inr (ustr ''Draft.'', ?jn)"
      "judge_calls (snd (story_pipeline table_lib (ustr ''a cat'') 40 3 False ?w3)) = 1"
    by (simp_all add: story_pipeline_quiet_start [OF r3 table_parse(4)]
        refine_loop_stops_at [OF sn] judge_calls_def is_judge_call_def)
  have C': "claimed_evaluations 40 3 [?jn, ?j50] = 2"
    by (simp add: claimed_evaluations_def first_passing_round_def score_ge_def)
  let ?w4 = \<open>\<lparr>replies = [ustr ''Draft.'', ustr ''{"total_score": null}'',
                    ustr ''Better.'', ustr ''{"total_score": 50}''],
         calls = [], stdout = []\<rparr>\<close>
  let ?j0 = "JObj [(ustr ''total_score'', JNull)]"
  have s0: "score_below ?j0 40 = Inl TypeError" by (simp add: score_below_def)
  have r4: \<open>replies ?w4 = ustr ''Draft.'' # ustr ''{"total_score": null}''
              # [ustr ''Better.'', ustr ''{"total_score": 50}'']\<close> by simp
  have D: "fst (story_pipeline table_lib (ustr ''a cat'') 40 3 False ?w4) = Inl TypeError"
      "judge_calls (snd (story_pipeline table_lib (ustr ''a cat'') 40 3 False ?w4)) = 1"
    by (simp_all add: story_pipeline_quiet_start [OF r4 table_parse(6)]
        refine_loop_compare_raises [OF s0] judge_calls_def is_judge_call_def)
  have D': "claimed_evaluations 40 3 [?j0, ?j50] = 2"
    by (simp add: claimed_evaluations_def first_passing_round_def score_ge_def)
  let ?w5 = \<open>\<lparr>replies = [ustr ''Draft.'', ustr ''{"total_score": 25}''], calls = [], stdout = []\<rparr>\<close>
  let ?j25 = "JObj [(ustr ''total_score'', JInt 25)]"
  have s25: "score_below ?j25 40 = Inr True" by (simp add: score_below_def)
  have r5: \<open>replies ?w5 = ustr ''Draft.'' # ustr ''{"total_score": 25}'' # []\<close> by simp
  have gw: "replies w = [] \<Longrightarrow>
      fst (revise_story stub_lib (ustr ''Draft.'') ?j25 w) = Inl GatewayError
      \<and> judge_calls (snd (revise_story stub_lib (ustr ''Draft.'') ?j25 w)) = judge_calls w" for w
    by (simp add: revise_story_def bullets_def call_model_def judge_calls_def is_judge_call_def
        ustr_eq_iff)
  have E: "fst (story_pipeline stub_lib (ustr ''a cat'') 40 3 False ?w5) = Inl GatewayError"
      "judge_calls (snd (story_pipeline stub_lib (ustr ''a cat'') 40 3 False ?w5)) = 1"
  proof -
    let ?v = \<open>?w5\<lparr>replies := [],
                       calls := calls ?w5 @
                         [\<lparr>prompt = STORY_WRITER_PROMPT (ustr ''a cat''), max_tokens = 900,
                           temperature = 8 / 10, reply = Inr (ustr ''Draft.'')\<rparr>,
                          \<lparr>prompt = JUDGE_PROMPT (ustr ''Draft.''), max_tokens = 600,
                           temperature = 2 / 10, reply = Inr (ustr ''{"total_score": 25}'')\<rparr>]\<rparr>\<close>
    have e: "replies ?v = []" by simp
    have jv: "judge_calls ?v = 1" by (simp add: judge_calls_def is_judge_call_def)
    obtain v' where rr: "revise_story stub_lib (ustr ''Draft.'') ?j25 ?v = (Inl GatewayError, v')"
      and jc: "judge_calls v' = 1"
      using gw [OF e] jv by (metis prod.collapse)
    from refine_loop_revise_raises [OF s25 lt rr, of False]
    have "refine_loop stub_lib 40 3 False 1 (ustr ''Draft.'') ?j25 ?v = (Inl GatewayError, v')" .
    then show "fst (story_pipeline stub_lib (ustr ''a cat'') 40 3 False ?w5) = Inl GatewayError"
      "judge_calls (snd (story_pipeline stub_lib (ustr ''a cat'') 40 3 False ?w5)) = 1"
      using jc by (simp_all only: story_pipeline_quiet_start [OF r5 stub_parse_score(1)]
          sum.case prod.case fst_conv snd_conv)
  qed
  have E': "claimed_evaluations 40 3 [?j25] = 2"
    by (simp add: claimed_evaluations_def first_passing_round_def score_ge_def)
  have ABC: \<open>judge_calls (snd (story_pipeline stub_lib (ustr ''a cat'') 40 0 False ?w)) = 1
   \<and> claimed_evaluations 40 0 [?j44] = 0
   \<and> parse_judge_response table_lib (ustr ''{"total_score": 10, "issues": null}'') = Inr ?j10
   \<and> parse_judge_response table_lib (ustr ''{"total_score": 50}'') = Inr ?j50
   \<and> fst (story_pipeline table_lib (ustr ''a cat'') 40 3 False ?w2) = Inl TypeError
   \<and> judge_calls (snd (story_pipeline table_lib (ustr ''a cat'') 40 3 False ?w2)) = 1
   \<and> claimed_evaluations 40 3 [?j10, ?j50] = 2
   \<and> parse_judge_response table_lib (ustr ''{"total_score": NaN}'') = Inr ?jn
   \<and> fst (story_pipeline table_lib (ustr ''a cat'') 40 3 False ?w3) = Inr (ustr ''Draft.'', ?jn)
   \<and> judge_calls (snd (story_pipeline table_lib (ustr ''a cat'') 40 3 False ?w3)) = 1
   \<and> claimed_evaluations 40 3 [?jn, ?j50] = 2\<close>
    using A A' B B' C C' table_parse(2,3,4) by blast
  have DE: \<open>parse_judge_response table_lib (ustr ''{"total_score": null}'') = Inr ?j0
   \<and> fst (story_pipeline table_lib (ustr ''a cat'') 40 3 False ?w4) = Inl TypeError
   \<and> judge_calls (snd (story_pipeline table_lib (ustr ''a cat'') 40 3 False ?w4)) = 1
   \<and> claimed_evaluations 40 3 [?j0, ?j50] = 2
   \<and> parse_judge_response stub_lib (ustr ''{"total_score": 25}'') = Inr ?j25
   \<and> fst (story_pipeline stub_lib (ustr ''a cat'') 40 3 False ?w5) = Inl GatewayError
   \<and> judge_calls (snd (story_pipeline stub_lib (ustr ''a cat'') 40 3 False ?w5)) = 1
   \<and> claimed_evaluations 40 3 [?j25] = 2\<close>
    using D D' E E' table_parse(6) stub_parse_score(1) by blast
  from ABC DE show ?thesis by (simp only: conj_assoc simp_thms)
qed

section \<open>What the controller returns\<close>

lemma call_model_Inr:
  assumes "call_model p mt t w = (Inr r, w')"
  shows "calls w' = calls w @ [\<lparr>prompt = p, max_tokens = mt, temperature = t, reply = Inr r\<rparr>]"
    and "replies w = r # replies w'" and "stdout w' = stdout w"
  using assms by (auto simp: call_model_def split: list.splits)

lemma judge_story_Inr:
  assumes "judge_story L story w = (Inr jd, w')"
  shows "\<exists>raw. calls w' = calls w @ [\<lparr>prompt = JUDGE_PROMPT story, max_tokens = 600,
                                        temperature = 2 / 10, reply = Inr raw\<rparr>]
               \<and> replies w = raw # replies w'
               \<and> parse_judge_response L raw = Inr jd"
proof -
  from assms obtain raw w1 where c: "call_model (JUDGE_PROMPT story) 600 (2 / 10) w = (Inr raw, w1)"
    and p: "parse_judge_response L raw = Inr jd" and w: "w' = w1"
    by (auto simp: judge_story_def split: prod.splits sum.splits)
  from call_model_Inr [OF c] p w show ?thesis by blast
qed

lemma revise_story_Inr:
  assumes "revise_story L story jd w = (Inr r, w')"
  shows "\<exists>p. calls w' = calls w @ [\<lparr>prompt = p, max_tokens = 900, temperature = 7 / 10,
                                      reply = Inr r\<rparr>]
             \<and> replies w = r # replies w'"
proof -
  from assms obtain p where "call_model p 900 (7 / 10) w = (Inr r, w')"
    by (auto simp: revise_story_def split: sum.splits)
  from call_model_Inr [OF this] show ?thesis by blast
qed

lemma py_print_frame [simp]:
  "calls (py_print args w) = calls w" "replies (py_print args w) = replies w"
  by (simp_all add: py_print_def)

lemma report_round_frame:
  "calls (snd (report_round L h jd w)) = calls w"
  "replies (snd (report_round L h jd w)) = replies w"
  by (simp_all add: report_round_def Let_def split: sum.splits)

lemma report_if_frame:
  assumes "(if verbose then report_round L h jd w else (Inr (), w)) = (x, w')"
  shows "calls w' = calls w" and "replies w' = replies w"
  using assms report_round_frame [of L h jd w]
  by (auto split: if_splits)

lemma judged_pair_append:
  assumes "calls w' = cs @ [\<lparr>prompt = JUDGE_PROMPT story, max_tokens = 600,
                              temperature = 2 / 10, reply = Inr raw\<rparr>]"
    and "parse_judge_response L raw = Inr jd"
  shows "judged_pair L w' story jd"
  using assms by (simp add: judged_pair_def is_judge_call_def)

lemma latest_story_append:
  assumes "calls w' = cs @ [\<lparr>prompt = p, max_tokens = 900, temperature = t, reply = Inr story\<rparr>,
                            \<lparr>prompt = p', max_tokens = 600, temperature = 2 / 10, reply = r\<rparr>]"
  shows "latest_story w' story"
  using assms by (simp add: latest_story_def is_judge_call_def)

lemma refine_loop_unfold_stop:
  assumes "refine_loop L m r v i story jd w = (Inr res, w')"
    and "score_below jd m = Inr below" and "\<not> (below \<and> i < r)"
  shows "res = (i, story, jd) \<and> w' = w"
  using assms by (subst (asm) refine_loop.simps) auto

lemma refine_loop_unfold_go:
  assumes "refine_loop L m r v i story jd w = (Inr res, w')"
    and "score_below jd m = Inr below" and "below \<and> i < r"
  shows "\<exists>s1 w1 jd1 w2 w3.
           revise_story L story jd w = (Inr s1, w1)
           \<and> judge_story L s1 w1 = (Inr jd1, w2)
           \<and> (if v then report_round L
                   (ustr ''--- Judge evaluation: round '' @ str_int (i + 1) @ ustr '' ---'') jd1 w2
               else (Inr (), w2)) = (Inr (), w3)
           \<and> refine_loop L m r v (i + 1) s1 jd1 w3 = (Inr res, w')"
proof (cases v)
  case True
  with assms show ?thesis
    by (subst (asm) refine_loop.simps) (auto split: sum.splits prod.splits)
next
  case False
  with assms show ?thesis
    by (subst (asm) refine_loop.simps) (auto split: sum.splits prod.splits)
qed

lemma refine_loop_below:
  assumes "refine_loop L m r v i story jd w = (Inr res, w')"
  shows "\<exists>below. score_below jd m = Inr below"
  using assms by (subst (asm) refine_loop.simps) (auto split: sum.splits)

lemma refine_loop_invariant:
  assumes "refine_loop L m r v i story jd w = (Inr (i', story', jd'), w')"
    and "latest_story w story" and "judged_pair L w story jd"
  shows "latest_story w' story' \<and> judged_pair L w' story' jd'
         \<and> (\<exists>cs. calls w' = calls w @ cs)"
  using assms
proof (induction "nat (r - i)" arbitrary: i story jd w rule: less_induct)
  case less
  from refine_loop_below [OF less.prems(1)] obtain below
    where sb: "score_below jd m = Inr below" by blast
  show ?case
  proof (cases "below \<and> i < r")
    case False
    from refine_loop_unfold_stop [OF less.prems(1) sb False] less.prems(2,3)
    show ?thesis by simp
  next
    case True
    from refine_loop_unfold_go [OF less.prems(1) sb True] obtain s1 w1 jd1 w2 w3
      where rv: "revise_story L story jd w = (Inr s1, w1)"
        and js: "judge_story L s1 w1 = (Inr jd1, w2)"
        and rp: "(if v then report_round L
                   (ustr ''--- Judge evaluation: round '' @ str_int (i + 1) @ ustr '' ---'') jd1 w2
               else (Inr (), w2)) = (Inr (), w3)"
        and rec: "refine_loop L m r v (i + 1) s1 jd1 w3 = (Inr (i', story', jd'), w')"
      by blast
    from revise_story_Inr [OF rv] obtain p
      where c1: "calls w1 = calls w @ [\<lparr>prompt = p, max_tokens = 900, temperature = 7 / 10,
                                      reply = Inr s1\<rparr>]" by blast
    from judge_story_Inr [OF js] obtain raw
      where c2: "calls w2 = calls w1 @ [\<lparr>prompt = JUDGE_PROMPT s1, max_tokens = 600,
                                        temperature = 2 / 10, reply = Inr raw\<rparr>]"
        and pr: "parse_judge_response L raw = Inr jd1" by blast
    from report_if_frame(1) [OF rp] c1 c2
    have c3: "calls w3 = calls w @ [\<lparr>prompt = p, max_tokens = 900, temperature = 7 / 10,
                                      reply = Inr s1\<rparr>,
                                   \<lparr>prompt = JUDGE_PROMPT s1, max_tokens = 600,
                                        temperature = 2 / 10, reply = Inr raw\<rparr>]"
      by simp
    have l3: "latest_story w3 s1" using c3 by (rule latest_story_append)
    have "calls w3 = (calls w @ [\<lparr>prompt = p, max_tokens = 900, temperature = 7 / 10,
                                      reply = Inr s1\<rparr>]) @
                                   [\<lparr>prompt = JUDGE_PROMPT s1, max_tokens = 600,
                                        temperature = 2 / 10, reply = Inr raw\<rparr>]"
      using c3 by simp
    then have j3: "judged_pair L w3 s1 jd1" using pr by (rule judged_pair_append)
    have "nat (r - (i + 1)) < nat (r - i)" using True by simp
    from less.hyps [OF this rec l3 j3] c3 show ?thesis by auto
  qed
qed

lemma story_pipeline_invariant:
  assumes "story_pipeline L user_request m r v w = (Inr (story, jd), w')"
  shows "latest_story w' story \<and> judged_pair L w' story jd
         \<and> (\<exists>cs. calls w' = calls w @ cs \<and> 2 \<le> length cs)"
proof -
  from assms obtain s0 w1 jd0 w2 w3 i'
    where g: "generate_initial_story user_request w = (Inr s0, w1)"
      and js: "judge_story L s0 w1 = (Inr jd0, w2)"
      and rp: "(if v then report_round L ([10] @ ustr ''--- Judge evaluation: round 1 ---'') jd0 w2
                else (Inr (), w2)) = (Inr (), w3)"
      and lp: "refine_loop L m r v 1 s0 jd0 w3 = (Inr (i', story, jd), w')"
    unfolding story_pipeline_def
    by (auto split: sum.splits prod.splits)
  from call_model_Inr(1) [OF g [unfolded generate_initial_story_def]]
  have c1: "calls w1 = calls w @ [\<lparr>prompt = STORY_WRITER_PROMPT user_request, max_tokens = 900,
                                   temperature = 8 / 10, reply = Inr s0\<rparr>]" .
  from judge_story_Inr [OF js] obtain raw
    where c2: "calls w2 = calls w1 @ [\<lparr>prompt = JUDGE_PROMPT s0, max_tokens = 600,
                                        temperature = 2 / 10, reply = Inr raw\<rparr>]"
      and pr: "parse_judge_response L raw = Inr jd0" by blast
  from report_if_frame(1) [OF rp] c1 c2
  have c3: "calls w3 = calls w @ [\<lparr>prompt = STORY_WRITER_PROMPT user_request, max_tokens = 900,
                                   temperature = 8 / 10, reply = Inr s0\<rparr>,
                                 \<lparr>prompt = JUDGE_PROMPT s0, max_tokens = 600,
                                        temperature = 2 / 10, reply = Inr raw\<rparr>]"
    by simp
  have l3: "latest_story w3 s0" using c3 by (rule latest_story_append)
  have "calls w3 = (calls w @ [\<lparr>prompt = STORY_WRITER_PROMPT user_request, max_tokens = 900,
                                   temperature = 8 / 10, reply = Inr s0\<rparr>]) @
                                 [\<lparr>prompt = JUDGE_PROMPT s0, max_tokens = 600,
                                        temperature = 2 / 10, reply = Inr raw\<rparr>]"
    using c3 by simp
  then have j3: "judged_pair L w3 s0 jd0" using pr by (rule judged_pair_append)
  from refine_loop_invariant [OF lp l3 j3] obtain cs
    where "latest_story w' story" "judged_pair L w' story jd" "calls w' = calls w3 @ cs"
    by blast
  with c3 show ?thesis by auto
qed

section \<open>The feedback loop\<close>

lemma print_issues_frame:
  assumes "print_issues h v w = (x, w')"
  shows "calls w' = calls w" and "replies w' = replies w"
  using assms by (auto simp: print_issues_def Let_def split: sum.splits if_splits)

lemma final_report_frame:
  assumes "final_report L jd w = (x, w')"
  shows "calls w' = calls w" and "replies w' = replies w"
proof -
  let ?w1 = "py_print [[10] @ ustr ''No more changes requested.''] w"
  show "calls w' = calls w"
  proof (cases "dict_get jd (ustr ''total_score'') JNull")
    case (Inl e)
    with assms show ?thesis by (auto simp: final_report_def Let_def)
  next
    case (Inr sc)
    let ?w2 = "py_print [ustr ''Final internal judge score:'', py_str L sc] ?w1"
    show ?thesis
    proof (cases "dict_get jd (ustr ''issues'') (JArr [])")
      case (Inl e)
      with assms Inr show ?thesis by (auto simp: final_report_def Let_def)
    next
      case iss: (Inr final_issues)
      obtain y w3 where pi: "print_issues (ustr ''Final judge issues:'') final_issues ?w2 = (y, w3)"
        by (cases "print_issues (ustr ''Final judge issues:'') final_issues ?w2")
      from print_issues_frame(1) [OF pi] have "calls w3 = calls w" by simp
      with assms Inr iss pi show ?thesis
        by (cases y) (auto simp: final_report_def Let_def)
    qed
  qed
  show "replies w' = replies w"
  proof (cases "dict_get jd (ustr ''total_score'') JNull")
    case (Inl e)
    with assms show ?thesis by (auto simp: final_report_def Let_def)
  next
    case (Inr sc)
    let ?w2 = "py_print [ustr ''Final internal judge score:'', py_str L sc] ?w1"
    show ?thesis
    proof (cases "dict_get jd (ustr ''issues'') (JArr [])")
      case (Inl e)
      with assms Inr show ?thesis by (auto simp: final_report_def Let_def)
    next
      case iss: (Inr final_issues)
      obtain y w3 where pi: "print_issues (ustr ''Final judge issues:'') final_issues ?w2 = (y, w3)"
        by (cases "print_issues (ustr ''Final judge issues:'') final_issues ?w2")
      from print_issues_frame(2) [OF pi] have "replies w3 = replies w" by simp
      with assms Inr iss pi show ?thesis
        by (cases y) (auto simp: final_report_def Let_def)
    qed
  qed
qed

lemma feedback_cycle_Inr:
  assumes "feedback_cycle L fb cur w = (Inr (story, jd), w')"
  shows "\<exists>raw. calls w' = calls w @
                  [\<lparr>prompt = USER_FEEDBACK_PROMPT cur fb, max_tokens = 900,
                    temperature = 7 / 10, reply = Inr story\<rparr>,
                   \<lparr>prompt = JUDGE_PROMPT story, max_tokens = 600,
                    temperature = 2 / 10, reply = Inr raw\<rparr>]
               \<and> replies w = story # raw # replies w'
               \<and> parse_judge_response L raw = Inr jd"
proof -
  from assms obtain w1 w2 sc issues w8 u
    where c: "call_model (USER_FEEDBACK_PROMPT cur fb) 900 (7 / 10) w = (Inr story, w1)"
      and js: "judge_story L story w1 = (Inr jd, w2)"
      and pi: "print_issues (ustr ''Issues:'') issues
                 (py_print [ustr ''Total score:'', py_str L sc]
                   (py_print [ustr ''--- Judge evaluation for updated story ---'']
                     (py_print [[10] @ ustr ''================================='' @ [10]]
                       (py_print [story]
                         (py_print [[10] @ ustr ''========= UPDATED STORY ========='' @ [10]] w2)))))
               = (Inr u, w8)"
      and w': "w' = py_print [] w8"
    unfolding feedback_cycle_def Let_def
    by (auto split: sum.splits prod.splits)
  from print_issues_frame [OF pi]
  have f: "calls w8 = calls w2" "replies w8 = replies w2"
    by simp_all
  from judge_story_Inr [OF js] obtain raw
    where j: "calls w2 = calls w1 @ [\<lparr>prompt = JUDGE_PROMPT story, max_tokens = 600,
                                        temperature = 2 / 10, reply = Inr raw\<rparr>]"
      "replies w1 = raw # replies w2" "parse_judge_response L raw = Inr jd"
    by blast
  from call_model_Inr [OF c] j f w' show ?thesis by simp
qed

lemma feedback_loop_invariant:
  assumes "feedback_loop L lines cur cur_jd w = (Inr (story, jd), w')"
    and "judged_pair L w cur cur_jd"
  shows "judged_pair L w' story jd"
  using assms
proof (induction lines arbitrary: cur cur_jd w)
  case Nil
  then show ?case by simp
next
  case (Cons line lines)
  let ?w0 = "w\<lparr>stdout := stdout w @ [FEEDBACK_QUESTION]\<rparr>"
  show ?case
  proof (cases "py_strip line = []")
    case True
    with Cons.prems(1) obtain u where fr: "final_report L cur_jd ?w0 = (Inr u, w')"
      and eq: "story = cur" "jd = cur_jd"
      by (auto simp: Let_def split: sum.splits prod.splits)
    from final_report_frame(1) [OF fr] have "calls w' = calls w" by simp
    with Cons.prems(2) eq show ?thesis by (simp add: judged_pair_def)
  next
    case False
    with Cons.prems(1) obtain s1 jd1 w1
      where fc: "feedback_cycle L (py_strip line) cur ?w0 = (Inr (s1, jd1), w1)"
        and rec: "feedback_loop L lines s1 jd1 w1 = (Inr (story, jd), w')"
      by (auto simp: Let_def split: sum.splits prod.splits)
    from feedback_cycle_Inr [OF fc] obtain raw
      where "calls w1 = (calls ?w0 @
                  [\<lparr>prompt = USER_FEEDBACK_PROMPT cur (py_strip line), max_tokens = 900,
                    temperature = 7 / 10, reply = Inr s1\<rparr>]) @
                   [\<lparr>prompt = JUDGE_PROMPT s1, max_tokens = 600,
                    temperature = 2 / 10, reply = Inr raw\<rparr>]"
        and "parse_judge_response L raw = Inr jd1"
      by auto
    then have "judged_pair L w1 s1 jd1" by (rule judged_pair_append)
    from Cons.IH [OF rec this] show ?thesis .
  qed
qed

lemma stdout_py_print:
  "stdout (py_print args w) = stdout w @ [str_join [32] args @ [10]]"
  by (simp add: py_print_def)

lemma str_items_ok: "list_all is_str xs \<Longrightarrow> \<exists>ss. str_items xs = Inr ss"
proof (induction xs)
  case Nil
  then show ?case by simp
next
  case (Cons x xs)
  then obtain s where "x = JStr s" by (cases x) auto
  with Cons show ?case by auto
qed

lemma print_issues_ok:
  assumes "is_str_list v"
  shows "\<exists>w'. print_issues h v w = (Inr (), w') \<and> set (stdout w) \<subseteq> set (stdout w')"
proof -
  from assms obtain xs where v: "v = JArr xs" and xs: "list_all is_str xs"
    by (cases v) auto
  from str_items_ok [OF xs] obtain ss where "str_items xs = Inr ss" by blast
  with v show ?thesis
    by (auto simp: print_issues_def join_strs_def Let_def stdout_py_print)
qed

lemma record_fields:
  assumes "evaluation_record jd"
  shows "\<exists>sc. dict_get jd (ustr ''total_score'') JNull = Inr sc \<and> py_str L sc = score_text L jd"
    and "\<exists>iv. dict_get jd (ustr ''issues'') (JArr []) = Inr iv \<and> is_str_list iv"
proof -
  from assms obtain kvs where jd: "jd = JObj kvs"
    and i: "field_ok is_str_list (map_of kvs (ustr ''issues''))"
    by (cases jd) auto
  show "\<exists>sc. dict_get jd (ustr ''total_score'') JNull = Inr sc \<and> py_str L sc = score_text L jd"
    using jd by (simp add: score_text_def)
  show "\<exists>iv. dict_get jd (ustr ''issues'') (JArr []) = Inr iv \<and> is_str_list iv"
    using jd dict_get_record [OF i, of "JArr []"] by simp
qed

lemma final_report_record:
  assumes "evaluation_record jd"
  shows "\<exists>w'. final_report L jd w = (Inr (), w')
          \<and> set (stdout w) \<subseteq> set (stdout w')
          \<and> ustr ''Final internal judge score:'' @ 32 # score_text L jd @ [10] \<in> set (stdout w')"
proof -
  from record_fields(1) [OF assms, of L] record_fields(2) [OF assms] obtain sc iv
    where sc: "dict_get jd (ustr ''total_score'') JNull = Inr sc" "py_str L sc = score_text L jd"
      and iv: "dict_get jd (ustr ''issues'') (JArr []) = Inr iv" "is_str_list iv"
    by blast
  let ?w2 = "py_print [ustr ''Final internal judge score:'', py_str L sc]
               (py_print [[10] @ ustr ''No more changes requested.''] w)"
  from print_issues_ok [OF iv(2), of "ustr ''Final judge issues:''" ?w2] obtain w3
    where pi: "print_issues (ustr ''Final judge issues:'') iv ?w2 = (Inr (), w3)"
      and sub: "set (stdout ?w2) \<subseteq> set (stdout w3)"
    by blast
  have "final_report L jd w = (Inr (), py_print [ustr ''Goodnight! '' @ [240, 376, 338, 8482]] w3)"
    using sc(1) iv(1) pi by (simp add: final_report_def Let_def)
  moreover have "set (stdout w3) \<subseteq>
      set (stdout (py_print [ustr ''Goodnight! '' @ [240, 376, 338, 8482]] w3))"
    by (simp add: stdout_py_print subset_insertI2)
  moreover have "set (stdout w) \<subseteq> set (stdout ?w2)"
    by (simp add: stdout_py_print subset_insertI2)
  moreover have "ustr ''Final internal judge score:'' @ 32 # score_text L jd @ [10] \<in> set (stdout ?w2)"
    using sc(2) by (simp add: stdout_py_print)
  ultimately show ?thesis using sub by blast
qed

lemma feedback_cycle_record:
  assumes rs: "replies w = story # raw # rest"
    and p: "parse_judge_response L raw = Inr jd"
    and rec: "evaluation_record jd"
  shows "\<exists>w'. feedback_cycle L fb cur w = (Inr (story, jd), w')
          \<and> set (stdout w) \<subseteq> set (stdout w')
          \<and> story @ [10] \<in> set (stdout w')
          \<and> ustr ''Total score:'' @ 32 # score_text L jd @ [10] \<in> set (stdout w')"
proof -
  let ?c1 = "\<lparr>prompt = USER_FEEDBACK_PROMPT cur fb, max_tokens = 900,
               temperature = 7 / 10, reply = Inr story\<rparr>"
  let ?w1 = "w\<lparr>replies := raw # rest, calls := calls w @ [?c1]\<rparr>"
  have c: "call_model (USER_FEEDBACK_PROMPT cur fb) 900 (7 / 10) w = (Inr story, ?w1)"
    using rs by (simp add: call_model_reply)
  let ?c2 = "\<lparr>prompt = JUDGE_PROMPT story, max_tokens = 600, temperature = 2 / 10,
               reply = Inr raw\<rparr>"
  let ?w2 = "?w1\<lparr>replies := rest, calls := calls ?w1 @ [?c2]\<rparr>"
  have j: "judge_story L story ?w1 = (Inr jd, ?w2)"
    using judge_story_reply [of ?w1 raw rest L story] p by simp
  from record_fields(1) [OF rec, of L] record_fields(2) [OF rec] obtain sc iv
    where sc: "dict_get jd (ustr ''total_score'') JNull = Inr sc" "py_str L sc = score_text L jd"
      and iv: "dict_get jd (ustr ''issues'') (JArr []) = Inr iv" "is_str_list iv"
    by blast
  let ?w7 = "py_print [ustr ''Total score:'', py_str L sc]
                   (py_print [ustr ''--- Judge evaluation for updated story ---'']
                     (py_print [[10] @ ustr ''================================='' @ [10]]
                       (py_print [story]
                         (py_print [[10] @ ustr ''========= UPDATED STORY ========='' @ [10]] ?w2))))"
  from print_issues_ok [OF iv(2), of "ustr ''Issues:''" ?w7] obtain w8
    where pi: "print_issues (ustr ''Issues:'') iv ?w7 = (Inr (), w8)"
      and sub: "set (stdout ?w7) \<subseteq> set (stdout w8)"
    by blast
  have "feedback_cycle L fb cur w = (Inr (story, jd), py_print [] w8)"
    unfolding feedback_cycle_def Let_def
    by (simp only: c j sc(1) iv(1) pi sum.case prod.case)
  moreover have "set (stdout w8) \<subseteq> set (stdout (py_print [] w8))"
    by (simp add: stdout_py_print subset_insertI2)
  moreover have "set (stdout w) \<subseteq> set (stdout ?w7)"
    by (simp add: stdout_py_print subset_insertI2)
  moreover have "story @ [10] \<in> set (stdout ?w7)"
    by (simp add: stdout_py_print)
  moreover have "ustr ''Total score:'' @ 32 # score_text L jd @ [10] \<in> set (stdout ?w7)"
    using sc(2) by (simp add: stdout_py_print)
  ultimately show ?thesis using sub by blast
qed

lemma feedback_loop_script:
  assumes "list_all (\<lambda>f. py_strip f \<noteq> []) fs" and "py_strip blank = []"
    and "replies w = script rounds @ rest" and "length rounds = length fs"
    and "map (\<lambda>r. parse_judge_response L (snd r)) rounds = map Inr jds"
    and "list_all evaluation_record jds" and "evaluation_record jd"
  shows "\<exists>w'. feedback_loop L (fs @ blank # later) story jd w
                 = (Inr (last (story # map fst rounds), last (jd # jds)), w')
          \<and> replies w' = rest
          \<and> calls w' = calls w @ feedback_calls story (map py_strip fs) rounds
          \<and> judge_calls w' = judge_calls w + length fs
          \<and> rewrite_calls w' = rewrite_calls w + length fs
          \<and> set (stdout w) \<subseteq> set (stdout w')
          \<and> list_all (\<lambda>r. fst r @ [10] \<in> set (stdout w')) rounds
          \<and> ustr ''Final internal judge score:'' @ 32 # score_text L (last (jd # jds)) @ [10]
               \<in> set (stdout w')"
  using assms
proof (induction fs arbitrary: rounds jds story jd w)
  case Nil
  let ?w0 = "w\<lparr>stdout := stdout w @ [FEEDBACK_QUESTION]\<rparr>"
  from Nil have e: "rounds = []" "jds = []" by simp_all
  from final_report_record [OF Nil.prems(7), of L ?w0] obtain w'
    where fr: "final_report L jd ?w0 = (Inr (), w')"
      and sub: "set (stdout ?w0) \<subseteq> set (stdout w')"
      and sc: "ustr ''Final internal judge score:'' @ 32 # score_text L jd @ [10] \<in> set (stdout w')"
    by blast
  from final_report_frame [OF fr] have fw: "calls w' = calls w" "replies w' = replies w"
    by simp_all
  have "feedback_loop L ([] @ blank # later) story jd w = (Inr (story, jd), w')"
    using Nil.prems(2) fr by (simp add: Let_def)
  with e fw sub sc Nil.prems(3) show ?case
    by (auto simp: judge_calls_def rewrite_calls_def)
next
  case (Cons f fs)
  let ?w0 = "w\<lparr>stdout := stdout w @ [FEEDBACK_QUESTION]\<rparr>"
  from Cons.prems(4) obtain r rounds' where rounds: "rounds = r # rounds'"
    and len: "length rounds' = length fs"
    by (cases rounds) auto
  obtain s1 raw1 where r: "r = (s1, raw1)" by (cases r)
  from Cons.prems(5) rounds r obtain jd1 jds' where jds: "jds = jd1 # jds'"
    and p1: "parse_judge_response L raw1 = Inr jd1"
    and ps: "map (\<lambda>r. parse_judge_response L (snd r)) rounds' = map Inr jds'"
    by (cases jds) auto
  from Cons.prems(6) jds have rec1: "evaluation_record jd1"
    and recs: "list_all evaluation_record jds'" by simp_all
  from Cons.prems(1) have ne: "py_strip f \<noteq> []"
    and nes: "list_all (\<lambda>f. py_strip f \<noteq> []) fs" by simp_all
  have rs0: "replies ?w0 = s1 # raw1 # (script rounds' @ rest)"
    using Cons.prems(3) rounds r by simp
  from feedback_cycle_record [OF rs0 p1 rec1, of "py_strip f" story] obtain w1
    where fc: "feedback_cycle L (py_strip f) story ?w0 = (Inr (s1, jd1), w1)"
      and sub1: "set (stdout ?w0) \<subseteq> set (stdout w1)"
      and shown: "s1 @ [10] \<in> set (stdout w1)"
    by blast
  from feedback_cycle_Inr [OF fc] obtain raw
    where c1: "calls w1 = calls ?w0 @
                  [\<lparr>prompt = USER_FEEDBACK_PROMPT story (py_strip f), max_tokens = 900,
                    temperature = 7 / 10, reply = Inr s1\<rparr>,
                   \<lparr>prompt = JUDGE_PROMPT s1, max_tokens = 600,
                    temperature = 2 / 10, reply = Inr raw\<rparr>]"
      and r1: "replies ?w0 = s1 # raw # replies w1"
    by blast
  from r1 rs0 have rs1: "replies w1 = script rounds' @ rest" and raw: "raw = raw1" by simp_all
  have cw: "calls w1 = calls w @
                  [\<lparr>prompt = USER_FEEDBACK_PROMPT story (py_strip f), max_tokens = 900,
                    temperature = 7 / 10, reply = Inr s1\<rparr>,
                   \<lparr>prompt = JUDGE_PROMPT s1, max_tokens = 600,
                    temperature = 2 / 10, reply = Inr raw\<rparr>]"
    using c1 by simp
  have jc: "judge_calls w1 = judge_calls w + 1"
    using judge_calls_append [OF cw] by (simp add: is_judge_call_def)
  have rc: "rewrite_calls w1 = rewrite_calls w + 1"
    using rewrite_calls_append [OF cw] by (simp add: is_rewrite_call_def)
  from Cons.IH [OF nes Cons.prems(2) rs1 len ps recs rec1, of s1] obtain w'
    where fl: "feedback_loop L (fs @ blank # later) s1 jd1 w1
                 = (Inr (last (s1 # map fst rounds'), last (jd1 # jds')), w')"
      and w': "replies w' = rest" "judge_calls w' = judge_calls w1 + length fs"
        "rewrite_calls w' = rewrite_calls w1 + length fs"
        "calls w' = calls w1 @ feedback_calls s1 (map py_strip fs) rounds'"
        "set (stdout w1) \<subseteq> set (stdout w')"
        "list_all (\<lambda>r. fst r @ [10] \<in> set (stdout w')) rounds'"
        "ustr ''Final internal judge score:'' @ 32 # score_text L (last (jd1 # jds')) @ [10]
               \<in> set (stdout w')"
    by blast
  have "feedback_loop L ((f # fs) @ blank # later) story jd w
          = feedback_loop L (fs @ blank # later) s1 jd1 w1"
    using ne fc by (simp add: Let_def)
  with fl have res: "feedback_loop L ((f # fs) @ blank # later) story jd w
          = (Inr (last (story # map fst rounds), last (jd # jds)), w')"
    using rounds r jds by simp
  have "set (stdout w) \<subseteq> set (stdout w')"
    using sub1 w'(5) by auto
  moreover have "s1 @ [10] \<in> set (stdout w')" using shown w'(5) by auto
  ultimately show ?case
    using res w' jc rc cw rounds r jds raw by auto
qed

lemma greeting_frame [simp]:
  "replies (greeting w) = replies w" "calls (greeting w) = calls w"
  by (simp_all add: greeting_def Let_def)

lemma main_feedback_loop:
  assumes sp: "story_pipeline L user_request 40 3 True (greeting w0) = (Inr (story, jd), w2)"
    and rec: "evaluation_record jd"
  shows "\<exists>w. replies w = replies w2 \<and> calls w = calls w2
           \<and> main L (user_request # lines) w0
               = (case feedback_loop L lines story jd w of
                    (Inl e, w') \<Rightarrow> (Inl e, w')
                  | (Inr r, w') \<Rightarrow> (Inr (), w'))"
proof -
  from record_fields(1) [OF rec, of L] record_fields(2) [OF rec] obtain sc iv
    where sc: "dict_get jd (ustr ''total_score'') JNull = Inr sc"
      and iv: "dict_get jd (ustr ''issues'') (JArr []) = Inr iv" "is_str_list iv"
    by blast
  let ?w6 = "py_print [ustr ''(Internal judge total score: '' @ py_str L sc @ ustr '')'']
              (py_print [[10] @ ustr ''======================================================'']
                (py_print [story]
                  (py_print [[10] @ ustr ''================= YOUR BEDTIME STORY ================='' @ [10]] w2)))"
  from print_issues_ok [OF iv(2), of "ustr ''Internal judge issues for this story:''" ?w6]
  obtain w7 where pi: "print_issues (ustr ''Internal judge issues for this story:'') iv ?w6
      = (Inr (), w7)" by blast
  from print_issues_frame [OF pi] have f: "calls w7 = calls w2" "replies w7 = replies w2"
    by simp_all
  have "main L (user_request # lines) w0
          = (case feedback_loop L lines story jd (py_print [] w7) of
                    (Inl e, w') \<Rightarrow> (Inl e, w')
                  | (Inr r, w') \<Rightarrow> (Inr (), w'))"
    unfolding main_def Let_def
    by (simp only: sp sc iv(1) pi list.case sum.case prod.case)
  moreover have "replies (py_print [] w7) = replies w2" "calls (py_print [] w7) = calls w2"
    using f by simp_all
  ultimately show ?thesis by blast
qed

lemma judged_pair_calls:
  "calls w = calls w' \<Longrightarrow> judged_pair L w story jd = judged_pair L w' story jd"
  by (simp add: judged_pair_def)

section \<open>The returned pair\<close>




section \<open>Story and evaluation belong together\<close>

text \<open>
  C10. Wherever a story is returned or kept together with an evaluation, the evaluation
  is the one \<open>judge_story\<close> made of that story (the last exchange with the gateway is the
  judge's call on it, and the record is parsed from its reply): for the pair
  \<open>story_pipeline\<close> returns, for the pair one pass of the feedback loop produces, for the
  pair the feedback loop ends with when it was entered with such a pair, and for the
  pair with which \<open>main\<close> enters the feedback loop.
\<close>

theorem evaluation_belongs_to_story:
  "(story_pipeline L user_request min_score max_rounds verbose w = (Inr (story, jd), w')
      \<longrightarrow> judged_pair L w' story jd)
   \<and> (feedback_cycle L fb cur w1 = (Inr (story1, jd1), w1')
      \<longrightarrow> judged_pair L w1' story1 jd1)
   \<and> (judged_pair L w2 cur2 cur_jd2
        \<and> feedback_loop L lines cur2 cur_jd2 w2 = (Inr (story2, jd2), w2')
      \<longrightarrow> judged_pair L w2' story2 jd2)
   \<and> (story_pipeline L request3 40 3 True (greeting w3) = (Inr (story3, jd3), w3')
        \<and> evaluation_record jd3
      \<longrightarrow> (\<exists>wl. judged_pair L wl story3 jd3
                \<and> main L (request3 # lines3) w3
                    = (case feedback_loop L lines3 story3 jd3 wl of
                         (Inl e, w') \<Rightarrow> (Inl e, w')
                       | (Inr r, w') \<Rightarrow> (Inr (), w'))))"
proof -
  have A: "judged_pair L w' story jd"
    if "story_pipeline L user_request min_score max_rounds verbose w = (Inr (story, jd), w')"
    using story_pipeline_invariant [OF that] by blast
  have B: "judged_pair L w1' story1 jd1"
    if h: "feedback_cycle L fb cur w1 = (Inr (story1, jd1), w1')"
  proof -
    from feedback_cycle_Inr [OF h] obtain raw
      where "calls w1' = (calls w1 @
                  [\<lparr>prompt = USER_FEEDBACK_PROMPT cur fb, max_tokens = 900,
                    temperature = 7 / 10, reply = Inr story1\<rparr>]) @
                   [\<lparr>prompt = JUDGE_PROMPT story1, max_tokens = 600,
                    temperature = 2 / 10, reply = Inr raw\<rparr>]"
        and "parse_judge_response L raw = Inr jd1"
      by auto
    then show ?thesis by (rule judged_pair_append)
  qed
  have C: "judged_pair L w2' story2 jd2"
    if "judged_pair L w2 cur2 cur_jd2
        \<and> feedback_loop L lines cur2 cur_jd2 w2 = (Inr (story2, jd2), w2')"
    using that feedback_loop_invariant by blast
  have D: "\<exists>wl. judged_pair L wl story3 jd3
                \<and> main L (request3 # lines3) w3
                    = (case feedback_loop L lines3 story3 jd3 wl of
                         (Inl e, w') \<Rightarrow> (Inl e, w')
                       | (Inr r, w') \<Rightarrow> (Inr (), w'))"
    if h: "story_pipeline L request3 40 3 True (greeting w3) = (Inr (story3, jd3), w3')
        \<and> evaluation_record jd3"
  proof -
    from h have sp: "story_pipeline L request3 40 3 True (greeting w3) = (Inr (story3, jd3), w3')"
      and rec: "evaluation_record jd3" by simp_all
    from story_pipeline_invariant [OF sp] have j: "judged_pair L w3' story3 jd3" by blast
    from main_feedback_loop [OF sp rec, of lines3] obtain wl
      where "calls wl = calls w3'"
        and m: "main L (request3 # lines3) w3
                    = (case feedback_loop L lines3 story3 jd3 wl of
                         (Inl e, w') \<Rightarrow> (Inl e, w')
                       | (Inr r, w') \<Rightarrow> (Inr (), w'))"
      by blast
    with j judged_pair_calls [of wl w3' L story3 jd3] show ?thesis by blast
  qed
  from A B C D show ?thesis by blast
qed

theorem evaluation_belongs_to_story_witness:
  \<open>fst (story_pipeline stub_lib (ustr ''a cat'') 40 3 False
      \<lparr>replies = [ustr ''Draft.'', ustr ''{"total_score": 44}''], calls = [], stdout = []\<rparr>)
     = Inr (ustr ''Draft.'', JObj [(ustr ''total_score'', JInt 44)])
   \<and> judged_pair stub_lib
       (snd (story_pipeline stub_lib (ustr ''a cat'') 40 3 False
          \<lparr>replies = [ustr ''Draft.'', ustr ''{"total_score": 44}''], calls = [], stdout = []\<rparr>))
       (ustr ''Draft.'') (JObj [(ustr ''total_score'', JInt 44)])
   \<and> judged_pair stub_lib
       \<lparr>replies = [ustr ''Funnier.'', ustr ''{"total_score": 30}''],
        calls = [\<lparr>prompt = JUDGE_PROMPT (ustr ''Draft.''), max_tokens = 600,
                  temperature = 2 / 10, reply = Inr (ustr ''{"total_score": 44}'')\<rparr>],
        stdout = []\<rparr>
       (ustr ''Draft.'') (JObj [(ustr ''total_score'', JInt 44)])
   \<and> fst (feedback_loop stub_lib [ustr ''make it funnier'', []] (ustr ''Draft.'')
        (JObj [(ustr ''total_score'', JInt 44)])
        \<lparr>replies = [ustr ''Funnier.'', ustr ''{"total_score": 30}''],
         calls = [\<lparr>prompt = JUDGE_PROMPT (ustr ''Draft.''), max_tokens = 600,
                   temperature = 2 / 10, reply = Inr (ustr ''{"total_score": 44}'')\<rparr>],
         stdout = []\<rparr>)
     = Inr (ustr ''Funnier.'', JObj [(ustr ''total_score'', JInt 30)])
   \<and> judged_pair stub_lib
       (snd (feedback_loop stub_lib [ustr ''make it funnier'', []] (ustr ''Draft.'')
        (JObj [(ustr ''total_score'', JInt 44)])
        \<lparr>replies = [ustr ''Funnier.'', ustr ''{"total_score": 30}''],
         calls = [\<lparr>prompt = JUDGE_PROMPT (ustr ''Draft.''), max_tokens = 600,
                   temperature = 2 / 10, reply = Inr (ustr ''{"total_score": 44}'')\<rparr>],
         stdout = []\<rparr>))
       (ustr ''Funnier.'') (JObj [(ustr ''total_score'', JInt 30)])
   \<and> (\<exists>wl. judged_pair stub_lib wl (ustr ''Draft.'') (JObj [(ustr ''total_score'', JInt 44)])
         \<and> main stub_lib [ustr ''a cat'']
              \<lparr>replies = [ustr ''Draft.'', ustr ''{"total_score": 44}''], calls = [], stdout = []\<rparr>
            = (case feedback_loop stub_lib [] (ustr ''Draft.'')
                      (JObj [(ustr ''total_score'', JInt 44)]) wl of
                 (Inl e, w') \<Rightarrow> (Inl e, w')
               | (Inr r, w') \<Rightarrow> (Inr (), w')))\<close>
proof -
  let ?w = \<open>\<lparr>replies = [ustr ''Draft.'', ustr ''{"total_score": 44}''], calls = [], stdout = []\<rparr>\<close>
  let ?j = "JObj [(ustr ''total_score'', JInt 44)]"
  let ?j2 = "JObj [(ustr ''total_score'', JInt 30)]"
  have a1: \<open>replies ?w = script ((ustr ''Draft.'', ustr ''{"total_score": 44}'') # []) @ []\<close>
    by simp
  have a2: \<open>map (\<lambda>r. parse_judge_response stub_lib (snd r))
              ((ustr ''Draft.'', ustr ''{"total_score": 44}'') # []) = map Inr (?j # [])\<close>
    by (simp add: stub_parse_score)
  have a3: "list_all evaluation_record (?j # [])" by (simp add: ustr_eq_iff)
  have a4: "list_all (\<lambda>x. total_score_of x < 40) (butlast (?j # []))" by simp
  have a5: "([] :: (pystr \<times> pystr) list) \<noteq> [] \<longrightarrow> 1 + int (length ([] :: (pystr \<times> pystr) list)) \<le> 3"
    by simp
  have a6: "\<not> (total_score_of (last (?j # [])) < 40
              \<and> 1 + int (length ([] :: (pystr \<times> pystr) list)) < 3)"
    by (simp add: ustr_eq_iff)
  from story_pipeline_script [OF a1 a2 a3 a4 a5 a6, of "ustr ''a cat''" False]
  obtain w' where r: "story_pipeline stub_lib (ustr ''a cat'') 40 3 False ?w = (Inr (ustr ''Draft.'', ?j), w')"
    by auto
  note T = evaluation_belongs_to_story [where L = stub_lib]
  from T [where user_request = "ustr ''a cat''" and min_score = 40 and max_rounds = 3
      and verbose = False and w = ?w and story = "ustr ''Draft.''" and jd = ?j and w' = w'] r
  have p1: "judged_pair stub_lib w' (ustr ''Draft.'') ?j" by blast
  let ?w2 = \<open>\<lparr>replies = [ustr ''Funnier.'', ustr ''{"total_score": 30}''],
         calls = [\<lparr>prompt = JUDGE_PROMPT (ustr ''Draft.''), max_tokens = 600,
                   temperature = 2 / 10, reply = Inr (ustr ''{"total_score": 44}'')\<rparr>],
         stdout = []\<rparr>\<close>
  have p2: "judged_pair stub_lib ?w2 (ustr ''Draft.'') ?j"
    by (simp add: judged_pair_def is_judge_call_def stub_parse_score)
  have b1: "list_all (\<lambda>f. py_strip f \<noteq> []) [ustr ''make it funnier'']"
    by (simp add: py_strip_def py_isspace_def ustr_def)
  have b2: "py_strip [] = []" by (simp add: py_strip_def)
  have b3: \<open>replies ?w2 = script [(ustr ''Funnier.'', ustr ''{"total_score": 30}'')] @ []\<close>
    by simp
  have b4: \<open>length [(ustr ''Funnier.'', ustr ''{"total_score": 30}'')] = length [ustr ''make it funnier'']\<close>
    by simp
  have b5: \<open>map (\<lambda>r. parse_judge_response stub_lib (snd r))
              [(ustr ''Funnier.'', ustr ''{"total_score": 30}'')] = map Inr [?j2]\<close>
    by (simp add: stub_parse_score)
  have b6: "list_all evaluation_record [?j2]" by (simp add: ustr_eq_iff)
  have b7: "evaluation_record ?j" by (simp add: ustr_eq_iff)
  from feedback_loop_script [OF b1 b2 b3 b4 b5 b6 b7, of "[]" "ustr ''Draft.''"]
  obtain w'' where f: "feedback_loop stub_lib [ustr ''make it funnier'', []] (ustr ''Draft.'') ?j ?w2
      = (Inr (ustr ''Funnier.'', ?j2), w'')"
    by auto
  from T [where ?w2.0 = ?w2 and ?cur2.0 = "ustr ''Draft.''" and ?cur_jd2.0 = ?j
      and lines = "[ustr ''make it funnier'', []]" and ?story2.0 = "ustr ''Funnier.''"
      and ?jd2.0 = ?j2 and ?w2' = w''] p2 f
  have p3: "judged_pair stub_lib w'' (ustr ''Funnier.'') ?j2" by blast
  have g1: \<open>replies (greeting ?w)
              = script ((ustr ''Draft.'', ustr ''{"total_score": 44}'') # []) @ []\<close>
    by simp
  from story_pipeline_script [OF g1 a2 a3 a4 a5 a6, of "ustr ''a cat''" True]
  obtain w3 where sp: "story_pipeline stub_lib (ustr ''a cat'') 40 3 True (greeting ?w)
        = (Inr (ustr ''Draft.'', ?j), w3)"
    by auto
  note T4 = T [where ?request3.0 = "ustr ''a cat''" and ?w3.0 = ?w and ?story3.0 = "ustr ''Draft.''"
      and ?jd3.0 = ?j and ?w3' = w3 and ?lines3.0 = "[]",
      THEN conjunct2, THEN conjunct2, THEN conjunct2, THEN mp, OF conjI [OF sp b7]]
  from T4
  have p4: "\<exists>wl. judged_pair stub_lib wl (ustr ''Draft.'') ?j
         \<and> main stub_lib [ustr ''a cat''] ?w
            = (case feedback_loop stub_lib [] (ustr ''Draft.'') ?j wl of
                 (Inl e, w') \<Rightarrow> (Inl e, w')
               | (Inr r, w') \<Rightarrow> (Inr (), w'))" .
  from r p1 p2 f p3 p4 show ?thesis by simp
qed

section \<open>The feedback loop ends at a blank line\<close>


lemma join_strs_joinable: "joinable v \<Longrightarrow> \<exists>t. join_strs sep v = Inr t"
proof (cases v)
  case (JArr xs)
  assume "joinable v"
  with JArr have "list_all is_str xs" by simp
  from str_items_ok [OF this] JArr show ?thesis by (auto simp: join_strs_def)
next
  case (JStr s)
  have "list_all is_str (map (\<lambda>c. JStr [c]) s)" by (induction s) auto
  from str_items_ok [OF this] JStr show ?thesis by (auto simp: join_strs_def)
next
  case (JObj kvs)
  have "list_all is_str (map (\<lambda>kv. JStr (fst kv)) kvs)" by (induction kvs) auto
  from str_items_ok [OF this] JObj show ?thesis by (auto simp: join_strs_def)
qed auto

lemma print_issues_fine:
  assumes "issues_ok v"
  shows "\<exists>w'. print_issues h v w = (Inr (), w') \<and> set (stdout w) \<subseteq> set (stdout w')"
proof (cases "py_truthy v")
  case True
  with assms have "joinable v" by (simp add: issues_ok_def)
  from join_strs_joinable [OF this, of "[10] @ ustr ''- ''"] obtain t
    where "join_strs ([10] @ ustr ''- '') v = Inr t" by blast
  with True show ?thesis
    by (auto simp: print_issues_def Let_def stdout_py_print)
next
  case False
  then show ?thesis by (auto simp: print_issues_def stdout_py_print)
qed

lemma printable_fields:
  assumes "printable jd"
  shows "\<exists>sc. dict_get jd (ustr ''total_score'') JNull = Inr sc \<and> py_str L sc = score_text L jd"
    and "\<exists>iv. dict_get jd (ustr ''issues'') (JArr []) = Inr iv \<and> issues_ok iv"
proof -
  from assms obtain kvs where jd: "jd = JObj kvs"
    and i: "field_ok issues_ok (map_of kvs (ustr ''issues''))"
    by (cases jd) auto
  show "\<exists>sc. dict_get jd (ustr ''total_score'') JNull = Inr sc \<and> py_str L sc = score_text L jd"
    using jd by (simp add: score_text_def)
  have "issues_ok (JArr [])" by (simp add: issues_ok_def)
  from dict_get_record [OF i this]
  show "\<exists>iv. dict_get jd (ustr ''issues'') (JArr []) = Inr iv \<and> issues_ok iv"
    using jd by simp
qed

lemma evaluation_record_printable: "evaluation_record jd \<Longrightarrow> printable jd"
proof (cases jd)
  case (JObj kvs)
  assume "evaluation_record jd"
  with JObj have f: "field_ok is_str_list (map_of kvs (ustr ''issues''))" by simp
  have "issues_ok v" if "is_str_list v" for v
    using that by (cases v) (auto simp: issues_ok_def)
  with f have "field_ok issues_ok (map_of kvs (ustr ''issues''))"
    by (cases "map_of kvs (ustr ''issues'')") auto
  with JObj show ?thesis by simp
qed auto

lemma final_report_printable:
  assumes "printable jd"
  shows "\<exists>w'. final_report L jd w = (Inr (), w')
          \<and> set (stdout w) \<subseteq> set (stdout w')
          \<and> ustr ''Final internal judge score:'' @ 32 # score_text L jd @ [10] \<in> set (stdout w')"
proof -
  from printable_fields(1) [OF assms, of L] printable_fields(2) [OF assms] obtain sc iv
    where sc: "dict_get jd (ustr ''total_score'') JNull = Inr sc" "py_str L sc = score_text L jd"
      and iv: "dict_get jd (ustr ''issues'') (JArr []) = Inr iv" "issues_ok iv"
    by blast
  let ?w2 = "py_print [ustr ''Final internal judge score:'', py_str L sc]
               (py_print [[10] @ ustr ''No more changes requested.''] w)"
  from print_issues_fine [OF iv(2), of "ustr ''Final judge issues:''" ?w2] obtain w3
    where pi: "print_issues (ustr ''Final judge issues:'') iv ?w2 = (Inr (), w3)"
      and sub: "set (stdout ?w2) \<subseteq> set (stdout w3)"
    by blast
  have "final_report L jd w = (Inr (), py_print [ustr ''Goodnight! '' @ [240, 376, 338, 8482]] w3)"
    using sc(1) iv(1) pi by (simp add: final_report_def Let_def)
  moreover have "set (stdout w3) \<subseteq>
      set (stdout (py_print [ustr ''Goodnight! '' @ [240, 376, 338, 8482]] w3))"
    by (simp add: stdout_py_print subset_insertI2)
  moreover have "set (stdout w) \<subseteq> set (stdout ?w2)"
    by (simp add: stdout_py_print subset_insertI2)
  moreover have "ustr ''Final internal judge score:'' @ 32 # score_text L jd @ [10] \<in> set (stdout ?w2)"
    using sc(2) by (simp add: stdout_py_print)
  ultimately show ?thesis using sub by blast
qed

lemma feedback_cycle_printable:
  assumes rs: "replies w = story # raw # rest"
    and p: "parse_judge_response L raw = Inr jd"
    and rec: "printable jd"
  shows "\<exists>w'. feedback_cycle L fb cur w = (Inr (story, jd), w')
          \<and> set (stdout w) \<subseteq> set (stdout w')
          \<and> story @ [10] \<in> set (stdout w')
          \<and> ustr ''Total score:'' @ 32 # score_text L jd @ [10] \<in> set (stdout w')"
proof -
  let ?c1 = "\<lparr>prompt = USER_FEEDBACK_PROMPT cur fb, max_tokens = 900,
               temperature = 7 / 10, reply = Inr story\<rparr>"
  let ?w1 = "w\<lparr>replies := raw # rest, calls := calls w @ [?c1]\<rparr>"
  have c: "call_model (USER_FEEDBACK_PROMPT cur fb) 900 (7 / 10) w = (Inr story, ?w1)"
    using rs by (simp add: call_model_reply)
  let ?c2 = "\<lparr>prompt = JUDGE_PROMPT story, max_tokens = 600, temperature = 2 / 10,
               reply = Inr raw\<rparr>"
  let ?w2 = "?w1\<lparr>replies := rest, calls := calls ?w1 @ [?c2]\<rparr>"
  have j: "judge_story L story ?w1 = (Inr jd, ?w2)"
    using judge_story_reply [of ?w1 raw rest L story] p by simp
  from printable_fields(1) [OF rec, of L] printable_fields(2) [OF rec] obtain sc iv
    where sc: "dict_get jd (ustr ''total_score'') JNull = Inr sc" "py_str L sc = score_text L jd"
      and iv: "dict_get jd (ustr ''issues'') (JArr []) = Inr iv" "issues_ok iv"
    by blast
  let ?w7 = "py_print [ustr ''Total score:'', py_str L sc]
                   (py_print [ustr ''--- Judge evaluation for updated story ---'']
                     (py_print [[10] @ ustr ''================================='' @ [10]]
                       (py_print [story]
                         (py_print [[10] @ ustr ''========= UPDATED STORY ========='' @ [10]] ?w2))))"
  from print_issues_fine [OF iv(2), of "ustr ''Issues:''" ?w7] obtain w8
    where pi: "print_issues (ustr ''Issues:'') iv ?w7 = (Inr (), w8)"
      and sub: "set (stdout ?w7) \<subseteq> set (stdout w8)"
    by blast
  have "feedback_cycle L fb cur w = (Inr (story, jd), py_print [] w8)"
    unfolding feedback_cycle_def Let_def
    by (simp only: c j sc(1) iv(1) pi sum.case prod.case)
  moreover have "set (stdout w8) \<subseteq> set (stdout (py_print [] w8))"
    by (simp add: stdout_py_print subset_insertI2)
  moreover have "set (stdout w) \<subseteq> set (stdout ?w7)"
    by (simp add: stdout_py_print subset_insertI2)
  moreover have "story @ [10] \<in> set (stdout ?w7)"
    by (simp add: stdout_py_print)
  moreover have "ustr ''Total score:'' @ 32 # score_text L jd @ [10] \<in> set (stdout ?w7)"
    using sc(2) by (simp add: stdout_py_print)
  ultimately show ?thesis using sub by blast
qed

lemma feedback_loop_run:
  assumes "list_all (\<lambda>f. py_strip f \<noteq> []) fs" and "py_strip blank = []"
    and "replies w = script rounds @ rest" and "length rounds = length fs"
    and "map (\<lambda>r. parse_judge_response L (snd r)) rounds = map Inr jds"
    and "list_all printable jds" and "printable (last (jd # jds))"
  shows "\<exists>w'. feedback_loop L (fs @ blank # later) story jd w
                 = (Inr (last (story # map fst rounds), last (jd # jds)), w')
          \<and> replies w' = rest
          \<and> calls w' = calls w @ feedback_calls story (map py_strip fs) rounds
          \<and> judge_calls w' = judge_calls w + length fs
          \<and> rewrite_calls w' = rewrite_calls w + length fs
          \<and> set (stdout w) \<subseteq> set (stdout w')
          \<and> list_all (\<lambda>r. fst r @ [10] \<in> set (stdout w')) rounds
          \<and> ustr ''Final internal judge score:'' @ 32 # score_text L (last (jd # jds)) @ [10]
               \<in> set (stdout w')"
  using assms
proof (induction fs arbitrary: rounds jds story jd w)
  case Nil
  let ?w0 = "w\<lparr>stdout := stdout w @ [FEEDBACK_QUESTION]\<rparr>"
  from Nil have e: "rounds = []" "jds = []" by simp_all
  with Nil.prems(7) have pj: "printable jd" by simp
  from final_report_printable [OF pj, of L ?w0] obtain w'
    where fr: "final_report L jd ?w0 = (Inr (), w')"
      and sub: "set (stdout ?w0) \<subseteq> set (stdout w')"
      and sc: "ustr ''Final internal judge score:'' @ 32 # score_text L jd @ [10] \<in> set (stdout w')"
    by blast
  from final_report_frame [OF fr] have fw: "calls w' = calls w" "replies w' = replies w"
    by simp_all
  have "feedback_loop L ([] @ blank # later) story jd w = (Inr (story, jd), w')"
    using Nil.prems(2) fr by (simp add: Let_def)
  with e fw sub sc Nil.prems(3) show ?case
    by (auto simp: judge_calls_def rewrite_calls_def)
next
  case (Cons f fs)
  let ?w0 = "w\<lparr>stdout := stdout w @ [FEEDBACK_QUESTION]\<rparr>"
  from Cons.prems(4) obtain r rounds' where rounds: "rounds = r # rounds'"
    and len: "length rounds' = length fs"
    by (cases rounds) auto
  obtain s1 raw1 where r: "r = (s1, raw1)" by (cases r)
  from Cons.prems(5) rounds r obtain jd1 jds' where jds: "jds = jd1 # jds'"
    and p1: "parse_judge_response L raw1 = Inr jd1"
    and ps: "map (\<lambda>r. parse_judge_response L (snd r)) rounds' = map Inr jds'"
    by (cases jds) auto
  from Cons.prems(6) jds have rec1: "printable jd1"
    and recs: "list_all printable jds'" by simp_all
  from Cons.prems(7) jds have recl: "printable (last (jd1 # jds'))" by simp
  from Cons.prems(1) have ne: "py_strip f \<noteq> []"
    and nes: "list_all (\<lambda>f. py_strip f \<noteq> []) fs" by simp_all
  have rs0: "replies ?w0 = s1 # raw1 # (script rounds' @ rest)"
    using Cons.prems(3) rounds r by simp
  from feedback_cycle_printable [OF rs0 p1 rec1, of "py_strip f" story] obtain w1
    where fc: "feedback_cycle L (py_strip f) story ?w0 = (Inr (s1, jd1), w1)"
      and sub1: "set (stdout ?w0) \<subseteq> set (stdout w1)"
      and shown: "s1 @ [10] \<in> set (stdout w1)"
    by blast
  from feedback_cycle_Inr [OF fc] obtain raw
    where c1: "calls w1 = calls ?w0 @
                  [\<lparr>prompt = USER_FEEDBACK_PROMPT story (py_strip f), max_tokens = 900,
                    temperature = 7 / 10, reply = Inr s1\<rparr>,
                   \<lparr>prompt = JUDGE_PROMPT s1, max_tokens = 600,
                    temperature = 2 / 10, reply = Inr raw\<rparr>]"
      and r1: "replies ?w0 = s1 # raw # replies w1"
    by blast
  from r1 rs0 have rs1: "replies w1 = script rounds' @ rest" and raw: "raw = raw1" by simp_all
  have cw: "calls w1 = calls w @
                  [\<lparr>prompt = USER_FEEDBACK_PROMPT story (py_strip f), max_tokens = 900,
                    temperature = 7 / 10, reply = Inr s1\<rparr>,
                   \<lparr>prompt = JUDGE_PROMPT s1, max_tokens = 600,
                    temperature = 2 / 10, reply = Inr raw\<rparr>]"
    using c1 by simp
  have jc: "judge_calls w1 = judge_calls w + 1"
    using judge_calls_append [OF cw] by (simp add: is_judge_call_def)
  have rc: "rewrite_calls w1 = rewrite_calls w + 1"
    using rewrite_calls_append [OF cw] by (simp add: is_rewrite_call_def)
  from Cons.IH [OF nes Cons.prems(2) rs1 len ps recs recl, of s1] obtain w'
    where fl: "feedback_loop L (fs @ blank # later) s1 jd1 w1
                 = (Inr (last (s1 # map fst rounds'), last (jd1 # jds')), w')"
      and w': "replies w' = rest" "judge_calls w' = judge_calls w1 + length fs"
        "rewrite_calls w' = rewrite_calls w1 + length fs"
        "calls w' = calls w1 @ feedback_calls s1 (map py_strip fs) rounds'"
        "set (stdout w1) \<subseteq> set (stdout w')"
        "list_all (\<lambda>r. fst r @ [10] \<in> set (stdout w')) rounds'"
        "ustr ''Final internal judge score:'' @ 32 # score_text L (last (jd1 # jds')) @ [10]
               \<in> set (stdout w')"
    by blast
  have "feedback_loop L ((f # fs) @ blank # later) story jd w
          = feedback_loop L (fs @ blank # later) s1 jd1 w1"
    using ne fc by (simp add: Let_def)
  with fl have res: "feedback_loop L ((f # fs) @ blank # later) story jd w
          = (Inr (last (story # map fst rounds), last (jd # jds)), w')"
    using rounds r jds by simp
  have "set (stdout w) \<subseteq> set (stdout w')"
    using sub1 w'(5) by auto
  moreover have "s1 @ [10] \<in> set (stdout w')" using shown w'(5) by auto
  ultimately show ?case
    using res w' jc rc cw rounds r jds raw by auto
qed

lemma main_enters_loop:
  assumes sp: "story_pipeline L user_request 40 3 True (greeting w0) = (Inr (story, jd), w2)"
    and sc: "dict_get jd (ustr ''total_score'') JNull = Inr sc"
    and iv: "dict_get jd (ustr ''issues'') (JArr []) = Inr iv"
    and pi: "print_issues (ustr ''Internal judge issues for this story:'') iv
               (py_print [ustr ''(Internal judge total score: '' @ py_str L sc @ ustr '')'']
                 (py_print [[10] @ ustr ''======================================================'']
                   (py_print [story]
                     (py_print [[10] @ ustr ''================= YOUR BEDTIME STORY ================='' @ [10]]
                        w2))))
             = (Inr (), w7)"
  shows "main L (user_request # lines) w0
          = (case feedback_loop L lines story jd (py_print [] w7) of
               (Inl e, w') \<Rightarrow> (Inl e, w')
             | (Inr r, w') \<Rightarrow> (Inr (), w'))"
  unfolding main_def Let_def
  by (simp only: sp sc iv pi list.case sum.case prod.case)

lemma main_runs_loop:
  assumes sp: "story_pipeline L user_request 40 3 True (greeting w0) = (Inr (story, jd), w2)"
    and rec: "printable jd"
  shows "\<exists>w. replies w = replies w2 \<and> calls w = calls w2
           \<and> main L (user_request # lines) w0
               = (case feedback_loop L lines story jd w of
                    (Inl e, w') \<Rightarrow> (Inl e, w')
                  | (Inr r, w') \<Rightarrow> (Inr (), w'))"
proof -
  from printable_fields(1) [OF rec, of L] printable_fields(2) [OF rec] obtain sc iv
    where sc: "dict_get jd (ustr ''total_score'') JNull = Inr sc"
      and iv: "dict_get jd (ustr ''issues'') (JArr []) = Inr iv" "issues_ok iv"
    by blast
  let ?w6 = "py_print [ustr ''(Internal judge total score: '' @ py_str L sc @ ustr '')'']
              (py_print [[10] @ ustr ''======================================================'']
                (py_print [story]
                  (py_print [[10] @ ustr ''================= YOUR BEDTIME STORY ================='' @ [10]] w2)))"
  from print_issues_fine [OF iv(2), of "ustr ''Internal judge issues for this story:''" ?w6]
  obtain w7 where pi: "print_issues (ustr ''Internal judge issues for this story:'') iv ?w6
      = (Inr (), w7)" by blast
  from print_issues_frame [OF pi] have f: "calls w7 = calls w2" "replies w7 = replies w2"
    by simp_all
  from main_enters_loop [OF sp sc iv(1) pi, of lines]
  have "main L (user_request # lines) w0
          = (case feedback_loop L lines story jd (py_print [] w7) of
                    (Inl e, w') \<Rightarrow> (Inl e, w')
                  | (Inr r, w') \<Rightarrow> (Inr (), w'))" .
  moreover have "replies (py_print [] w7) = replies w2" "calls (py_print [] w7) = calls w2"
    using f by simp_all
  ultimately show ?thesis by blast
qed

text \<open>
  C5. Let the feedback lines be \<open>fs\<close>, none of them blank, then a line that is empty once
  stripped, and let the gateway answer the two calls of every pass (\<open>rounds\<close>, one rewritten
  story and one raw evaluation for each line of \<open>fs\<close>). Let every record parsed from these
  evaluations be a dict whose \<open>issues\<close> the issue report can show (\<open>printable\<close>: the key
  is missing, or its value is falsy, or a list of strings, a string or a dict), and so the
  record the loop ends with. Then the loop runs one pass for each line of \<open>fs\<close>, whatever
  the scores and however many lines there are, and then stops without reading further:
  the gateway log grows by exactly one rewrite of the current story with the stripped
  feedback followed by one evaluation of the result for each line, every rewritten story
  is printed, and the loop ends with the last story and its record, whose score the final
  report prints. When \<open>story_pipeline\<close> hands \<open>main\<close> that story and a printable record,
  \<open>main\<close> returns after these exchanges.
\<close>

theorem feedback_loop_until_blank:
  assumes "list_all (\<lambda>f. py_strip f \<noteq> []) fs" and "py_strip blank = []"
    and "replies w = script rounds @ rest" and "length rounds = length fs"
    and "map (\<lambda>r. parse_judge_response L (snd r)) rounds = map Inr jds"
    and "list_all printable jds" and "printable (last (jd # jds))"
  shows "(\<exists>w'. feedback_loop L (fs @ blank # later) story jd w
                 = (Inr (last (story # map fst rounds), last (jd # jds)), w')
          \<and> replies w' = rest
          \<and> calls w' = calls w @ feedback_calls story (map py_strip fs) rounds
          \<and> judge_calls w' = judge_calls w + length fs
          \<and> rewrite_calls w' = rewrite_calls w + length fs
          \<and> set (stdout w) \<subseteq> set (stdout w')
          \<and> list_all (\<lambda>r. fst r @ [10] \<in> set (stdout w')) rounds
          \<and> ustr ''Final internal judge score:'' @ 32 # score_text L (last (jd # jds)) @ [10]
               \<in> set (stdout w'))
       \<and> (story_pipeline L user_request 40 3 True (greeting w0) = (Inr (story, jd), w)
            \<and> printable jd
           \<longrightarrow> (\<exists>w'. main L (user_request # fs @ blank # later) w0 = (Inr (), w')
                  \<and> replies w' = rest
                  \<and> calls w' = calls w @ feedback_calls story (map py_strip fs) rounds))"
proof -
  have A: "\<exists>w'. feedback_loop L (fs @ blank # later) story jd w
                 = (Inr (last (story # map fst rounds), last (jd # jds)), w')
          \<and> replies w' = rest
          \<and> calls w' = calls w @ feedback_calls story (map py_strip fs) rounds
          \<and> judge_calls w' = judge_calls w + length fs
          \<and> rewrite_calls w' = rewrite_calls w + length fs
          \<and> set (stdout w) \<subseteq> set (stdout w')
          \<and> list_all (\<lambda>r. fst r @ [10] \<in> set (stdout w')) rounds
          \<and> ustr ''Final internal judge score:'' @ 32 # score_text L (last (jd # jds)) @ [10]
               \<in> set (stdout w')"
    using assms by (rule feedback_loop_run)
  have B: "\<exists>w'. main L (user_request # fs @ blank # later) w0 = (Inr (), w')
                  \<and> replies w' = rest
                  \<and> calls w' = calls w @ feedback_calls story (map py_strip fs) rounds"
    if sp: "story_pipeline L user_request 40 3 True (greeting w0) = (Inr (story, jd), w)"
      and pj: "printable jd"
  proof -
    from main_runs_loop [OF sp pj, of "fs @ blank # later"] obtain wl
      where wl: "replies wl = replies w" "calls wl = calls w"
        and m: "main L (user_request # fs @ blank # later) w0
               = (case feedback_loop L (fs @ blank # later) story jd wl of
                    (Inl e, w') \<Rightarrow> (Inl e, w')
                  | (Inr r, w') \<Rightarrow> (Inr (), w'))"
      by blast
    have rl: "replies wl = script rounds @ rest" using wl(1) assms(3) by simp
    from feedback_loop_run [OF assms(1,2) rl assms(4,5,6,7), of later story] obtain w'
      where "feedback_loop L (fs @ blank # later) story jd wl
                 = (Inr (last (story # map fst rounds), last (jd # jds)), w')"
        and "replies w' = rest"
        and "calls w' = calls wl @ feedback_calls story (map py_strip fs) rounds"
      by blast
    with m wl(2) show ?thesis by simp
  qed
  from A B show ?thesis by blast
qed

theorem feedback_loop_until_blank_witness:
  \<open>py_strip (ustr '' make it funnier '') = ustr ''make it funnier''
   \<and> py_strip (ustr ''  '') = []
   \<and> fst (feedback_loop stub_lib [ustr '' make it funnier '', ustr ''  '', ustr ''never read'']
            (ustr ''Draft.'') (JObj [(ustr ''total_score'', JInt 44)])
            \<lparr>replies = [ustr ''Funnier.'', ustr ''{"total_score": 30}'', ustr ''unused''],
             calls = [], stdout = []\<rparr>)
       = Inr (ustr ''Funnier.'', JObj [(ustr ''total_score'', JInt 30)])
   \<and> calls (snd (feedback_loop stub_lib
            [ustr '' make it funnier '', ustr ''  '', ustr ''never read'']
            (ustr ''Draft.'') (JObj [(ustr ''total_score'', JInt 44)])
            \<lparr>replies = [ustr ''Funnier.'', ustr ''{"total_score": 30}'', ustr ''unused''],
             calls = [], stdout = []\<rparr>))
       = [\<lparr>prompt = USER_FEEDBACK_PROMPT (ustr ''Draft.'') (ustr ''make it funnier''),
           max_tokens = 900, temperature = 7 / 10, reply = Inr (ustr ''Funnier.'')\<rparr>,
          \<lparr>prompt = JUDGE_PROMPT (ustr ''Funnier.''), max_tokens = 600, temperature = 2 / 10,
           reply = Inr (ustr ''{"total_score": 30}'')\<rparr>]
   \<and> ustr ''Funnier.'' @ [10]
       \<in> set (stdout (snd (feedback_loop stub_lib
            [ustr '' make it funnier '', ustr ''  '', ustr ''never read'']
            (ustr ''Draft.'') (JObj [(ustr ''total_score'', JInt 44)])
            \<lparr>replies = [ustr ''Funnier.'', ustr ''{"total_score": 30}'', ustr ''unused''],
             calls = [], stdout = []\<rparr>)))
   \<and> ustr ''Final internal judge score: 30'' @ [10]
       \<in> set (stdout (snd (feedback_loop stub_lib
            [ustr '' make it funnier '', ustr ''  '', ustr ''never read'']
            (ustr ''Draft.'') (JObj [(ustr ''total_score'', JInt 44)])
            \<lparr>replies = [ustr ''Funnier.'', ustr ''{"total_score": 30}'', ustr ''unused''],
             calls = [], stdout = []\<rparr>)))
   \<and> fst (main stub_lib
            [ustr ''a cat'', ustr '' make it funnier '', ustr ''  '', ustr ''never read'']
            \<lparr>replies = [ustr ''Draft.'', ustr ''{"total_score": 44}'',
                        ustr ''Funnier.'', ustr ''{"total_score": 30}'', ustr ''unused''],
             calls = [], stdout = []\<rparr>)
       = Inr ()
   \<and> replies (snd (main stub_lib
            [ustr ''a cat'', ustr '' make it funnier '', ustr ''  '', ustr ''never read'']
            \<lparr>replies = [ustr ''Draft.'', ustr ''{"total_score": 44}'',
                        ustr ''Funnier.'', ustr ''{"total_score": 30}'', ustr ''unused''],
             calls = [], stdout = []\<rparr>))
       = [ustr ''unused'']\<close>
proof -
  let ?w = \<open>\<lparr>replies = [ustr ''Funnier.'', ustr ''{"total_score": 30}'', ustr ''unused''],
             calls = [], stdout = []\<rparr>\<close>
  let ?j = "JObj [(ustr ''total_score'', JInt 44)]"
  let ?j2 = "JObj [(ustr ''total_score'', JInt 30)]"
  have s1: "py_strip (ustr '' make it funnier '') = ustr ''make it funnier''"
    by (simp add: py_strip_def py_isspace_def ustr_def)
  have s2: "py_strip (ustr ''  '') = []"
    by (simp add: py_strip_def py_isspace_def ustr_def)
  have b1: "list_all (\<lambda>f. py_strip f \<noteq> []) [ustr '' make it funnier '']"
    by (simp add: s1) (simp add: ustr_def)
  have b3: \<open>replies ?w = script [(ustr ''Funnier.'', ustr ''{"total_score": 30}'')] @ [ustr ''unused'']\<close>
    by simp
  have b4: \<open>length [(ustr ''Funnier.'', ustr ''{"total_score": 30}'')]
             = length [ustr '' make it funnier '']\<close>
    by simp
  have b5: \<open>map (\<lambda>r. parse_judge_response stub_lib (snd r))
              [(ustr ''Funnier.'', ustr ''{"total_score": 30}'')] = map Inr [?j2]\<close>
    by (simp add: stub_parse_score)
  have b6: "list_all printable [?j2]" by (simp add: ustr_eq_iff)
  have b7: "printable (last [?j, ?j2])" by (simp add: ustr_eq_iff)
  have b8: "printable ?j" by (simp add: ustr_eq_iff)
  have sc: "ustr ''Final internal judge score:'' @ 32 # score_text stub_lib ?j2 @ [10]
              = ustr ''Final internal judge score: 30'' @ [10]"
    by (simp add: score_text_def str_int_def ustr_def)
  from feedback_loop_until_blank [OF b1 s2 b3 b4 b5 b6 b7, of "[ustr ''never read'']" "ustr ''Draft.''"]
  obtain w' where "feedback_loop stub_lib
            ([ustr '' make it funnier ''] @ ustr ''  '' # [ustr ''never read''])
            (ustr ''Draft.'') ?j ?w = (Inr (ustr ''Funnier.'', ?j2), w')"
    and \<open>calls w' = calls ?w @ feedback_calls (ustr ''Draft.'')
            (map py_strip [ustr '' make it funnier ''])
            [(ustr ''Funnier.'', ustr ''{"total_score": 30}'')]\<close>
    and \<open>list_all (\<lambda>r. fst r @ [10] \<in> set (stdout w'))
            [(ustr ''Funnier.'', ustr ''{"total_score": 30}'')]\<close>
    and "ustr ''Final internal judge score:'' @ 32 # score_text stub_lib ?j2 @ [10]
               \<in> set (stdout w')"
    by auto
  note loop = this
  let ?w0 = \<open>\<lparr>replies = [ustr ''Draft.'', ustr ''{"total_score": 44}'',
                        ustr ''Funnier.'', ustr ''{"total_score": 30}'', ustr ''unused''],
             calls = [], stdout = []\<rparr>\<close>
  have a1: \<open>replies (greeting ?w0) = script ((ustr ''Draft.'', ustr ''{"total_score": 44}'') # [])
              @ [ustr ''Funnier.'', ustr ''{"total_score": 30}'', ustr ''unused'']\<close>
    by simp
  have a2: \<open>map (\<lambda>r. parse_judge_response stub_lib (snd r))
              ((ustr ''Draft.'', ustr ''{"total_score": 44}'') # []) = map Inr (?j # [])\<close>
    by (simp add: stub_parse_score)
  have a3: "list_all evaluation_record (?j # [])" by (simp add: ustr_eq_iff)
  have a4: "list_all (\<lambda>x. total_score_of x < 40) (butlast (?j # []))" by simp
  have a5: "([] :: (pystr \<times> pystr) list) \<noteq> []
              \<longrightarrow> 1 + int (length ([] :: (pystr \<times> pystr) list)) \<le> 3"
    by simp
  have a6: "\<not> (total_score_of (last (?j # [])) < 40
              \<and> 1 + int (length ([] :: (pystr \<times> pystr) list)) < 3)"
    by (simp add: ustr_eq_iff)
  from story_pipeline_script [OF a1 a2 a3 a4 a5 a6, of "ustr ''a cat''" True]
  obtain w2 where sp: "story_pipeline stub_lib (ustr ''a cat'') 40 3 True (greeting ?w0)
        = (Inr (ustr ''Draft.'', ?j), w2)"
    and r2: \<open>replies w2 = script [(ustr ''Funnier.'', ustr ''{"total_score": 30}'')]
               @ [ustr ''unused'']\<close>
    by auto
  from feedback_loop_until_blank [OF b1 s2 r2 b4 b5 b6 b7,
      of "[ustr ''never read'']" "ustr ''Draft.''" "ustr ''a cat''" ?w0] sp b8
  obtain w3 where "main stub_lib
        (ustr ''a cat'' # [ustr '' make it funnier ''] @ ustr ''  '' # [ustr ''never read'']) ?w0
        = (Inr (), w3)"
    and "replies w3 = [ustr ''unused'']"
    by blast
  with loop show ?thesis using s1 s2 sc by simp
qed

text \<open>
  Where the loop does not go on. A record whose \<open>issues\<close> is a list holding an object
  makes the issue report raise \<open>TypeError\<close> at the end of the first pass: the next
  feedback line triggers nothing (one rewrite and one evaluation in all, two replies
  unused), and with a blank line next there is no final report. And when the gateway has
  no reply left for the evaluation, the pass ends with the gateway's error.
\<close>

theorem feedback_loop_until_blank_counterexample:
  \<open>fst (feedback_loop table_lib [ustr ''make it funnier'', ustr ''shorter'', []]
          (ustr ''Draft.'') (JObj [])
          \<lparr>replies = [ustr ''Funnier.'', ustr ''{"issues": [{}]}'', ustr ''Shorter.'', ustr ''{}''],
           calls = [], stdout = []\<rparr>)
     = Inl TypeError
   \<and> rewrite_calls (snd (feedback_loop table_lib [ustr ''make it funnier'', ustr ''shorter'', []]
          (ustr ''Draft.'') (JObj [])
          \<lparr>replies = [ustr ''Funnier.'', ustr ''{"issues": [{}]}'', ustr ''Shorter.'', ustr ''{}''],
           calls = [], stdout = []\<rparr>)) = 1
   \<and> judge_calls (snd (feedback_loop table_lib [ustr ''make it funnier'', ustr ''shorter'', []]
          (ustr ''Draft.'') (JObj [])
          \<lparr>replies = [ustr ''Funnier.'', ustr ''{"issues": [{}]}'', ustr ''Shorter.'', ustr ''{}''],
           calls = [], stdout = []\<rparr>)) = 1
   \<and> replies (snd (feedback_loop table_lib [ustr ''make it funnier'', ustr ''shorter'', []]
          (ustr ''Draft.'') (JObj [])
          \<lparr>replies = [ustr ''Funnier.'', ustr ''{"issues": [{}]}'', ustr ''Shorter.'', ustr ''{}''],
           calls = [], stdout = []\<rparr>)) = [ustr ''Shorter.'', ustr ''{}'']
   \<and> fst (feedback_loop table_lib [ustr ''make it funnier'', []]
          (ustr ''Draft.'') (JObj [])
          \<lparr>replies = [ustr ''Funnier.'', ustr ''{"issues": [{}]}''], calls = [], stdout = []\<rparr>)
     = Inl TypeError
   \<and> fst (feedback_loop table_lib [ustr ''make it funnier'', []]
          (ustr ''Draft.'') (JObj [])
          \<lparr>replies = [ustr ''Funnier.''], calls = [], stdout = []\<rparr>)
     = Inl GatewayError\<close>
proof -
  have s1: "py_strip (ustr ''make it funnier'') = ustr ''make it funnier''"
    by (simp add: py_strip_def py_isspace_def ustr_def)
  have ne: "ustr ''make it funnier'' \<noteq> []" by (simp add: ustr_def)
  let ?bad = "JObj [(ustr ''issues'', JArr [JObj []])]"
  have pi: "print_issues (ustr ''Issues:'') (JArr [JObj []]) w
              = (Inl TypeError, py_print [ustr ''Issues:''] w)" for w
    by (simp add: print_issues_def join_strs_def)
  have fc: "replies w = ustr ''Funnier.'' # raw # rest
      \<Longrightarrow> parse_judge_response table_lib raw = Inr ?bad
      \<Longrightarrow> fst (feedback_cycle table_lib (ustr ''make it funnier'') (ustr ''Draft.'') w)
            = Inl TypeError
          \<and> replies (snd (feedback_cycle table_lib (ustr ''make it funnier'') (ustr ''Draft.'') w))
            = rest
          \<and> calls (snd (feedback_cycle table_lib (ustr ''make it funnier'') (ustr ''Draft.'') w))
            = calls w @
               [\<lparr>prompt = USER_FEEDBACK_PROMPT (ustr ''Draft.'') (ustr ''make it funnier''),
                 max_tokens = 900, temperature = 7 / 10, reply = Inr (ustr ''Funnier.'')\<rparr>,
                \<lparr>prompt = JUDGE_PROMPT (ustr ''Funnier.''), max_tokens = 600,
                 temperature = 2 / 10, reply = Inr raw\<rparr>]" for w raw rest
    by (simp add: feedback_cycle_def call_model_reply judge_story_reply pi Let_def py_print_def)
  let ?w = \<open>\<lparr>replies = [ustr ''Funnier.'', ustr ''{"issues": [{}]}'', ustr ''Shorter.'', ustr ''{}''],
           calls = [], stdout = []\<rparr>\<close>
  let ?wq = "?w\<lparr>stdout := stdout ?w @ [FEEDBACK_QUESTION]\<rparr>"
  have rq: \<open>replies ?wq = ustr ''Funnier.'' # ustr ''{"issues": [{}]}''
              # [ustr ''Shorter.'', ustr ''{}'']\<close> by simp
  have L1: "feedback_loop table_lib [ustr ''make it funnier'', ustr ''shorter'', []]
              (ustr ''Draft.'') (JObj []) ?w
            = feedback_cycle table_lib (ustr ''make it funnier'') (ustr ''Draft.'') ?wq"
  proof -
    from fc [OF rq table_parse(5)]
    obtain w1 where "feedback_cycle table_lib (ustr ''make it funnier'') (ustr ''Draft.'') ?wq
            = (Inl TypeError, w1)"
      by (metis prod.collapse)
    then show ?thesis using ne by (simp add: s1 Let_def)
  qed
  let ?v = \<open>\<lparr>replies = [ustr ''Funnier.'', ustr ''{"issues": [{}]}''], calls = [], stdout = []\<rparr>\<close>
  let ?vq = "?v\<lparr>stdout := stdout ?v @ [FEEDBACK_QUESTION]\<rparr>"
  have rv: \<open>replies ?vq = ustr ''Funnier.'' # ustr ''{"issues": [{}]}'' # []\<close> by simp
  have L2: "feedback_loop table_lib [ustr ''make it funnier'', []]
              (ustr ''Draft.'') (JObj []) ?v
            = feedback_cycle table_lib (ustr ''make it funnier'') (ustr ''Draft.'') ?vq"
  proof -
    from fc [OF rv table_parse(5)]
    obtain w1 where "feedback_cycle table_lib (ustr ''make it funnier'') (ustr ''Draft.'') ?vq
            = (Inl TypeError, w1)"
      by (metis prod.collapse)
    then show ?thesis using ne by (simp add: s1 Let_def)
  qed
  have L3: "fst (feedback_loop table_lib [ustr ''make it funnier'', []]
          (ustr ''Draft.'') (JObj [])
          \<lparr>replies = [ustr ''Funnier.''], calls = [], stdout = []\<rparr>) = Inl GatewayError"
    using ne by (simp add: s1 Let_def feedback_cycle_def judge_story_def call_model_def)
  have J: "judge_calls (snd (feedback_cycle table_lib (ustr ''make it funnier'') (ustr ''Draft.'') ?wq)) = 1"
    using fc [OF rq table_parse(5)]
    by (simp add: judge_calls_def is_judge_call_def)
  have R: "rewrite_calls (snd (feedback_cycle table_lib (ustr ''make it funnier'') (ustr ''Draft.'') ?wq)) = 1"
    using fc [OF rq table_parse(5)]
    by (simp add: rewrite_calls_def is_rewrite_call_def)
  show ?thesis
    unfolding L1 L2
    using fc [OF rq table_parse(5)] fc [OF rv table_parse(5)] J R L3 by simp
qed

section \<open>The revision prompt\<close>

lemma str_join_nonempty:
  "xs \<noteq> [] \<Longrightarrow> hd xs \<noteq> [] \<Longrightarrow> str_join sep xs \<noteq> []"
  by (cases xs; cases "tl xs") auto

lemma bullets_or_placeholder:
  "bullets L (JArr items) = Inr t \<Longrightarrow>
   py_or t placeholder =
     (if items = [] then placeholder
      else str_join [10] (map (\<lambda>i. ustr ''- '' @ py_str L i) items))"
proof (cases items)
  case Nil
  assume "bullets L (JArr items) = Inr t"
  with Nil show ?thesis by (simp add: bullets_def py_or_def)
next
  case (Cons x xs)
  assume b: "bullets L (JArr items) = Inr t"
  have "str_join [10] (map (\<lambda>i. ustr ''- '' @ py_str L i) items) \<noteq> []"
    using Cons by (intro str_join_nonempty) (simp_all add: ustr_def)
  with b Cons show ?thesis by (auto simp: bullets_def py_or_def)
qed

lemma revise_story_lists:
  assumes "dict_get jd (ustr ''issues'') (JArr []) = Inr (JArr iss)"
    and "dict_get jd (ustr ''suggested_fixes'') (JArr []) = Inr (JArr fxs)"
  shows "revise_story L story jd w =
           call_model
             (REVISION_PROMPT story
                (if iss = [] then ustr ''- (no issues listed)''
                 else str_join [10] (map (\<lambda>i. ustr ''- '' @ py_str L i) iss))
                (if fxs = [] then ustr ''- (no fixes listed)''
                 else str_join [10] (map (\<lambda>i. ustr ''- '' @ py_str L i) fxs)))
             900 (7 / 10) w"
proof -
  obtain ti where ti: "bullets L (JArr iss) = Inr ti" by (simp add: bullets_def)
  obtain tf where tf: "bullets L (JArr fxs) = Inr tf" by (simp add: bullets_def)
  have "revise_story L story jd w =
          call_model (REVISION_PROMPT story (py_or ti (ustr ''- (no issues listed)''))
                        (py_or tf (ustr ''- (no fixes listed)''))) 900 (7 / 10) w"
    using assms ti tf by (simp add: revise_story_def)
  then show ?thesis
    by (simp only: bullets_or_placeholder [OF ti] bullets_or_placeholder [OF tf])
qed

lemma REVISION_PROMPT_layout:
  \<open>\<exists>head tail. \<forall>i f. REVISION_PROMPT story i f
       = head @ ustr ''Issues:'' @ [10] @ i @ [10, 10] @ ustr ''Suggested fixes:'' @ [10] @ f
           @ [10, 10] @ tail\<close>
proof (intro exI allI)
  fix i f
  show \<open>REVISION_PROMPT story i f
       = (concat
       [[10],
        ustr ''You are revising a children'' @ [39] @ ustr ''s bedtime story for ages 5'' @ [226, 8364, 8220] @ ustr ''10.'' @ [10],
        [10],
        ustr ''Original story:'' @ [10],
        ustr ''"""'',
        story,
        ustr ''"""'' @ [10],
        [10],
        ustr ''Feedback from a quality judge:'' @ [10],
        [10]])
         @ ustr ''Issues:'' @ [10] @ i @ [10, 10] @ ustr ''Suggested fixes:'' @ [10] @ f
         @ [10, 10]
         @ (concat
       [ustr ''Rewrite the story to address this feedback while:'' @ [10],
        ustr ''- Keeping it between 350'' @ [226, 8364, 8220] @ ustr ''600 words'' @ [10],
        ustr ''- Preserving the core theme and characters'' @ [10],
        ustr ''- Making it even clearer, kinder, and more engaging'' @ [10],
        ustr ''- Ending with a short moral that starts with "Moral:"'' @ [10],
        [10],
        ustr ''Return ONLY the improved story, with no explanation or comments.'' @ [10]])\<close>
    by (simp add: REVISION_PROMPT_def)
qed

text \<open>
  C6. When the \<open>issues\<close> and \<open>suggested_fixes\<close> read from the record (the empty list
  for a missing key) are lists, the prompt \<open>revise_story\<close> sends holds for each the
  entries as lines \<open>- item\<close> joined by newlines, or the lines \<open>- (no issues listed)\<close> and
  \<open>- (no fixes listed)\<close> when the list is empty. In particular \<open>issues = ["too long"]\<close>
  with \<open>suggested_fixes = []\<close> gives the blocks \<open>- too long\<close> and \<open>- (no fixes listed)\<close>.
  Each block stands on lines of its own, under \<open>Issues:\<close> and \<open>Suggested fixes:\<close>.
\<close>

theorem revise_story_bullet_blocks:
  "(dict_get jd (ustr ''issues'') (JArr []) = Inr (JArr iss)
      \<and> dict_get jd (ustr ''suggested_fixes'') (JArr []) = Inr (JArr fxs)
      \<longrightarrow> revise_story L story jd w =
           call_model
             (REVISION_PROMPT story
                (if iss = [] then ustr ''- (no issues listed)''
                 else str_join [10] (map (\<lambda>i. ustr ''- '' @ py_str L i) iss))
                (if fxs = [] then ustr ''- (no fixes listed)''
                 else str_join [10] (map (\<lambda>i. ustr ''- '' @ py_str L i) fxs)))
             900 (7 / 10) w)
   \<and> revise_story L story
        (JObj [(ustr ''issues'', JArr [JStr (ustr ''too long'')]),
               (ustr ''suggested_fixes'', JArr [])]) w
      = call_model
          (REVISION_PROMPT story (ustr ''- too long'') (ustr ''- (no fixes listed)''))
          900 (7 / 10) w
   \<and> (\<exists>head tail. \<forall>i f. REVISION_PROMPT story i f
         = head @ ustr ''Issues:'' @ [10] @ i @ [10, 10] @ ustr ''Suggested fixes:'' @ [10] @ f
             @ [10, 10] @ tail)"
proof -
  have A: "revise_story L story jd w =
           call_model
             (REVISION_PROMPT story
                (if iss = [] then ustr ''- (no issues listed)''
                 else str_join [10] (map (\<lambda>i. ustr ''- '' @ py_str L i) iss))
                (if fxs = [] then ustr ''- (no fixes listed)''
                 else str_join [10] (map (\<lambda>i. ustr ''- '' @ py_str L i) fxs)))
             900 (7 / 10) w"
    if "dict_get jd (ustr ''issues'') (JArr []) = Inr (JArr iss)
      \<and> dict_get jd (ustr ''suggested_fixes'') (JArr []) = Inr (JArr fxs)"
    using that revise_story_lists by blast
  let ?jd = "JObj [(ustr ''issues'', JArr [JStr (ustr ''too long'')]),
               (ustr ''suggested_fixes'', JArr [])]"
  have i: "dict_get ?jd (ustr ''issues'') (JArr []) = Inr (JArr [JStr (ustr ''too long'')])"
    by simp
  have f: "dict_get ?jd (ustr ''suggested_fixes'') (JArr []) = Inr (JArr [])"
    by (simp add: ustr_eq_iff)
  have e: "ustr ''- '' @ ustr ''too long'' = ustr ''- too long''"
    by (simp add: ustr_def)
  have B: "revise_story L story ?jd w
      = call_model
          (REVISION_PROMPT story (ustr ''- too long'') (ustr ''- (no fixes listed)''))
          900 (7 / 10) w"
    using revise_story_lists [OF i f, of L story w] by (simp add: e)
  from A B REVISION_PROMPT_layout [of story] show ?thesis by blast
qed

theorem revise_story_bullet_blocks_witness:
  "dict_get (JObj [(ustr ''issues'', JArr [JStr (ustr ''too long''), JStr (ustr ''scary'')])])
      (ustr ''issues'') (JArr [])
     = Inr (JArr [JStr (ustr ''too long''), JStr (ustr ''scary'')])
   \<and> dict_get (JObj [(ustr ''issues'', JArr [JStr (ustr ''too long''), JStr (ustr ''scary'')])])
      (ustr ''suggested_fixes'') (JArr [])
     = Inr (JArr [])
   \<and> revise_story stub_lib (ustr ''Once.'')
        (JObj [(ustr ''issues'', JArr [JStr (ustr ''too long''), JStr (ustr ''scary'')])])
        \<lparr>replies = [ustr ''Better.''], calls = [], stdout = []\<rparr>
      = call_model
          (REVISION_PROMPT (ustr ''Once.'') (ustr ''- too long'' @ [10] @ ustr ''- scary'')
             (ustr ''- (no fixes listed)''))
          900 (7 / 10) \<lparr>replies = [ustr ''Better.''], calls = [], stdout = []\<rparr>"
proof -
  let ?jd = "JObj [(ustr ''issues'', JArr [JStr (ustr ''too long''), JStr (ustr ''scary'')])]"
  let ?w = "\<lparr>replies = [ustr ''Better.''], calls = [], stdout = []\<rparr>"
  have i: "dict_get ?jd (ustr ''issues'') (JArr [])
             = Inr (JArr [JStr (ustr ''too long''), JStr (ustr ''scary'')])"
    by simp
  have f: "dict_get ?jd (ustr ''suggested_fixes'') (JArr []) = Inr (JArr [])"
    by (simp add: ustr_eq_iff)
  have e: "ustr ''- '' @ ustr ''too long'' = ustr ''- too long''"
    "ustr ''- '' @ ustr ''scary'' = ustr ''- scary''"
    by (simp_all add: ustr_def)
  from revise_story_bullet_blocks [where jd = ?jd and L = stub_lib and story = "ustr ''Once.''"
      and w = ?w and iss = "[JStr (ustr ''too long''), JStr (ustr ''scary'')]" and fxs = "[]"]
    i f
  have "revise_story stub_lib (ustr ''Once.'') ?jd ?w
      = call_model
          (REVISION_PROMPT (ustr ''Once.'')
             (if [JStr (ustr ''too long''), JStr (ustr ''scary'')] = []
              then ustr ''- (no issues listed)''
              else str_join [10] (map (\<lambda>i. ustr ''- '' @ py_str stub_lib i)
                     [JStr (ustr ''too long''), JStr (ustr ''scary'')]))
             (if ([]::json list) = [] then ustr ''- (no fixes listed)''
              else str_join [10] (map (\<lambda>i. ustr ''- '' @ py_str stub_lib i) [])))
          900 (7 / 10) ?w"
    by blast
  then have "revise_story stub_lib (ustr ''Once.'') ?jd ?w
      = call_model
          (REVISION_PROMPT (ustr ''Once.'') (ustr ''- too long'' @ [10] @ ustr ''- scary'')
             (ustr ''- (no fixes listed)''))
          900 (7 / 10) ?w"
    by (simp add: e)
  with i f show ?thesis by blast
qed

section \<open>Missing fields\<close>

lemma score_below_missing:
  assumes "map_of kvs (ustr ''total_score'') = None"
  shows "score_below (JObj kvs) m = Inr (0 < m)"
    and "score_below (JObj kvs) m = score_below (JObj ((ustr ''total_score'', JInt 0) # kvs)) m"
  using assms by (simp_all add: score_below_def)

lemma score_text_missing:
  "map_of kvs (ustr ''total_score'') = None \<Longrightarrow> score_text L (JObj kvs) = ustr ''None''"
  by (simp add: score_text_def)

lemma refine_loop_missing_stop:
  assumes "map_of kvs (ustr ''total_score'') = None"
    and "\<not> (0 < min_score \<and> round_idx < max_rounds)"
  shows "refine_loop L min_score max_rounds verbose round_idx story (JObj kvs) w
           = (Inr (round_idx, story, JObj kvs), w)"
  using assms(2)
  by (subst refine_loop.simps) (auto simp: score_below_missing(1) [OF assms(1)])

lemma refine_loop_missing_round:
  assumes ms: "map_of kvs (ustr ''total_score'') = None"
    and go: "0 < min_score" "round_idx < max_rounds"
    and rv: "revisable (JObj kvs)"
    and rs: "replies w = story' # raw # rest"
    and p: "parse_judge_response L raw = Inr (JObj kvs')"
  shows "\<exists>w'. refine_loop L min_score max_rounds verbose round_idx story (JObj kvs) w
              = refine_loop L min_score max_rounds verbose (round_idx + 1) story' (JObj kvs') w'
            \<and> replies w' = rest
            \<and> rewrite_calls w' = rewrite_calls w + 1
            \<and> judge_calls w' = judge_calls w + 1"
proof -
  from revise_story_revisable [OF rv, of L story w] obtain pr
    where rq: "revise_story L story (JObj kvs) w = call_model pr 900 (7 / 10) w" by blast
  let ?c1 = "\<lparr>prompt = pr, max_tokens = 900, temperature = 7 / 10, reply = Inr story'\<rparr>"
  let ?w1 = "w\<lparr>replies := raw # rest, calls := calls w @ [?c1]\<rparr>"
  have r1: "revise_story L story (JObj kvs) w = (Inr story', ?w1)"
    using rq rs by (simp add: call_model_reply)
  let ?c2 = "\<lparr>prompt = JUDGE_PROMPT story', max_tokens = 600, temperature = 2 / 10, reply = Inr raw\<rparr>"
  let ?w2 = "?w1\<lparr>replies := rest, calls := calls ?w1 @ [?c2]\<rparr>"
  have r2: "judge_story L story' ?w1 = (Inr (JObj kvs'), ?w2)"
    using judge_story_reply [of ?w1 raw rest L story'] p by simp
  let ?h = "ustr ''--- Judge evaluation: round '' @ str_int (round_idx + 1) @ ustr '' ---''"
  let ?r = "if verbose then report_round L ?h (JObj kvs') ?w2 else (Inr (), ?w2)"
  have f: "fst ?r = Inr ()" "replies (snd ?r) = replies ?w2" "calls (snd ?r) = calls ?w2"
    using report_round_dict [of L ?h kvs' ?w2] by simp_all
  have "?r = (Inr (), snd ?r)"
    by (simp only: prod_eq_iff fst_conv snd_conv f(1) simp_thms)
  with f(2,3) obtain w3 where r3: "?r = (Inr (), w3)"
    and w3: "replies w3 = replies ?w2" "calls w3 = calls ?w2"
    by blast
  have sb: "score_below (JObj kvs) min_score = Inr True"
    using score_below_missing(1) [OF ms, of min_score] go(1) by simp
  have "refine_loop L min_score max_rounds verbose round_idx story (JObj kvs) w
       = refine_loop L min_score max_rounds verbose (round_idx + 1) story' (JObj kvs') w3"
    apply (subst refine_loop.simps)
    apply (simp only: sb go r1 r2 r3 sum.case prod.case if_True simp_thms)
    done
  moreover have "replies w3 = rest" using w3 by simp
  moreover have c: "calls w3 = calls w @ [?c1, ?c2]" using w3 by simp
  moreover have "judge_calls w3 = judge_calls w + 1"
    using judge_calls_append [OF c] by (simp add: is_judge_call_def)
  moreover have "rewrite_calls w3 = rewrite_calls w + 1"
    using rewrite_calls_append [OF c] by (simp add: is_rewrite_call_def)
  ultimately show ?thesis by blast
qed

lemma dict_get_default_added:
  "map_of kvs k = None \<Longrightarrow> dict_get (JObj ((k, d) # kvs)) k d = dict_get (JObj kvs) k d"
  "k' \<noteq> k \<Longrightarrow> dict_get (JObj ((k, d) # kvs)) k' d' = dict_get (JObj kvs) k' d'"
  by simp_all

lemma revise_story_missing:
  "map_of kvs (ustr ''issues'') = None \<Longrightarrow>
     revise_story L story (JObj kvs) w
       = revise_story L story (JObj ((ustr ''issues'', JArr []) # kvs)) w"
  "map_of kvs (ustr ''suggested_fixes'') = None \<Longrightarrow>
     revise_story L story (JObj kvs) w
       = revise_story L story (JObj ((ustr ''suggested_fixes'', JArr []) # kvs)) w"
proof -
  have ne: "ustr ''suggested_fixes'' \<noteq> ustr ''issues''" "ustr ''issues'' \<noteq> ustr ''suggested_fixes''"
    by (simp_all add: ustr_eq_iff)
  show "revise_story L story (JObj kvs) w
       = revise_story L story (JObj ((ustr ''issues'', JArr []) # kvs)) w"
    if "map_of kvs (ustr ''issues'') = None"
    unfolding revise_story_def
    by (simp only: dict_get_default_added(1) [OF that] dict_get_default_added(2) [OF ne(1)])
  show "revise_story L story (JObj kvs) w
       = revise_story L story (JObj ((ustr ''suggested_fixes'', JArr []) # kvs)) w"
    if "map_of kvs (ustr ''suggested_fixes'') = None"
    unfolding revise_story_def
    by (simp only: dict_get_default_added(1) [OF that] dict_get_default_added(2) [OF ne(2)])
qed

lemma revise_story_missing_both:
  assumes "map_of kvs (ustr ''issues'') = None" and "map_of kvs (ustr ''suggested_fixes'') = None"
  shows "revise_story L story (JObj kvs) w
            = call_model
                (REVISION_PROMPT story (ustr ''- (no issues listed)'')
                   (ustr ''- (no fixes listed)''))
                900 (7 / 10) w"
proof -
  from assms have i: "dict_get (JObj kvs) (ustr ''issues'') (JArr []) = Inr (JArr [])"
    and f: "dict_get (JObj kvs) (ustr ''suggested_fixes'') (JArr []) = Inr (JArr [])"
    by simp_all
  from revise_story_lists [OF i f, of L story w] show ?thesis by simp
qed

lemma label_space:
  "ustr ''Score:'' @ 32 # x = ustr ''Score: '' @ x"
  "ustr ''Issues:'' @ 32 # ustr ''None'' @ 32 # [10, 10] = ustr ''Issues: None '' @ [10, 10]"
  "ustr ''Final internal judge score:'' @ 32 # x = ustr ''Final internal judge score: '' @ x"
  "ustr ''Total score:'' @ 32 # x = ustr ''Total score: '' @ x"
  "ustr ''Final judge issues:'' @ ustr '' (none reported)'' @ y
     = ustr ''Final judge issues: (none reported)'' @ y"
  "ustr ''Issues:'' @ ustr '' (none reported)'' @ y = ustr ''Issues: (none reported)'' @ y"
  "ustr ''Internal judge issues for this story:'' @ ustr '' (none reported)'' @ y
     = ustr ''Internal judge issues for this story: (none reported)'' @ y"
  by (simp_all add: ustr_def)

lemma report_round_missing:
  assumes "map_of kvs (ustr ''issues'') = None"
  shows "report_round L h (JObj kvs) w
           = (Inr (), w\<lparr>stdout := stdout w @
                [h @ [10],
                 ustr ''Score: '' @ score_text L (JObj kvs) @ [10],
                 ustr ''Issues: None '' @ [10, 10]]\<rparr>)"
    and "report_round L h (JObj kvs) w
           = report_round L h (JObj ((ustr ''issues'', JNull) # kvs)) w"
  using assms
  by (simp_all add: report_round_def py_print_def score_text_def Let_def ustr_eq_iff
        label_space)

lemma final_report_missing:
  assumes "map_of kvs (ustr ''issues'') = None"
  shows "final_report L (JObj kvs) w
           = (Inr (), w\<lparr>stdout := stdout w @
                [[10] @ ustr ''No more changes requested.'' @ [10],
                 ustr ''Final internal judge score: '' @ score_text L (JObj kvs) @ [10],
                 ustr ''Final judge issues: (none reported)'' @ [10],
                 ustr ''Goodnight! '' @ [240, 376, 338, 8482, 10]]\<rparr>)"
    and "final_report L (JObj kvs) w
           = final_report L (JObj ((ustr ''issues'', JArr []) # kvs)) w"
  using assms
  by (simp_all add: final_report_def print_issues_def py_print_def score_text_def Let_def
        ustr_eq_iff label_space)

lemma feedback_cycle_missing:
  assumes rs: "replies w = story' # raw # rest"
    and p: "parse_judge_response L raw = Inr (JObj kvs)"
    and ms: "map_of kvs (ustr ''issues'') = None"
  shows "feedback_cycle L fb story w
           = (Inr (story', JObj kvs),
              w\<lparr>replies := rest,
                calls := calls w @
                  [\<lparr>prompt = USER_FEEDBACK_PROMPT story fb, max_tokens = 900,
                    temperature = 7 / 10, reply = Inr story'\<rparr>,
                   \<lparr>prompt = JUDGE_PROMPT story', max_tokens = 600,
                    temperature = 2 / 10, reply = Inr raw\<rparr>],
                stdout := stdout w @
                  [[10] @ ustr ''========= UPDATED STORY ========='' @ [10, 10],
                   story' @ [10],
                   [10] @ ustr ''================================='' @ [10, 10],
                   ustr ''--- Judge evaluation for updated story ---'' @ [10],
                   ustr ''Total score: '' @ score_text L (JObj kvs) @ [10],
                   ustr ''Issues: (none reported)'' @ [10],
                   [10]]\<rparr>)"
proof -
  let ?c1 = "\<lparr>prompt = USER_FEEDBACK_PROMPT story fb, max_tokens = 900,
               temperature = 7 / 10, reply = Inr story'\<rparr>"
  let ?w1 = "w\<lparr>replies := raw # rest, calls := calls w @ [?c1]\<rparr>"
  have c: "call_model (USER_FEEDBACK_PROMPT story fb) 900 (7 / 10) w = (Inr story', ?w1)"
    using rs by (simp add: call_model_reply)
  let ?c2 = "\<lparr>prompt = JUDGE_PROMPT story', max_tokens = 600, temperature = 2 / 10,
               reply = Inr raw\<rparr>"
  let ?w2 = "?w1\<lparr>replies := rest, calls := calls ?w1 @ [?c2]\<rparr>"
  have j: "judge_story L story' ?w1 = (Inr (JObj kvs), ?w2)"
    using judge_story_reply [of ?w1 raw rest L story'] p by simp
  show ?thesis
    unfolding feedback_cycle_def
    apply (simp only: c j sum.case prod.case)
    using ms
    apply (simp add: print_issues_def py_print_def score_text_def Let_def label_space)
    done
qed

lemma main_missing:
  assumes sp: "story_pipeline L user_request 40 3 True (greeting w0) = (Inr (story, JObj kvs), w2)"
    and ms: "map_of kvs (ustr ''issues'') = None"
  shows "main L (user_request # lines) w0
          = (case feedback_loop L lines story (JObj kvs)
                   (w2\<lparr>stdout := stdout w2 @
                      [[10] @ ustr ''================= YOUR BEDTIME STORY ================='' @ [10, 10],
                       story @ [10],
                       [10] @ ustr ''======================================================'' @ [10],
                       ustr ''(Internal judge total score: '' @ score_text L (JObj kvs) @ ustr '')'' @ [10],
                       ustr ''Internal judge issues for this story: (none reported)'' @ [10],
                       [10]]\<rparr>) of
               (Inl e, w') \<Rightarrow> (Inl e, w')
             | (Inr r, w') \<Rightarrow> (Inr (), w'))"
proof -
  let ?sc = "case map_of kvs (ustr ''total_score'') of None \<Rightarrow> JNull | Some v \<Rightarrow> v"
  let ?w6 = "py_print [ustr ''(Internal judge total score: '' @ py_str L ?sc @ ustr '')'']
              (py_print [[10] @ ustr ''======================================================'']
                (py_print [story]
                  (py_print [[10] @ ustr ''================= YOUR BEDTIME STORY ================='' @ [10]] w2)))"
  have sc: "dict_get (JObj kvs) (ustr ''total_score'') JNull = Inr ?sc" by simp
  have iv: "dict_get (JObj kvs) (ustr ''issues'') (JArr []) = Inr (JArr [])" using ms by simp
  have pi: "print_issues (ustr ''Internal judge issues for this story:'') (JArr []) ?w6
      = (Inr (), py_print [ustr ''Internal judge issues for this story:'' @ ustr '' (none reported)''] ?w6)"
    by (simp add: print_issues_def)
  have e: "py_print [] (py_print [ustr ''Internal judge issues for this story:'' @ ustr '' (none reported)''] ?w6)
      = w2\<lparr>stdout := stdout w2 @
                      [[10] @ ustr ''================= YOUR BEDTIME STORY ================='' @ [10, 10],
                       story @ [10],
                       [10] @ ustr ''======================================================'' @ [10],
                       ustr ''(Internal judge total score: '' @ score_text L (JObj kvs) @ ustr '')'' @ [10],
                       ustr ''Internal judge issues for this story: (none reported)'' @ [10],
                       [10]]\<rparr>"
    by (simp add: py_print_def score_text_def label_space)
  from main_enters_loop [OF sp sc iv pi, of lines] show ?thesis
    by (simp only: e)
qed

lemma refine_loop_missing_body:
  assumes "map_of kvs (ustr ''total_score'') = None"
    and "0 < min_score" and "round_idx < max_rounds"
  shows "refine_loop L min_score max_rounds verbose round_idx story (JObj kvs) w
           = (case revise_story L story (JObj kvs) w of
               (Inl e, w1) \<Rightarrow> (Inl e, w1)
             | (Inr story', w1) \<Rightarrow>
            (case judge_story L story' w1 of
               (Inl e, w2) \<Rightarrow> (Inl e, w2)
             | (Inr judge_data', w2) \<Rightarrow>
            (case (if verbose
                   then report_round L
                          (ustr ''--- Judge evaluation: round '' @ str_int (round_idx + 1)
                             @ ustr '' ---'')
                          judge_data' w2
                   else (Inr (), w2)) of
               (Inl e, w3) \<Rightarrow> (Inl e, w3)
             | (Inr u, w3) \<Rightarrow>
                 refine_loop L min_score max_rounds verbose (round_idx + 1) story' judge_data' w3)))"
  apply (subst refine_loop.simps)
  apply (simp only: score_below_missing(1) [OF assms(1)] assms(2,3) sum.case if_True simp_thms)
  done

text \<open>
  C7. A record that lacks \<open>total_score\<close> is compared as if it held 0: the loop test is
  \<open>0 < min_score\<close>, and the reports print the score as \<open>None\<close>. So for a positive
  \<open>min_score\<close> the loop stops when the round budget is used up and otherwise runs its
  body, a revision round; with \<open>issues\<close> and \<open>suggested_fixes\<close> missing or iterable
  (\<open>revisable\<close>), the gateway answering twice and a dict parsed from the evaluation, the
  loop goes on at the next round after one rewrite call and one evaluation call. A
  record that lacks \<open>issues\<close> or \<open>suggested_fixes\<close> is read by \<open>revise_story\<close> as
  holding the empty list, so that the prompt gets the placeholder line, and a record that
  lacks \<open>issues\<close> is shown by \<open>main\<close> after the pipeline, by a feedback pass and by the
  final report as holding the empty list: \<open>(none reported)\<close>. The round report of
  \<open>story_pipeline\<close> reads \<open>issues\<close> with the default \<open>None\<close> and prints
  \<open>Issues: None\<close>. None of these readers raises on the missing key.
\<close>

theorem missing_fields_read_as_defaults:
  "(map_of kvs (ustr ''total_score'') = None
      \<longrightarrow> score_below (JObj kvs) min_score
            = score_below (JObj ((ustr ''total_score'', JInt 0) # kvs)) min_score
          \<and> score_below (JObj kvs) min_score = Inr (0 < min_score)
          \<and> score_text L (JObj kvs) = ustr ''None'')
   \<and> (map_of kvs (ustr ''total_score'') = None
        \<and> \<not> (0 < min_score \<and> round_idx < max_rounds)
      \<longrightarrow> refine_loop L min_score max_rounds verbose round_idx story (JObj kvs) w
            = (Inr (round_idx, story, JObj kvs), w))
   \<and> (map_of kvs (ustr ''total_score'') = None \<and> 0 < min_score \<and> round_idx < max_rounds
      \<longrightarrow> refine_loop L min_score max_rounds verbose round_idx story (JObj kvs) w
           = (case revise_story L story (JObj kvs) w of
               (Inl e, w1) \<Rightarrow> (Inl e, w1)
             | (Inr story', w1) \<Rightarrow>
            (case judge_story L story' w1 of
               (Inl e, w2) \<Rightarrow> (Inl e, w2)
             | (Inr judge_data', w2) \<Rightarrow>
            (case (if verbose
                   then report_round L
                          (ustr ''--- Judge evaluation: round '' @ str_int (round_idx + 1)
                             @ ustr '' ---'')
                          judge_data' w2
                   else (Inr (), w2)) of
               (Inl e, w3) \<Rightarrow> (Inl e, w3)
             | (Inr u, w3) \<Rightarrow>
                 refine_loop L min_score max_rounds verbose (round_idx + 1) story' judge_data' w3))))
   \<and> (map_of kvs (ustr ''total_score'') = None \<and> 0 < min_score \<and> round_idx < max_rounds
        \<and> revisable (JObj kvs)
        \<and> replies w = new_story # raw # rest
        \<and> parse_judge_response L raw = Inr (JObj kvs')
      \<longrightarrow> (\<exists>w3. refine_loop L min_score max_rounds verbose round_idx story (JObj kvs) w
                  = refine_loop L min_score max_rounds verbose (round_idx + 1) new_story
                      (JObj kvs') w3
                \<and> replies w3 = rest
                \<and> rewrite_calls w3 = rewrite_calls w + 1
                \<and> judge_calls w3 = judge_calls w + 1))
   \<and> (map_of kvs (ustr ''issues'') = None
      \<longrightarrow> revise_story L story (JObj kvs) w
            = revise_story L story (JObj ((ustr ''issues'', JArr []) # kvs)) w)
   \<and> (map_of kvs (ustr ''suggested_fixes'') = None
      \<longrightarrow> revise_story L story (JObj kvs) w
            = revise_story L story (JObj ((ustr ''suggested_fixes'', JArr []) # kvs)) w)
   \<and> (map_of kvs (ustr ''issues'') = None \<and> map_of kvs (ustr ''suggested_fixes'') = None
      \<longrightarrow> revise_story L story (JObj kvs) w
            = call_model
                (REVISION_PROMPT story (ustr ''- (no issues listed)'')
                   (ustr ''- (no fixes listed)''))
                900 (7 / 10) w)
   \<and> (story_pipeline L user_request 40 3 True (greeting wi) = (Inr (story, JObj kvs), w)
        \<and> map_of kvs (ustr ''issues'') = None
      \<longrightarrow> main L (user_request # lines) wi
          = (case feedback_loop L lines story (JObj kvs)
                   (w\<lparr>stdout := stdout w @
                      [[10] @ ustr ''================= YOUR BEDTIME STORY ================='' @ [10, 10],
                       story @ [10],
                       [10] @ ustr ''======================================================'' @ [10],
                       ustr ''(Internal judge total score: '' @ score_text L (JObj kvs) @ ustr '')'' @ [10],
                       ustr ''Internal judge issues for this story: (none reported)'' @ [10],
                       [10]]\<rparr>) of
               (Inl e, w') \<Rightarrow> (Inl e, w')
             | (Inr r, w') \<Rightarrow> (Inr (), w')))
   \<and> (replies w = new_story # raw # rest \<and> parse_judge_response L raw = Inr (JObj kvs)
        \<and> map_of kvs (ustr ''issues'') = None
      \<longrightarrow> feedback_cycle L fb story w
           = (Inr (new_story, JObj kvs),
              w\<lparr>replies := rest,
                calls := calls w @
                  [\<lparr>prompt = USER_FEEDBACK_PROMPT story fb, max_tokens = 900,
                    temperature = 7 / 10, reply = Inr new_story\<rparr>,
                   \<lparr>prompt = JUDGE_PROMPT new_story, max_tokens = 600,
                    temperature = 2 / 10, reply = Inr raw\<rparr>],
                stdout := stdout w @
                  [[10] @ ustr ''========= UPDATED STORY ========='' @ [10, 10],
                   new_story @ [10],
                   [10] @ ustr ''================================='' @ [10, 10],
                   ustr ''--- Judge evaluation for updated story ---'' @ [10],
                   ustr ''Total score: '' @ score_text L (JObj kvs) @ [10],
                   ustr ''Issues: (none reported)'' @ [10],
                   [10]]\<rparr>))
   \<and> (map_of kvs (ustr ''issues'') = None
      \<longrightarrow> final_report L (JObj kvs) w
            = final_report L (JObj ((ustr ''issues'', JArr []) # kvs)) w
          \<and> final_report L (JObj kvs) w
            = (Inr (), w\<lparr>stdout := stdout w @
                [[10] @ ustr ''No more changes requested.'' @ [10],
                 ustr ''Final internal judge score: '' @ score_text L (JObj kvs) @ [10],
                 ustr ''Final judge issues: (none reported)'' @ [10],
                 ustr ''Goodnight! '' @ [240, 376, 338, 8482, 10]]\<rparr>))
   \<and> (map_of kvs (ustr ''issues'') = None
      \<longrightarrow> report_round L h (JObj kvs) w
            = report_round L h (JObj ((ustr ''issues'', JNull) # kvs)) w
          \<and> report_round L h (JObj kvs) w
            = (Inr (), w\<lparr>stdout := stdout w @
                [h @ [10],
                 ustr ''Score: '' @ score_text L (JObj kvs) @ [10],
                 ustr ''Issues: None '' @ [10, 10]]\<rparr>))"
proof -
  note A = score_below_missing [of kvs min_score] score_text_missing [of kvs L]
  note B = refine_loop_missing_stop [of kvs min_score round_idx max_rounds L verbose story w]
  note C = refine_loop_missing_body [of kvs min_score round_idx max_rounds L verbose story w]
  note D = refine_loop_missing_round [of kvs min_score round_idx max_rounds w new_story raw rest
      L kvs' verbose story]
  note E = revise_story_missing [of kvs L story w]
  note F = revise_story_missing_both [of kvs L story w]
  note G = main_missing [of L user_request wi story kvs w lines]
  note H = feedback_cycle_missing [of w new_story raw rest L kvs fb story]
  note I = final_report_missing [of kvs L w]
  note J = report_round_missing [of kvs L h w]
  show ?thesis
    apply (intro conjI impI)
    subgoal by (erule A(2))
    subgoal by (erule A(1))
    subgoal by (erule A(3))
    subgoal by (erule conjE, erule (1) B)
    subgoal by (elim conjE, erule (2) C)
    subgoal by (elim conjE, rule D)
    subgoal by (erule E(1))
    subgoal by (erule E(2))
    subgoal by (elim conjE, erule (1) F)
    subgoal by (elim conjE, erule (1) G)
    subgoal by (elim conjE, rule H)
    subgoal by (erule I(2))
    subgoal by (erule I(1))
    subgoal by (erule J(2))
    subgoal by (erule J(1))
    done
qed

theorem missing_fields_read_as_defaults_witness:
  \<open>score_below (JObj []) 40 = Inr True
   \<and> score_text stub_lib (JObj []) = ustr ''None''
   \<and> refine_loop stub_lib 40 3 True 3 (ustr ''Draft.'') (JObj [])
        \<lparr>replies = [ustr ''Better.'', ustr ''{}''], calls = [], stdout = []\<rparr>
      = (Inr (3, ustr ''Draft.'', JObj []),
         \<lparr>replies = [ustr ''Better.'', ustr ''{}''], calls = [], stdout = []\<rparr>)
   \<and> (\<exists>w3. refine_loop stub_lib 40 3 True 1 (ustr ''Draft.'') (JObj [])
              \<lparr>replies = [ustr ''Better.'', ustr ''{}''], calls = [], stdout = []\<rparr>
            = refine_loop stub_lib 40 3 True (1 + 1) (ustr ''Better.'') (JObj []) w3
          \<and> replies w3 = [] \<and> rewrite_calls w3 = 1 \<and> judge_calls w3 = 1)
   \<and> revise_story stub_lib (ustr ''Draft.'') (JObj [])
        \<lparr>replies = [ustr ''Better.'', ustr ''{}''], calls = [], stdout = []\<rparr>
      = revise_story stub_lib (ustr ''Draft.'') (JObj [(ustr ''issues'', JArr [])])
        \<lparr>replies = [ustr ''Better.'', ustr ''{}''], calls = [], stdout = []\<rparr>
   \<and> revise_story stub_lib (ustr ''Draft.'') (JObj [])
        \<lparr>replies = [ustr ''Better.'', ustr ''{}''], calls = [], stdout = []\<rparr>
      = call_model
          (REVISION_PROMPT (ustr ''Draft.'') (ustr ''- (no issues listed)'')
             (ustr ''- (no fixes listed)''))
          900 (7 / 10) \<lparr>replies = [ustr ''Better.'', ustr ''{}''], calls = [], stdout = []\<rparr>
   \<and> fst (feedback_cycle stub_lib (ustr ''shorter'') (ustr ''Draft.'')
        \<lparr>replies = [ustr ''Better.'', ustr ''{}''], calls = [], stdout = []\<rparr>)
      = Inr (ustr ''Better.'', JObj [])
   \<and> stdout (snd (feedback_cycle stub_lib (ustr ''shorter'') (ustr ''Draft.'')
        \<lparr>replies = [ustr ''Better.'', ustr ''{}''], calls = [], stdout = []\<rparr>))
      = [[10] @ ustr ''========= UPDATED STORY ========='' @ [10, 10],
         ustr ''Better.'' @ [10],
         [10] @ ustr ''================================='' @ [10, 10],
         ustr ''--- Judge evaluation for updated story ---'' @ [10],
         ustr ''Total score: None'' @ [10],
         ustr ''Issues: (none reported)'' @ [10],
         [10]]
   \<and> final_report stub_lib (JObj [])
        \<lparr>replies = [ustr ''Better.'', ustr ''{}''], calls = [], stdout = []\<rparr>
      = (Inr (),
         \<lparr>replies = [ustr ''Better.'', ustr ''{}''], calls = [],
          stdout = [[10] @ ustr ''No more changes requested.'' @ [10],
                    ustr ''Final internal judge score: None'' @ [10],
                    ustr ''Final judge issues: (none reported)'' @ [10],
                    ustr ''Goodnight! '' @ [240, 376, 338, 8482, 10]]\<rparr>)
   \<and> report_round stub_lib (ustr ''--- Judge evaluation: round 2 ---'') (JObj [])
        \<lparr>replies = [ustr ''Better.'', ustr ''{}''], calls = [], stdout = []\<rparr>
      = (Inr (),
         \<lparr>replies = [ustr ''Better.'', ustr ''{}''], calls = [],
          stdout = [ustr ''--- Judge evaluation: round 2 ---'' @ [10],
                    ustr ''Score: None'' @ [10],
                    ustr ''Issues: None '' @ [10, 10]]\<rparr>)
   \<and> fst (main stub_lib [ustr ''a cat'', []]
        \<lparr>replies = [ustr ''Draft.'', ustr ''{"total_score": 44}''], calls = [], stdout = []\<rparr>)
      = Inr ()
   \<and> ustr ''Internal judge issues for this story: (none reported)'' @ [10]
        \<in> set (stdout (snd (main stub_lib [ustr ''a cat'', []]
        \<lparr>replies = [ustr ''Draft.'', ustr ''{"total_score": 44}''], calls = [], stdout = []\<rparr>)))\<close>
proof -
  let ?w = \<open>\<lparr>replies = [ustr ''Better.'', ustr ''{}''], calls = [], stdout = []\<rparr>\<close>
  have m: "map_of [] (ustr ''total_score'') = (None :: json option)"
    "map_of [] (ustr ''issues'') = (None :: json option)"
    "map_of [] (ustr ''suggested_fixes'') = (None :: json option)" by simp_all
  have rv: "revisable (JObj [])" by simp
  have p: "parse_judge_response stub_lib (ustr ''{}'') = Inr (JObj [])"
    by (rule stub_parse_score)
  have r: "replies ?w = ustr ''Better.'' # ustr ''{}'' # []" by simp
  have none: "ustr ''Total score: '' @ ustr ''None'' @ [10] = ustr ''Total score: None'' @ [10]"
    "ustr ''Final internal judge score: '' @ ustr ''None'' @ [10]
       = ustr ''Final internal judge score: None'' @ [10]"
    "ustr ''Score: '' @ ustr ''None'' @ [10] = ustr ''Score: None'' @ [10]"
    by (simp_all add: ustr_def)
  note T = missing_fields_read_as_defaults [where kvs = "[]" and L = stub_lib and w = ?w
      and story = "ustr ''Draft.''" and verbose = True and max_rounds = 3 and min_score = 40
      and new_story = "ustr ''Better.''" and raw = "ustr ''{}''" and rest = "[]"
      and kvs' = "[]" and fb = "ustr ''shorter''"
      and h = "ustr ''--- Judge evaluation: round 2 ---''"]
  note Ta = T [THEN conjunct1, THEN mp, OF m(1), THEN conjunct2]
  have a: "score_below (JObj []) 40 = Inr True" "score_text stub_lib (JObj []) = ustr ''None''"
    using Ta [THEN conjunct1] Ta [THEN conjunct2] by simp_all
  from T [where round_idx = 3, THEN conjunct2, THEN conjunct1] m
  have b: "refine_loop stub_lib 40 3 True 3 (ustr ''Draft.'') (JObj []) ?w
        = (Inr (3, ustr ''Draft.'', JObj []), ?w)" by simp
  have rc: "rewrite_calls ?w = 0" "judge_calls ?w = 0"
    by (simp_all add: rewrite_calls_def judge_calls_def)
  from T [where round_idx = 1, THEN conjunct2, THEN conjunct2, THEN conjunct2, THEN conjunct1]
    m rv r p
  have c: "\<exists>w3. refine_loop stub_lib 40 3 True 1 (ustr ''Draft.'') (JObj []) ?w
            = refine_loop stub_lib 40 3 True (1 + 1) (ustr ''Better.'') (JObj []) w3
          \<and> replies w3 = [] \<and> rewrite_calls w3 = 1 \<and> judge_calls w3 = 1"
    by (simp only: rc simp_thms) auto
  note T5 = T [THEN conjunct2, THEN conjunct2, THEN conjunct2, THEN conjunct2]
  from T5 [THEN conjunct1] m
  have d: "revise_story stub_lib (ustr ''Draft.'') (JObj []) ?w
      = revise_story stub_lib (ustr ''Draft.'') (JObj [(ustr ''issues'', JArr [])]) ?w"
    by simp
  from T5 [THEN conjunct2, THEN conjunct2, THEN conjunct1] m
  have e: "revise_story stub_lib (ustr ''Draft.'') (JObj []) ?w
      = call_model
          (REVISION_PROMPT (ustr ''Draft.'') (ustr ''- (no issues listed)'')
             (ustr ''- (no fixes listed)''))
          900 (7 / 10) ?w" by simp
  note T9 = T5 [THEN conjunct2, THEN conjunct2, THEN conjunct2, THEN conjunct2]
  from T9 [THEN conjunct1] m r p
  have f: "fst (feedback_cycle stub_lib (ustr ''shorter'') (ustr ''Draft.'') ?w)
      = Inr (ustr ''Better.'', JObj [])"
    "stdout (snd (feedback_cycle stub_lib (ustr ''shorter'') (ustr ''Draft.'') ?w))
      = [[10] @ ustr ''========= UPDATED STORY ========='' @ [10, 10],
         ustr ''Better.'' @ [10],
         [10] @ ustr ''================================='' @ [10, 10],
         ustr ''--- Judge evaluation for updated story ---'' @ [10],
         ustr ''Total score: None'' @ [10],
         ustr ''Issues: (none reported)'' @ [10],
         [10]]"
    by (simp_all add: a(2) none)
  from T9 [THEN conjunct2, THEN conjunct1, THEN mp, OF m(2), THEN conjunct2]
  have g: "final_report stub_lib (JObj []) ?w
      = (Inr (),
         \<lparr>replies = [ustr ''Better.'', ustr ''{}''], calls = [],
          stdout = [[10] @ ustr ''No more changes requested.'' @ [10],
                    ustr ''Final internal judge score: None'' @ [10],
                    ustr ''Final judge issues: (none reported)'' @ [10],
                    ustr ''Goodnight! '' @ [240, 376, 338, 8482, 10]]\<rparr>)"
    by (simp add: a(2) none)
  from T9 [THEN conjunct2, THEN conjunct2, THEN mp, OF m(2), THEN conjunct2]
  have h: "report_round stub_lib (ustr ''--- Judge evaluation: round 2 ---'') (JObj []) ?w
      = (Inr (),
         \<lparr>replies = [ustr ''Better.'', ustr ''{}''], calls = [],
          stdout = [ustr ''--- Judge evaluation: round 2 ---'' @ [10],
                    ustr ''Score: None'' @ [10],
                    ustr ''Issues: None '' @ [10, 10]]\<rparr>)"
    by (simp add: a(2) none)
  let ?w0 = \<open>\<lparr>replies = [ustr ''Draft.'', ustr ''{"total_score": 44}''], calls = [], stdout = []\<rparr>\<close>
  let ?j = "JObj [(ustr ''total_score'', JInt 44)]"
  have a1: \<open>replies (greeting ?w0) = script ((ustr ''Draft.'', ustr ''{"total_score": 44}'') # [])
              @ []\<close>
    by simp
  have a2: \<open>map (\<lambda>r. parse_judge_response stub_lib (snd r))
              ((ustr ''Draft.'', ustr ''{"total_score": 44}'') # []) = map Inr (?j # [])\<close>
    by (simp add: stub_parse_score)
  have a3: "list_all evaluation_record (?j # [])" by (simp add: ustr_eq_iff)
  have a4: "list_all (\<lambda>x. total_score_of x < 40) (butlast (?j # []))" by simp
  have a5: "([] :: (pystr \<times> pystr) list) \<noteq> []
              \<longrightarrow> 1 + int (length ([] :: (pystr \<times> pystr) list)) \<le> 3"
    by simp
  have a6: "\<not> (total_score_of (last (?j # [])) < 40
              \<and> 1 + int (length ([] :: (pystr \<times> pystr) list)) < 3)"
    by (simp add: ustr_eq_iff)
  from story_pipeline_script [OF a1 a2 a3 a4 a5 a6, of "ustr ''a cat''" True]
  obtain w2 where sp: "story_pipeline stub_lib (ustr ''a cat'') 40 3 True (greeting ?w0)
        = (Inr (ustr ''Draft.'', ?j), w2)"
    by auto
  have mi: "map_of [(ustr ''total_score'', JInt 44)] (ustr ''issues'') = None"
    by (simp add: ustr_eq_iff)
  let ?out = "[[10] @ ustr ''================= YOUR BEDTIME STORY ================='' @ [10, 10],
                       ustr ''Draft.'' @ [10],
                       [10] @ ustr ''======================================================'' @ [10],
                       ustr ''(Internal judge total score: '' @ score_text stub_lib ?j @ ustr '')'' @ [10],
                       ustr ''Internal judge issues for this story: (none reported)'' @ [10],
                       [10]]"
  let ?w3 = "w2\<lparr>stdout := stdout w2 @ ?out\<rparr>"
  let ?w4 = "?w3\<lparr>stdout := stdout ?w3 @ [FEEDBACK_QUESTION]\<rparr>"
  note U = missing_fields_read_as_defaults [where kvs = "[(ustr ''total_score'', JInt 44)]"
      and L = stub_lib and story = "ustr ''Draft.''" and user_request = "ustr ''a cat''"
      and wi = ?w0 and lines = "[[]]" and w = w2]
  note U8 = U [THEN conjunct2, THEN conjunct2, THEN conjunct2,
      THEN conjunct2, THEN conjunct2, THEN conjunct2, THEN conjunct2, THEN conjunct1]
  from U8 sp mi
  have m1: "main stub_lib (ustr ''a cat'' # [[]]) ?w0
          = (case feedback_loop stub_lib [[]] (ustr ''Draft.'') ?j ?w3 of
               (Inl e, w') \<Rightarrow> (Inl e, w')
             | (Inr r, w') \<Rightarrow> (Inr (), w'))"
    by blast
  note V = missing_fields_read_as_defaults [where kvs = "[(ustr ''total_score'', JInt 44)]"
      and L = stub_lib and w = ?w4]
  note V10 = V [THEN conjunct2, THEN conjunct2, THEN conjunct2,
      THEN conjunct2, THEN conjunct2, THEN conjunct2, THEN conjunct2, THEN conjunct2,
      THEN conjunct2, THEN conjunct1, THEN mp, OF mi, THEN conjunct2]
  from V10
  obtain wf where fr: "final_report stub_lib ?j ?w4 = (Inr (), wf)"
    and wf: "stdout wf = stdout ?w4 @
                [[10] @ ustr ''No more changes requested.'' @ [10],
                 ustr ''Final internal judge score: '' @ score_text stub_lib ?j @ [10],
                 ustr ''Final judge issues: (none reported)'' @ [10],
                 ustr ''Goodnight! '' @ [240, 376, 338, 8482, 10]]"
    by simp
  have st: "py_strip [] = []" by (simp add: py_strip_def)
  have fl: "feedback_loop stub_lib [[]] (ustr ''Draft.'') ?j ?w3 = (Inr (ustr ''Draft.'', ?j), wf)"
    using fr by (simp add: st Let_def)
  have m2: "main stub_lib [ustr ''a cat'', []] ?w0 = (Inr (), wf)"
    using m1 fl by simp
  have i: "fst (main stub_lib [ustr ''a cat'', []] ?w0) = Inr ()"
    "ustr ''Internal judge issues for this story: (none reported)'' @ [10]
        \<in> set (stdout (snd (main stub_lib [ustr ''a cat'', []] ?w0)))"
    using m2 wf by simp_all
  from a b c d e f g h i show ?thesis by (simp only: simp_thms)
qed

text \<open>
  The round report of \<open>story_pipeline\<close> reads \<open>issues\<close> with \<open>get("issues")\<close>, whose
  default is \<open>None\<close>: for a record without the key it prints \<open>Issues: None\<close>, where a
  record holding the empty list prints \<open>Issues: []\<close>. And with \<open>min_score = 0\<close> a record
  without \<open>total_score\<close> ends the loop in round 1 of 3: no revision is made although
  replies were still available.
\<close>

theorem missing_fields_read_as_defaults_counterexample:
  \<open>report_round table_lib (ustr ''--- Judge evaluation: round 2 ---'') (JObj [])
        \<lparr>replies = [], calls = [], stdout = []\<rparr>
      = (Inr (),
         \<lparr>replies = [], calls = [],
          stdout = [ustr ''--- Judge evaluation: round 2 ---'' @ [10],
                    ustr ''Score: None'' @ [10],
                    ustr ''Issues: None '' @ [10, 10]]\<rparr>)
   \<and> report_round table_lib (ustr ''--- Judge evaluation: round 2 ---'')
        (JObj [(ustr ''issues'', JArr [])])
        \<lparr>replies = [], calls = [], stdout = []\<rparr>
      = (Inr (),
         \<lparr>replies = [], calls = [],
          stdout = [ustr ''--- Judge evaluation: round 2 ---'' @ [10],
                    ustr ''Score: None'' @ [10],
                    ustr ''Issues: [] '' @ [10, 10]]\<rparr>)
   \<and> parse_judge_response table_lib (ustr ''{}'') = Inr (JObj [])
   \<and> fst (story_pipeline table_lib (ustr ''a cat'') 40 1 True
        \<lparr>replies = [ustr ''Draft.'', ustr ''{}''], calls = [], stdout = []\<rparr>)
      = Inr (ustr ''Draft.'', JObj [])
   \<and> stdout (snd (story_pipeline table_lib (ustr ''a cat'') 40 1 True
        \<lparr>replies = [ustr ''Draft.'', ustr ''{}''], calls = [], stdout = []\<rparr>))
      = [[10] @ ustr ''--- Judge evaluation: round 1 ---'' @ [10],
         ustr ''Score: None'' @ [10],
         ustr ''Issues: None '' @ [10, 10]]
   \<and> parse_judge_response stub_lib (ustr ''{}'') = Inr (JObj [])
   \<and> fst (story_pipeline stub_lib (ustr ''a cat'') 0 3 False
        \<lparr>replies = [ustr ''Draft.'', ustr ''{}'', ustr ''Better.'', ustr ''{}''],
         calls = [], stdout = []\<rparr>)
      = Inr (ustr ''Draft.'', JObj [])
   \<and> rewrite_calls (snd (story_pipeline stub_lib (ustr ''a cat'') 0 3 False
        \<lparr>replies = [ustr ''Draft.'', ustr ''{}'', ustr ''Better.'', ustr ''{}''],
         calls = [], stdout = []\<rparr>)) = 0
   \<and> replies (snd (story_pipeline stub_lib (ustr ''a cat'') 0 3 False
        \<lparr>replies = [ustr ''Draft.'', ustr ''{}'', ustr ''Better.'', ustr ''{}''],
         calls = [], stdout = []\<rparr>)) = [ustr ''Better.'', ustr ''{}'']\<close>
proof -
  have A: "report_round table_lib (ustr ''--- Judge evaluation: round 2 ---'') (JObj [])
        \<lparr>replies = [], calls = [], stdout = []\<rparr>
      = (Inr (),
         \<lparr>replies = [], calls = [],
          stdout = [ustr ''--- Judge evaluation: round 2 ---'' @ [10],
                    ustr ''Score: None'' @ [10],
                    ustr ''Issues: None '' @ [10, 10]]\<rparr>)"
    by (simp add: report_round_def py_print_def Let_def) (simp add: ustr_def)
  have B: "report_round table_lib (ustr ''--- Judge evaluation: round 2 ---'')
        (JObj [(ustr ''issues'', JArr [])])
        \<lparr>replies = [], calls = [], stdout = []\<rparr>
      = (Inr (),
         \<lparr>replies = [], calls = [],
          stdout = [ustr ''--- Judge evaluation: round 2 ---'' @ [10],
                    ustr ''Score: None'' @ [10],
                    ustr ''Issues: [] '' @ [10, 10]]\<rparr>)"
    by (simp add: report_round_def py_print_def Let_def table_lib_def ustr_eq_iff)
       (simp add: ustr_def)
  let ?w = \<open>\<lparr>replies = [ustr ''Draft.'', ustr ''{}''], calls = [], stdout = []\<rparr>\<close>
  have sb: "score_below (JObj []) 40 = Inr True" by (simp add: score_below_def)
  have g: "generate_initial_story (ustr ''a cat'') ?w
      = (Inr (ustr ''Draft.''),
         ?w\<lparr>replies := [ustr ''{}''],
             calls := [\<lparr>prompt = STORY_WRITER_PROMPT (ustr ''a cat''), max_tokens = 900,
                        temperature = 8 / 10, reply = Inr (ustr ''Draft.'')\<rparr>]\<rparr>)"
    by (simp add: generate_initial_story_def call_model_def)
  let ?w1 = "?w\<lparr>replies := [ustr ''{}''],
             calls := [\<lparr>prompt = STORY_WRITER_PROMPT (ustr ''a cat''), max_tokens = 900,
                        temperature = 8 / 10, reply = Inr (ustr ''Draft.'')\<rparr>]\<rparr>"
  have r1: "replies ?w1 = ustr ''{}'' # []" by simp
  have j: "judge_story table_lib (ustr ''Draft.'') ?w1
      = (Inr (JObj []),
         ?w1\<lparr>replies := [],
              calls := calls ?w1 @ [\<lparr>prompt = JUDGE_PROMPT (ustr ''Draft.''), max_tokens = 600,
                              temperature = 2 / 10, reply = Inr (ustr ''{}'')\<rparr>]\<rparr>)"
    using judge_story_reply [OF r1, of table_lib "ustr ''Draft.''"] table_parse(1) by simp
  have mi: "map_of [] (ustr ''issues'') = (None :: json option)" by simp
  have st: "score_text table_lib (JObj []) = ustr ''None''" by (simp add: score_text_def)
  have stop: "refine_loop table_lib 40 1 True 1 s (JObj []) w = (Inr (1, s, JObj []), w)"
    for s w
    using refine_loop_stops_at [OF sb, of 1 1] by simp
  have C: "fst (story_pipeline table_lib (ustr ''a cat'') 40 1 True ?w)
             = Inr (ustr ''Draft.'', JObj [])"
    "stdout (snd (story_pipeline table_lib (ustr ''a cat'') 40 1 True ?w))
      = [[10] @ ustr ''--- Judge evaluation: round 1 ---'' @ [10],
         ustr ''Score: None'' @ [10],
         ustr ''Issues: None '' @ [10, 10]]"
    unfolding story_pipeline_def
    by (simp_all only: g j sum.case prod.case if_True report_round_missing(1) [OF mi]
          stop st)
       (simp_all add: ustr_def)
  let ?v = \<open>\<lparr>replies = [ustr ''Draft.'', ustr ''{}'', ustr ''Better.'', ustr ''{}''],
         calls = [], stdout = []\<rparr>\<close>
  have s0: "score_below (JObj []) 0 = Inr False" by (simp add: score_below_def)
  have rv: "replies ?v = ustr ''Draft.'' # ustr ''{}'' # [ustr ''Better.'', ustr ''{}'']" by simp
  have D: "fst (story_pipeline stub_lib (ustr ''a cat'') 0 3 False ?v)
             = Inr (ustr ''Draft.'', JObj [])"
    "rewrite_calls (snd (story_pipeline stub_lib (ustr ''a cat'') 0 3 False ?v)) = 0"
    "replies (snd (story_pipeline stub_lib (ustr ''a cat'') 0 3 False ?v))
       = [ustr ''Better.'', ustr ''{}'']"
    by (simp_all add: story_pipeline_quiet_start [OF rv stub_parse_score(5)]
        refine_loop_stops_at [OF s0] rewrite_calls_def is_rewrite_call_def)
  from A B C D table_parse(1) stub_parse_score(5) show ?thesis by (simp only: simp_thms)
qed

end
